(* ===== verification/Prelude.thy ===== *)
theory Prelude
  imports Main "HOL-Library.Word"
begin

text \<open>
  Shared vocabulary of the development: identifiers, instants, the integer widths of the
  Go source, byte strings, and tables of rows with a key column.

  Go strings are byte sequences, so \<^typ>\<open>string\<close> (a list of 8-bit characters) is used for
  them and \<^const>\<open>length\<close> is Go's \<open>len\<close>. PostgreSQL's \<open>length\<close> counts code points; it is
  \<open>pg_length\<close> below. Instants and durations are integers counting nanoseconds.
\<close>

named_theorems row_simps \<open>effect of the row updates and lookups on tables\<close>
named_theorems store_defs \<open>definitions of the SQL statements\<close>

type_synonym uuid = "128 word"
type_synonym time = int

subsection \<open>Durations\<close>

definition second :: time where
  "second = 1000000000"

definition millisecond :: time where
  "millisecond = 1000000"

lemma second_millisecond: "second = 1000 * millisecond"
  by (simp add: second_def millisecond_def)

lemma millisecond_pos [simp]: "0 < millisecond"
  by (simp add: millisecond_def)

lemma second_pos [simp]: "0 < second"
  by (simp add: second_def)

subsection \<open>Fixed-width integers\<close>

text \<open>Go's \<open>int32\<close> arithmetic: the mathematical result wrapped into two's complement.\<close>

definition i32 :: "int \<Rightarrow> int" where
  "i32 x = (x + 2 ^ 31) mod 2 ^ 32 - 2 ^ 31"

definition i32_range :: "int \<Rightarrow> bool" where
  "i32_range x \<longleftrightarrow> - (2 ^ 31) \<le> x \<and> x < 2 ^ 31"

lemma i32_in_range [simp]: "i32_range (i32 x)"
proof -
  have "0 \<le> (x + 2 ^ 31) mod 2 ^ 32" and "(x + 2 ^ 31) mod 2 ^ 32 < 2 ^ 32"
    by simp_all
  then show ?thesis by (simp add: i32_range_def i32_def)
qed

lemma i32_id: "i32_range x \<Longrightarrow> i32 x = x"
  by (simp add: i32_def i32_range_def)

subsection \<open>Byte strings\<close>

text \<open>A byte \<open>10xxxxxx\<close> continues a UTF-8 sequence; every other byte starts a code point.\<close>

definition utf8_cont :: "char \<Rightarrow> bool" where
  "utf8_cont c \<longleftrightarrow> of_char c div 64 = (2::nat)"

definition pg_length :: "string \<Rightarrow> nat" where
  "pg_length s = length (filter (\<lambda>c. \<not> utf8_cont c) s)"

lemma pg_length_le: "pg_length s \<le> length s"
  by (simp add: pg_length_def)

lemma pg_length_Cons_pos: "\<not> utf8_cont c \<Longrightarrow> 1 \<le> pg_length (c # s)"
  by (simp add: pg_length_def)

text \<open>Go's \<open>truncate(s, n)\<close> helper keeps at most \<open>n\<close> bytes.\<close>

definition truncate_str :: "string \<Rightarrow> nat \<Rightarrow> string" where
  "truncate_str s n = (if length s \<le> n then s else take n s)"

lemma truncate_take: "truncate_str s n = take n s"
  by (simp add: truncate_str_def)

lemma length_truncate [simp]: "length (truncate_str s n) = min (length s) n"
  by (simp add: truncate_take)

lemma pg_length_truncate: "pg_length (truncate_str s n) \<le> n"
  using pg_length_le [of "truncate_str s n"] by simp

subsection \<open>Decimal notation\<close>

text \<open>The digits of \<open>%d\<close>, most significant first.\<close>

definition digit :: "nat \<Rightarrow> char" where
  "digit n = char_of (48 + n)"

fun show_nat :: "nat \<Rightarrow> string" where
  "show_nat n = (if n < 10 then [digit n] else show_nat (n div 10) @ [digit (n mod 10)])"

definition show_int :: "int \<Rightarrow> string" where
  "show_int i = (if i < 0 then CHR ''-'' # show_nat (nat (- i)) else show_nat (nat i))"

declare show_nat.simps [simp del]

definition is_digit :: "char \<Rightarrow> bool" where
  "is_digit c \<longleftrightarrow> (let n = of_char c :: nat in 48 \<le> n \<and> n \<le> 57)"

definition digits_value :: "string \<Rightarrow> nat" where
  "digits_value ds = foldl (\<lambda>n c. 10 * n + (of_char c - 48)) 0 ds"

subsection \<open>Tables: lists of rows with a key column\<close>

definition sel :: "('r \<Rightarrow> 'k) \<Rightarrow> 'k \<Rightarrow> 'r list \<Rightarrow> 'r option" where
  "sel key k rs = find (\<lambda>r. key r = k) rs"

definition upd :: "('r \<Rightarrow> bool) \<Rightarrow> ('r \<Rightarrow> 'r) \<Rightarrow> 'r list \<Rightarrow> 'r list" where
  "upd P f rs = map (\<lambda>r. if P r then f r else r) rs"

lemma sel_Nil [simp]: "sel key k [] = None"
  by (simp add: sel_def)

lemma sel_Cons [simp]: "sel key k (r # rs) = (if key r = k then Some r else sel key k rs)"
  by (simp add: sel_def)

lemma upd_Nil [simp]: "upd P f [] = []"
  by (simp add: upd_def)

lemma upd_Cons [simp]: "upd P f (r # rs) = (if P r then f r else r) # upd P f rs"
  by (simp add: upd_def)

lemma sel_append: "sel key k (xs @ ys) = (case sel key k xs of None \<Rightarrow> sel key k ys | Some r \<Rightarrow> Some r)"
  by (induction xs) auto

lemma sel_key: "sel key k rs = Some r \<Longrightarrow> key r = k"
  by (induction rs) (auto split: if_splits)

lemma sel_in_set: "sel key k rs = Some r \<Longrightarrow> r \<in> set rs"
  by (induction rs) (auto split: if_splits)

lemma sel_None_iff: "sel key k rs = None \<longleftrightarrow> k \<notin> key ` set rs"
  by (induction rs) auto

lemma sel_distinct: "distinct (map key rs) \<Longrightarrow> r \<in> set rs \<Longrightarrow> sel key (key r) rs = Some r"
  by (induction rs) (auto simp: image_iff)

lemma map_key_upd: "(\<And>r. P r \<Longrightarrow> key (f r) = key r) \<Longrightarrow> map key (upd P f rs) = map key rs"
  by (induction rs) auto

lemma sel_upd:
  assumes "\<And>r. P r \<Longrightarrow> key (f r) = key r"
  shows "sel key k (upd P f rs) = map_option (\<lambda>r. if P r then f r else r) (sel key k rs)"
  using assms by (induction rs) auto

lemma set_updE:
  assumes "r \<in> set (upd P f rs)"
  obtains r0 where "r0 \<in> set rs" and "r = (if P r0 then f r0 else r0)"
  using assms by (auto simp: upd_def)

lemma upd_cong_set: "(\<And>r. r \<in> set rs \<Longrightarrow> P r = Q r) \<Longrightarrow> upd P f rs = upd Q f rs"
  by (induction rs) auto

lemma upd_none: "(\<And>r. r \<in> set rs \<Longrightarrow> \<not> P r) \<Longrightarrow> upd P f rs = rs"
  by (induction rs) auto

end
