(* ===== verification/Domain.thy ===== *)
theory Domain
  imports Prelude
begin

text \<open>
  The domain vocabulary of \<open>internal/notification\<close>: channels, priorities and statuses.

  Go declares all three as string types. Channels and priorities stay strings here, since the
  handlers receive them unvalidated. Statuses only ever take the eight declared constants
  (the column has a CHECK on exactly these), so they are a datatype, with \<open>status_string\<close> the
  constants' values; \<open>Status_Valid\<close> is the check on raw query parameters.
\<close>

subsection \<open>Channels\<close>

type_synonym channel = string

abbreviation ChannelSMS :: channel where "ChannelSMS \<equiv> ''sms''"
abbreviation ChannelEmail :: channel where "ChannelEmail \<equiv> ''email''"
abbreviation ChannelPush :: channel where "ChannelPush \<equiv> ''push''"

definition Channel_Valid :: "channel \<Rightarrow> bool" where
  "Channel_Valid c \<longleftrightarrow> c = ChannelSMS \<or> c = ChannelEmail \<or> c = ChannelPush"

lemma Channel_ValidE:
  assumes "Channel_Valid c"
  obtains (sms) "c = ChannelSMS" | (email) "c = ChannelEmail" | (push) "c = ChannelPush"
  using assms by (auto simp: Channel_Valid_def)

subsection \<open>Priorities\<close>

type_synonym priority = string

abbreviation PriorityHigh :: priority where "PriorityHigh \<equiv> ''high''"
abbreviation PriorityNormal :: priority where "PriorityNormal \<equiv> ''normal''"
abbreviation PriorityLow :: priority where "PriorityLow \<equiv> ''low''"

definition Priority_Int16 :: "priority \<Rightarrow> int" where
  "Priority_Int16 p = (if p = PriorityHigh then 9 else if p = PriorityLow then 1 else 5)"

definition Priority_Valid :: "priority \<Rightarrow> bool" where
  "Priority_Valid p \<longleftrightarrow> p = PriorityHigh \<or> p = PriorityNormal \<or> p = PriorityLow \<or> p = ''''"

definition PriorityFromInt :: "int \<Rightarrow> priority" where
  "PriorityFromInt v = (if v = 9 then PriorityHigh else if v = 1 then PriorityLow else PriorityNormal)"

text \<open>The scheduler and the worker carry their own copies of the two mappings.\<close>

definition priorityLabel :: "int \<Rightarrow> string" where
  "priorityLabel p = (if p = 9 then ''high'' else if p = 1 then ''low'' else ''normal'')"

definition priorityToAMQP :: "string \<Rightarrow> int" where
  "priorityToAMQP s = (if s = ''high'' then 9 else if s = ''low'' then 1 else 5)"

lemma Priority_Int16_values: "Priority_Int16 p \<in> {1, 5, 9}"
  by (simp add: Priority_Int16_def)

lemma PriorityFromInt_Int16: "v \<in> {1, 5, 9} \<Longrightarrow> Priority_Int16 (PriorityFromInt v) = v"
  by (auto simp: Priority_Int16_def PriorityFromInt_def)

lemma Int16_PriorityFromInt: "Priority_Valid p \<Longrightarrow> p \<noteq> '''' \<Longrightarrow> PriorityFromInt (Priority_Int16 p) = p"
  by (auto simp: Priority_Int16_def PriorityFromInt_def Priority_Valid_def)

lemma priorityLabel_eq: "priorityLabel = PriorityFromInt"
  by (auto simp: priorityLabel_def PriorityFromInt_def)

lemma priorityToAMQP_eq: "priorityToAMQP = Priority_Int16"
  by (auto simp: priorityToAMQP_def Priority_Int16_def)

subsection \<open>Statuses\<close>

datatype status =
    StatusPending
  | StatusScheduled
  | StatusQueued
  | StatusSending
  | StatusSent
  | StatusFailed
  | StatusCancelled
  | StatusDeadLetter

fun status_string :: "status \<Rightarrow> string" where
  "status_string StatusPending = ''pending''"
| "status_string StatusScheduled = ''scheduled''"
| "status_string StatusQueued = ''queued''"
| "status_string StatusSending = ''sending''"
| "status_string StatusSent = ''sent''"
| "status_string StatusFailed = ''failed''"
| "status_string StatusCancelled = ''cancelled''"
| "status_string StatusDeadLetter = ''dead_letter''"

definition Status_Valid :: "string \<Rightarrow> bool" where
  "Status_Valid s \<longleftrightarrow>
     s = ''pending'' \<or> s = ''scheduled'' \<or> s = ''queued'' \<or> s = ''sending'' \<or>
     s = ''sent'' \<or> s = ''failed'' \<or> s = ''cancelled'' \<or> s = ''dead_letter''"

lemma status_string_inject: "status_string a = status_string b \<longleftrightarrow> a = b"
  by (cases a; cases b) simp_all

lemma Status_Valid_iff: "Status_Valid s \<longleftrightarrow> (\<exists>st. s = status_string st)"
proof
  assume "Status_Valid s"
  then show "\<exists>st. s = status_string st"
    unfolding Status_Valid_def by (metis status_string.simps)
next
  assume "\<exists>st. s = status_string st"
  then obtain st where "s = status_string st" ..
  then show "Status_Valid s" by (cases st) (simp_all add: Status_Valid_def)
qed

subsection \<open>Sentinel errors\<close>

datatype domain_error =
    ErrNotFound
  | ErrIdempotencyConflict
  | ErrIdempotencyInFlight
  | ErrInvalidState
  | ErrValidation
  | ErrUnknownChannel
  | ErrTemplateNotFound
  | ErrTemplateRender
  | ErrRateLimited

end
