(* ===== verification/Envelope.thy ===== *)
theory Envelope
  imports Domain Complex_Main
begin

text \<open>
  JSON values and the delivery envelope.

  Payload columns are \<open>jsonb\<close> and message bodies are their text, so a payload is a JSON tree
  and a body is either a JSON tree or bytes that are not JSON. Strings are taken to be valid
  UTF-8 without U+0000, which is what a \<open>jsonb\<close> string can hold. Five producers build the
  same envelope map (\<open>persist\<close>, \<open>insertBatchItem\<close>, the scheduler, the sweeper and the
  dead-letter replay); one consumer, the worker, decodes it into its \<open>envelope\<close> struct.
\<close>

datatype json =
    JNull
  | JBool bool
  | JNum rat
  | JStr string
  | JArr "json list"
  | JObj "(string \<times> json) list"

datatype body = NotJson | Json json

subsection \<open>The producers' map\<close>

text \<open>\<open>json.Marshal\<close> writes the keys of a Go map in ascending order.\<close>

definition envelope_json ::
  "string \<Rightarrow> string \<Rightarrow> string \<Rightarrow> string \<Rightarrow> string \<Rightarrow> string \<Rightarrow> json" where
  "envelope_json nid ch rcpt content prio corr =
     JObj [(''channel'', JStr ch),
           (''content'', JStr content),
           (''correlation_id'', JStr corr),
           (''notification_id'', JStr nid),
           (''priority'', JStr prio),
           (''recipient'', JStr rcpt)]"

subsection \<open>The worker's struct and its decoder\<close>

record envelope =
  env_NotificationID :: string
  env_Channel :: string
  env_Recipient :: string
  env_Content :: string
  env_Priority :: string
  env_CorrelationID :: string

definition empty_envelope :: envelope where
  "empty_envelope =
     \<lparr>env_NotificationID = '''', env_Channel = '''', env_Recipient = '''',
      env_Content = '''', env_Priority = '''', env_CorrelationID = ''''\<rparr>"

text \<open>
  \<open>encoding/json\<close> matches object keys to field names without regard to case. None of the
  six names contains a letter with a non-ASCII case variant, so ASCII folding is exact.
\<close>

definition to_lower :: "char \<Rightarrow> char" where
  "to_lower c = (let n = of_char c :: nat in if 65 \<le> n \<and> n \<le> 90 then char_of (n + 32) else c)"

definition env_known :: "string \<Rightarrow> bool" where
  "env_known k \<longleftrightarrow> k \<in> {''notification_id'', ''channel'', ''recipient'', ''content'', ''priority'', ''correlation_id''}"

definition env_set :: "string \<Rightarrow> string \<Rightarrow> envelope \<Rightarrow> envelope" where
  "env_set k v e =
     (if k = ''notification_id'' then e\<lparr>env_NotificationID := v\<rparr>
      else if k = ''channel'' then e\<lparr>env_Channel := v\<rparr>
      else if k = ''recipient'' then e\<lparr>env_Recipient := v\<rparr>
      else if k = ''content'' then e\<lparr>env_Content := v\<rparr>
      else if k = ''priority'' then e\<lparr>env_Priority := v\<rparr>
      else if k = ''correlation_id'' then e\<lparr>env_CorrelationID := v\<rparr>
      else e)"

text \<open>
  A JSON null leaves a field as it is; a value of another type is remembered as an error while
  the remaining members are still decoded. The Boolean says that no error occurred.
\<close>

fun unmarshal_members :: "(string \<times> json) list \<Rightarrow> envelope \<Rightarrow> envelope \<times> bool" where
  "unmarshal_members [] e = (e, True)"
| "unmarshal_members ((k, v) # ms) e =
     (let k' = map to_lower k in
      if env_known k' then
        (case v of
           JStr s \<Rightarrow> unmarshal_members ms (env_set k' s e)
         | JNull \<Rightarrow> unmarshal_members ms e
         | _ \<Rightarrow> (fst (unmarshal_members ms e), False))
      else unmarshal_members ms e)"

fun unmarshal_envelope :: "body \<Rightarrow> envelope \<times> bool" where
  "unmarshal_envelope (Json (JObj ms)) = unmarshal_members ms empty_envelope"
| "unmarshal_envelope (Json JNull) = (empty_envelope, True)"
| "unmarshal_envelope _ = (empty_envelope, False)"

lemma unmarshal_envelope_json:
  "unmarshal_envelope (Json (envelope_json nid ch rcpt content prio corr)) =
     (\<lparr>env_NotificationID = nid, env_Channel = ch, env_Recipient = rcpt,
       env_Content = content, env_Priority = prio, env_CorrelationID = corr\<rparr>, True)"
  by (simp add: envelope_json_def empty_envelope_def env_known_def env_set_def to_lower_def)

subsection \<open>The dispatcher's partial decoder\<close>

text \<open>\<open>extractNotificationID\<close>: one field only, the empty string on any error.\<close>

fun notification_id_members :: "(string \<times> json) list \<Rightarrow> string \<Rightarrow> string \<times> bool" where
  "notification_id_members [] s = (s, True)"
| "notification_id_members ((k, v) # ms) s =
     (if map to_lower k = ''notification_id'' then
        (case v of
           JStr t \<Rightarrow> notification_id_members ms t
         | JNull \<Rightarrow> notification_id_members ms s
         | _ \<Rightarrow> (fst (notification_id_members ms s), False))
      else notification_id_members ms s)"

definition extractNotificationID :: "json \<Rightarrow> string" where
  "extractNotificationID payload =
     (case payload of
        JObj ms \<Rightarrow> (case notification_id_members ms '''' of (s, ok) \<Rightarrow> if ok then s else '''')
      | _ \<Rightarrow> '''')"

lemma extractNotificationID_envelope:
  "extractNotificationID (envelope_json nid ch rcpt content prio corr) = nid"
  by (simp add: extractNotificationID_def envelope_json_def to_lower_def)

text \<open>On a payload that the worker decodes, both decoders agree on the id.\<close>

lemma extract_members:
  "unmarshal_members ms e = (env, True) \<Longrightarrow>
   notification_id_members ms (env_NotificationID e) = (env_NotificationID env, True)"
proof (induction ms arbitrary: e)
  case (Cons kv ms)
  obtain k v where kv: "kv = (k, v)" by fastforce
  show ?case
    using Cons.prems Cons.IH[of e] Cons.IH[of "env_set (map to_lower k) s e" for s]
    unfolding kv by (cases v) (auto simp: Let_def env_known_def env_set_def split: if_splits)
qed simp

lemma extractNotificationID_unmarshal:
  "unmarshal_envelope (Json (JObj ms)) = (env, True) \<Longrightarrow> extractNotificationID (JObj ms) = env_NotificationID env"
  using extract_members[of ms empty_envelope env] by (simp add: extractNotificationID_def empty_envelope_def)

end
