(* ===== verification/Store.thy ===== *)
theory Store
  imports Envelope "HOL-Library.Product_Lexorder"
begin

text \<open>
  The relational store: one record per table row (\<open>internal/store/gen/models.go\<close>), the
  constraints the migrations declare, and one definition per SQL statement of
  \<open>internal/store/gen/*.sql.go\<close>.

  A table is a list of rows, the database a record of tables. A statement is a function from
  the database to an error or a result with the new database; it is atomic, as a single
  PostgreSQL statement is. A \<open>:one\<close> query that matches no row is \<open>ErrNoRows\<close>; a violated
  CHECK, UNIQUE or foreign key is \<open>ErrConstraint\<close> and leaves the database as it was. The
  instant \<open>now()\<close> and the values of \<open>gen_random_uuid()\<close> are arguments. Loss of the
  connection is added around a statement by \<open>run_stmt\<close>.
\<close>

subsection \<open>Rows\<close>

record notification =
  n_id :: uuid
  n_batch_id :: "uuid option"
  n_channel :: string
  n_recipient :: string
  n_content :: string
  n_priority :: int
  n_status :: status
  n_idempotency_key :: "string option"
  n_attempt_count :: int
  n_last_error :: "string option"
  n_scheduled_at :: "time option"
  n_created_at :: time
  n_updated_at :: time
  n_sent_at :: "time option"
  n_correlation_id :: string
  n_template_id :: "uuid option"
  n_template_version :: "int option"
  n_created_by :: "uuid option"

record outbox_row =
  o_id :: uuid
  o_notification_id :: uuid
  o_routing_key :: string
  o_payload :: json
  o_headers :: json
  o_priority :: int
  o_created_at :: time
  o_claimed_at :: "time option"
  o_claimed_by :: "string option"
  o_published_at :: "time option"
  o_attempt_count :: int
  o_last_error :: "string option"

record scheduled_row =
  s_id :: uuid
  s_due_at :: time
  s_claimed_at :: "time option"
  s_claimed_by :: "string option"

record dead_letter =
  dl_id :: int
  dl_notification_id :: uuid
  dl_reason :: string
  dl_payload :: json
  dl_dlq_at :: time

record delivery_attempt =
  da_id :: int
  da_notification_id :: uuid
  da_attempt_number :: int
  da_started_at :: time
  da_completed_at :: "time option"
  da_success :: bool
  da_provider_message_id :: "string option"
  da_http_status :: "int option"
  da_error :: "string option"
  da_response_body :: "string option"

record batch =
  b_id :: uuid
  b_total_count :: int
  b_accepted_count :: int
  b_rejected_count :: int
  b_idempotency_key :: "string option"
  b_status :: string
  b_created_at :: time
  b_created_by :: "uuid option"

record template =
  t_id :: uuid
  t_name :: string
  t_channel :: string
  t_version :: int
  t_body :: string
  t_required_vars :: "string list"
  t_created_at :: time
  t_updated_at :: time
  t_deprecated_at :: "time option"
  t_created_by :: "uuid option"

record api_key =
  k_id :: uuid
  k_name :: string
  k_hashed_key :: string
  k_scopes :: "string list"
  k_created_at :: time
  k_revoked_at :: "time option"
  k_key_prefix :: string

record audit_row =
  au_id :: int
  au_actor :: string
  au_action :: string
  au_target_id :: "string option"
  au_details :: json
  au_at :: time
  au_actor_id :: "uuid option"
  au_prev_hash :: "string option"
  au_row_hash :: "string option"

record db =
  notifications :: "notification list"
  outbox :: "outbox_row list"
  scheduled_notifications :: "scheduled_row list"
  dead_letters :: "dead_letter list"
  delivery_attempts :: "delivery_attempt list"
  batches :: "batch list"
  templates :: "template list"
  api_keys :: "api_key list"
  admin_audit :: "audit_row list"

definition empty_db :: db where
  "empty_db = \<lparr>notifications = [], outbox = [], scheduled_notifications = [], dead_letters = [],
               delivery_attempts = [], batches = [], templates = [], api_keys = [], admin_audit = []\<rparr>"

subsection \<open>Results, faults and transactions\<close>

datatype db_error = ErrNoRows | ErrConstraint string | ErrInfra

type_synonym 'a stmt = "db \<Rightarrow> db_error + ('a \<times> db)"

text \<open>
  A call over the network can work, be lost before the server runs the statement, or fail on
  the client's side after the server has run it.
\<close>

datatype fault = NoFault | FaultBefore | FaultAfter

definition run_stmt :: "fault \<Rightarrow> 'a stmt \<Rightarrow> db \<Rightarrow> (db_error + 'a) \<times> db" where
  "run_stmt f q d =
     (case f of
        FaultBefore \<Rightarrow> (Inl ErrInfra, d)
      | NoFault \<Rightarrow> (case q d of Inl e \<Rightarrow> (Inl e, d) | Inr (a, d') \<Rightarrow> (Inr a, d'))
      | FaultAfter \<Rightarrow> (case q d of Inl e \<Rightarrow> (Inl e, d) | Inr (a, d') \<Rightarrow> (Inl ErrInfra, d')))"

text \<open>Statements of one transaction in sequence; an error abandons what came before.\<close>

definition bind_stmt :: "'a stmt \<Rightarrow> ('a \<Rightarrow> 'b stmt) \<Rightarrow> 'b stmt" where
  "bind_stmt q k d = (case q d of Inl e \<Rightarrow> Inl e | Inr (a, d') \<Rightarrow> k a d')"

text \<open>A statement of a transaction that the network loses when its flag is set.\<close>

definition guard_stmt :: "bool \<Rightarrow> 'a stmt \<Rightarrow> 'a stmt" where
  "guard_stmt lost q d = (if lost then Inl ErrInfra else q d)"

lemma run_stmt_cases:
  "snd (run_stmt f q d) = d \<or> (\<exists>a. q d = Inr (a, snd (run_stmt f q d)))"
  by (auto simp: run_stmt_def split: fault.splits sum.splits prod.splits)

lemma run_stmt_Inr: "run_stmt f q d = (Inr a, d') \<Longrightarrow> q d = Inr (a, d')"
  by (auto simp: run_stmt_def split: fault.splits sum.splits prod.splits)

lemma run_stmt_NoFault_Inr: "q d = Inr (a, d') \<Longrightarrow> run_stmt NoFault q d = (Inr a, d')"
  by (simp add: run_stmt_def)

lemma run_stmt_NoRows: "run_stmt f q d = (Inl ErrNoRows, d') \<Longrightarrow> q d = Inl ErrNoRows \<and> d' = d"
  by (auto simp: run_stmt_def split: fault.splits sum.splits prod.splits)

subsection \<open>Constraints\<close>

definition int4 :: "int \<Rightarrow> bool" where
  "int4 x \<longleftrightarrow> i32_range x"

definition priority_check :: "int \<Rightarrow> bool" where
  "priority_check p \<longleftrightarrow> p = 1 \<or> p = 5 \<or> p = 9"

text \<open>The CHECK constraints of \<open>notifications\<close> after migration 0014.\<close>

definition notif_check :: "notification \<Rightarrow> bool" where
  "notif_check r \<longleftrightarrow>
     Channel_Valid (n_channel r) \<and>
     1 \<le> pg_length (n_recipient r) \<and> pg_length (n_recipient r) \<le> 320 \<and>
     1 \<le> pg_length (n_content r) \<and> pg_length (n_content r) \<le> 262144 \<and>
     priority_check (n_priority r) \<and>
     0 \<le> n_attempt_count r \<and> int4 (n_attempt_count r) \<and>
     (n_status r = StatusSent) = (n_sent_at r \<noteq> None) \<and>
     (case n_template_version r of None \<Rightarrow> True | Some v \<Rightarrow> 1 \<le> v) \<and>
     (n_template_id r = None) = (n_template_version r = None)"

definition outbox_check :: "outbox_row \<Rightarrow> bool" where
  "outbox_check r \<longleftrightarrow>
     priority_check (o_priority r) \<and>
     0 \<le> o_attempt_count r \<and> int4 (o_attempt_count r) \<and>
     (o_claimed_at r = None) = (o_claimed_by r = None)"

definition attempt_check :: "delivery_attempt \<Rightarrow> bool" where
  "attempt_check r \<longleftrightarrow>
     1 \<le> da_attempt_number r \<and> int4 (da_attempt_number r) \<and>
     (case da_http_status r of None \<Rightarrow> True | Some s \<Rightarrow> 100 \<le> s \<and> s \<le> 599) \<and>
     (da_completed_at r = None) = (\<not> da_success r \<and> da_error r = None \<and> da_http_status r = None)"

definition dead_letter_check :: "dead_letter \<Rightarrow> bool" where
  "dead_letter_check r \<longleftrightarrow> 1 \<le> pg_length (dl_reason r) \<and> pg_length (dl_reason r) \<le> 500"

definition batch_check :: "batch \<Rightarrow> bool" where
  "batch_check r \<longleftrightarrow>
     0 \<le> b_total_count r \<and> 0 \<le> b_accepted_count r \<and> 0 \<le> b_rejected_count r \<and>
     b_status r \<in> {''accepted'', ''partial'', ''rejected'', ''completed''} \<and>
     b_accepted_count r + b_rejected_count r \<le> b_total_count r"

subsection \<open>Statements on notifications\<close>

definition GetNotificationByID :: "uuid \<Rightarrow> notification stmt" where
  "GetNotificationByID nid d =
     (case sel n_id nid (notifications d) of None \<Rightarrow> Inl ErrNoRows | Some r \<Rightarrow> Inr (r, d))"

definition GetNotificationByIDScoped :: "uuid \<Rightarrow> uuid \<Rightarrow> notification stmt" where
  "GetNotificationByIDScoped nid owner d =
     (case sel n_id nid (notifications d) of
        None \<Rightarrow> Inl ErrNoRows
      | Some r \<Rightarrow> if n_created_by r = Some owner then Inr (r, d) else Inl ErrNoRows)"

text \<open>\<open>ORDER BY created_at DESC, id DESC\<close>.\<close>

definition newest_first :: "notification list \<Rightarrow> notification list" where
  "newest_first rs = rev (sort_key (\<lambda>r. (n_created_at r, n_id r)) rs)"

definition GetNotificationsByBatchID :: "uuid \<Rightarrow> notification list stmt" where
  "GetNotificationsByBatchID bid d =
     Inr (newest_first (filter (\<lambda>r. n_batch_id r = Some bid) (notifications d)), d)"

definition GetNotificationsByBatchIDScoped :: "uuid \<Rightarrow> uuid \<Rightarrow> notification list stmt" where
  "GetNotificationsByBatchIDScoped bid owner d =
     Inr (newest_first (filter (\<lambda>r. n_batch_id r = Some bid \<and> n_created_by r = Some owner)
                               (notifications d)), d)"

text \<open>\<open>UPDATE notifications SET f WHERE id = nid AND g RETURNING *\<close>, and its \<open>:exec\<close> form.\<close>

definition update_notification ::
  "(notification \<Rightarrow> bool) \<Rightarrow> (notification \<Rightarrow> notification) \<Rightarrow> uuid \<Rightarrow> notification stmt" where
  "update_notification g f nid d =
     (case find (\<lambda>r. n_id r = nid \<and> g r) (notifications d) of
        None \<Rightarrow> Inl ErrNoRows
      | Some r \<Rightarrow>
          if \<not> notif_check (f r) then Inl (ErrConstraint ''notifications'')
          else Inr (f r, d\<lparr>notifications := upd (\<lambda>r. n_id r = nid \<and> g r) f (notifications d)\<rparr>))"

definition update_notification_exec ::
  "(notification \<Rightarrow> bool) \<Rightarrow> (notification \<Rightarrow> notification) \<Rightarrow> uuid \<Rightarrow> unit stmt" where
  "update_notification_exec g f nid d =
     (case update_notification g f nid d of
        Inl ErrNoRows \<Rightarrow> Inr ((), d)
      | Inl e \<Rightarrow> Inl e
      | Inr (r, d') \<Rightarrow> Inr ((), d'))"

definition cancellable :: "notification \<Rightarrow> bool" where
  "cancellable r \<longleftrightarrow>
     n_status r = StatusPending \<or> n_status r = StatusQueued \<or> n_status r = StatusScheduled"

definition CancelPendingOrQueued :: "time \<Rightarrow> uuid \<Rightarrow> notification stmt" where
  "CancelPendingOrQueued now =
     update_notification cancellable (\<lambda>r. r\<lparr>n_status := StatusCancelled, n_updated_at := now\<rparr>)"

definition CancelPendingOrQueuedScoped :: "time \<Rightarrow> uuid \<Rightarrow> uuid \<Rightarrow> notification stmt" where
  "CancelPendingOrQueuedScoped now nid owner =
     update_notification (\<lambda>r. n_created_by r = Some owner \<and> cancellable r)
       (\<lambda>r. r\<lparr>n_status := StatusCancelled, n_updated_at := now\<rparr>) nid"

definition IncrementAttempt :: "time \<Rightarrow> uuid \<Rightarrow> unit stmt" where
  "IncrementAttempt now =
     update_notification_exec (\<lambda>r. True)
       (\<lambda>r. r\<lparr>n_attempt_count := n_attempt_count r + 1, n_updated_at := now\<rparr>)"

definition MarkDeadLetter :: "time \<Rightarrow> uuid \<Rightarrow> string \<Rightarrow> notification stmt" where
  "MarkDeadLetter now nid err =
     update_notification (\<lambda>r. True)
       (\<lambda>r. r\<lparr>n_status := StatusDeadLetter, n_last_error := Some err, n_updated_at := now\<rparr>) nid"

definition MarkFailed :: "time \<Rightarrow> uuid \<Rightarrow> string \<Rightarrow> notification stmt" where
  "MarkFailed now nid err =
     update_notification (\<lambda>r. n_status r = StatusSending)
       (\<lambda>r. r\<lparr>n_status := StatusFailed, n_last_error := Some err, n_updated_at := now\<rparr>) nid"

definition MarkQueued :: "time \<Rightarrow> uuid \<Rightarrow> notification stmt" where
  "MarkQueued now =
     update_notification (\<lambda>r. n_status r = StatusPending)
       (\<lambda>r. r\<lparr>n_status := StatusQueued, n_updated_at := now\<rparr>)"

definition MarkSendingCAS :: "time \<Rightarrow> uuid \<Rightarrow> notification stmt" where
  "MarkSendingCAS now =
     update_notification (\<lambda>r. n_status r = StatusPending \<or> n_status r = StatusQueued)
       (\<lambda>r. r\<lparr>n_status := StatusSending, n_updated_at := now\<rparr>)"

definition MarkSent :: "time \<Rightarrow> uuid \<Rightarrow> notification stmt" where
  "MarkSent now =
     update_notification (\<lambda>r. n_status r = StatusSending)
       (\<lambda>r. r\<lparr>n_status := StatusSent, n_sent_at := Some now, n_updated_at := now\<rparr>)"

definition RevertToQueued :: "time \<Rightarrow> uuid \<Rightarrow> string option \<Rightarrow> unit stmt" where
  "RevertToQueued now nid err =
     update_notification_exec (\<lambda>r. n_status r = StatusSending)
       (\<lambda>r. r\<lparr>n_status := StatusQueued, n_attempt_count := n_attempt_count r + 1,
              n_last_error := err, n_updated_at := now\<rparr>) nid"

definition RevertToQueuedNoAttempt :: "time \<Rightarrow> uuid \<Rightarrow> string option \<Rightarrow> unit stmt" where
  "RevertToQueuedNoAttempt now nid err =
     update_notification_exec (\<lambda>r. n_status r = StatusSending)
       (\<lambda>r. r\<lparr>n_status := StatusQueued, n_last_error := err, n_updated_at := now\<rparr>) nid"

definition MarkScheduledPending :: "time \<Rightarrow> uuid \<Rightarrow> notification stmt" where
  "MarkScheduledPending now =
     update_notification (\<lambda>r. n_status r = StatusScheduled)
       (\<lambda>r. r\<lparr>n_status := StatusPending, n_updated_at := now\<rparr>)"

text \<open>The admin replay issues this statement without a generated query.\<close>

definition ResetNotification :: "time \<Rightarrow> uuid \<Rightarrow> unit stmt" where
  "ResetNotification now =
     update_notification_exec (\<lambda>r. True)
       (\<lambda>r. r\<lparr>n_status := StatusPending, n_attempt_count := 0, n_last_error := None,
              n_sent_at := None, n_updated_at := now\<rparr>)"

definition sweep_suffix :: string where
  "sweep_suffix = '' [sweep: stuck in sending]''"

definition sweep_row :: "time \<Rightarrow> notification \<Rightarrow> notification" where
  "sweep_row now r =
     r\<lparr>n_status := StatusQueued, n_attempt_count := n_attempt_count r + 1,
       n_last_error := Some ((case n_last_error r of None \<Rightarrow> '''' | Some e \<Rightarrow> e) @ sweep_suffix),
       n_updated_at := now\<rparr>"

definition stuck_sending :: "time \<Rightarrow> int \<Rightarrow> notification \<Rightarrow> bool" where
  "stuck_sending now secs r \<longleftrightarrow>
     n_status r = StatusSending \<and> n_updated_at r < now - secs * second"

definition SweepStuckSending :: "time \<Rightarrow> int \<Rightarrow> notification list stmt" where
  "SweepStuckSending now secs d =
     (let hit = filter (stuck_sending now secs) (notifications d) in
      if list_all (\<lambda>r. notif_check (sweep_row now r)) hit
      then Inr (map (sweep_row now) hit,
                d\<lparr>notifications := upd (stuck_sending now secs) (sweep_row now) (notifications d)\<rparr>)
      else Inl (ErrConstraint ''notifications''))"

record insert_notification_params =
  p_id :: uuid
  p_batch_id :: "uuid option"
  p_channel :: string
  p_recipient :: string
  p_content :: string
  p_priority :: int
  p_status :: status
  p_idempotency_key :: "string option"
  p_scheduled_at :: "time option"
  p_correlation_id :: string
  p_template_id :: "uuid option"
  p_template_version :: "int option"
  p_created_by :: "uuid option"

definition new_notification :: "time \<Rightarrow> insert_notification_params \<Rightarrow> notification" where
  "new_notification now p =
     \<lparr>n_id = p_id p, n_batch_id = p_batch_id p, n_channel = p_channel p,
      n_recipient = p_recipient p, n_content = p_content p, n_priority = p_priority p,
      n_status = p_status p, n_idempotency_key = p_idempotency_key p, n_attempt_count = 0,
      n_last_error = None, n_scheduled_at = p_scheduled_at p, n_created_at = now,
      n_updated_at = now, n_sent_at = None, n_correlation_id = p_correlation_id p,
      n_template_id = p_template_id p, n_template_version = p_template_version p,
      n_created_by = p_created_by p\<rparr>"

text \<open>A NULL foreign key references nothing.\<close>

definition fk :: "('r \<Rightarrow> uuid) \<Rightarrow> 'r list \<Rightarrow> uuid option \<Rightarrow> bool" where
  "fk key rs v = (case v of None \<Rightarrow> True | Some k \<Rightarrow> sel key k rs \<noteq> None)"

definition idem_free :: "string option \<Rightarrow> notification list \<Rightarrow> bool" where
  "idem_free v rs = (case v of None \<Rightarrow> True | Some k \<Rightarrow> list_all (\<lambda>r. n_idempotency_key r \<noteq> Some k) rs)"

definition InsertNotification :: "time \<Rightarrow> insert_notification_params \<Rightarrow> notification stmt" where
  "InsertNotification now p d =
     (let r = new_notification now p in
      if \<not> notif_check r then Inl (ErrConstraint ''notifications'')
      else if sel n_id (p_id p) (notifications d) \<noteq> None then Inl (ErrConstraint ''notifications_pkey'')
      else if \<not> idem_free (p_idempotency_key p) (notifications d)
           then Inl (ErrConstraint ''notifications_idempotency_key_uniq'')
      else if \<not> (fk b_id (batches d) (p_batch_id p) \<and> fk t_id (templates d) (p_template_id p) \<and>
                 fk k_id (api_keys d) (p_created_by p))
           then Inl (ErrConstraint ''notifications_fkey'')
      else Inr (r, d\<lparr>notifications := notifications d @ [r]\<rparr>))"

subsection \<open>Statements on the outbox\<close>

definition InsertOutbox ::
  "time \<Rightarrow> uuid \<Rightarrow> uuid \<Rightarrow> string \<Rightarrow> json \<Rightarrow> json \<Rightarrow> int \<Rightarrow> outbox_row stmt" where
  "InsertOutbox now oid nid rk payload headers prio d =
     (let r = \<lparr>o_id = oid, o_notification_id = nid, o_routing_key = rk, o_payload = payload,
               o_headers = headers, o_priority = prio, o_created_at = now, o_claimed_at = None,
               o_claimed_by = None, o_published_at = None, o_attempt_count = 0,
               o_last_error = None\<rparr> in
      if \<not> outbox_check r then Inl (ErrConstraint ''outbox'')
      else if sel o_id oid (outbox d) \<noteq> None then Inl (ErrConstraint ''outbox_pkey'')
      else if sel n_id nid (notifications d) = None then Inl (ErrConstraint ''outbox_fkey'')
      else Inr (r, d\<lparr>outbox := outbox d @ [r]\<rparr>))"

text \<open>A row is claimable when unpublished and not held by a live claim of another dispatcher.\<close>

definition outbox_claimable :: "time \<Rightarrow> int \<Rightarrow> outbox_row \<Rightarrow> bool" where
  "outbox_claimable now ttl r \<longleftrightarrow>
     o_published_at r = None \<and>
     (case o_claimed_at r of None \<Rightarrow> True | Some t \<Rightarrow> t < now - ttl * second)"

definition outbox_claim_ids :: "time \<Rightarrow> int \<Rightarrow> int \<Rightarrow> uuid list \<Rightarrow> db \<Rightarrow> uuid list" where
  "outbox_claim_ids now ttl n locked d =
     map o_id (take (nat n) (sort_key o_created_at
       (filter (\<lambda>r. outbox_claimable now ttl r \<and> o_id r \<notin> set locked) (outbox d))))"

text \<open>
  \<open>FOR UPDATE SKIP LOCKED\<close>: \<open>locked\<close> lists the rows other transactions hold at this moment.
  The order of the returned rows is unspecified in SQL; here it is the table's.
\<close>

definition ClaimOutboxBatch ::
  "time \<Rightarrow> string \<Rightarrow> int \<Rightarrow> int \<Rightarrow> uuid list \<Rightarrow> outbox_row list stmt" where
  "ClaimOutboxBatch now claimer ttl n locked d =
     (let ids = outbox_claim_ids now ttl n locked d;
          rows = upd (\<lambda>r. o_id r \<in> set ids)
                     (\<lambda>r. r\<lparr>o_claimed_at := Some now, o_claimed_by := Some claimer\<rparr>) (outbox d)
      in Inr (filter (\<lambda>r. o_id r \<in> set ids) rows, d\<lparr>outbox := rows\<rparr>))"

definition DeletePublishedOutboxBefore :: "time \<Rightarrow> unit stmt" where
  "DeletePublishedOutboxBefore t d =
     Inr ((), d\<lparr>outbox := filter (\<lambda>r. case o_published_at r of None \<Rightarrow> True | Some p \<Rightarrow> \<not> p < t)
                                (outbox d)\<rparr>)"

definition MarkOutboxFailed :: "uuid \<Rightarrow> string \<Rightarrow> unit stmt" where
  "MarkOutboxFailed oid err d =
     (let f = (\<lambda>r. r\<lparr>o_attempt_count := o_attempt_count r + 1, o_last_error := Some err,
                     o_claimed_at := None, o_claimed_by := None\<rparr>) in
      if list_all (\<lambda>r. o_id r = oid \<longrightarrow> outbox_check (f r)) (outbox d)
      then Inr ((), d\<lparr>outbox := upd (\<lambda>r. o_id r = oid) f (outbox d)\<rparr>)
      else Inl (ErrConstraint ''outbox''))"

definition MarkOutboxPublished :: "time \<Rightarrow> uuid \<Rightarrow> unit stmt" where
  "MarkOutboxPublished now oid d =
     Inr ((), d\<lparr>outbox := upd (\<lambda>r. o_id r = oid) (\<lambda>r. r\<lparr>o_published_at := Some now\<rparr>) (outbox d)\<rparr>)"

subsection \<open>Statements on scheduled notifications\<close>

definition scheduled_claimable :: "time \<Rightarrow> int \<Rightarrow> scheduled_row \<Rightarrow> bool" where
  "scheduled_claimable now ttl r \<longleftrightarrow>
     s_due_at r \<le> now \<and>
     (case s_claimed_at r of None \<Rightarrow> True | Some t \<Rightarrow> t < now - ttl * second)"

definition scheduled_claim_ids :: "time \<Rightarrow> int \<Rightarrow> int \<Rightarrow> uuid list \<Rightarrow> db \<Rightarrow> uuid list" where
  "scheduled_claim_ids now ttl n locked d =
     map s_id (take (nat n) (sort_key s_due_at
       (filter (\<lambda>r. scheduled_claimable now ttl r \<and> s_id r \<notin> set locked)
               (scheduled_notifications d))))"

definition ClaimDueScheduled ::
  "time \<Rightarrow> string \<Rightarrow> int \<Rightarrow> int \<Rightarrow> uuid list \<Rightarrow> scheduled_row list stmt" where
  "ClaimDueScheduled now claimer ttl n locked d =
     (let ids = scheduled_claim_ids now ttl n locked d;
          rows = upd (\<lambda>r. s_id r \<in> set ids)
                     (\<lambda>r. r\<lparr>s_claimed_at := Some now, s_claimed_by := Some claimer\<rparr>)
                     (scheduled_notifications d)
      in Inr (filter (\<lambda>r. s_id r \<in> set ids) rows, d\<lparr>scheduled_notifications := rows\<rparr>))"

definition DeleteScheduled :: "uuid \<Rightarrow> unit stmt" where
  "DeleteScheduled nid d =
     Inr ((), d\<lparr>scheduled_notifications :=
                  filter (\<lambda>r. s_id r \<noteq> nid) (scheduled_notifications d)\<rparr>)"

definition InsertScheduled :: "uuid \<Rightarrow> time \<Rightarrow> scheduled_row stmt" where
  "InsertScheduled nid due d =
     (let r = \<lparr>s_id = nid, s_due_at = due, s_claimed_at = None, s_claimed_by = None\<rparr> in
      if sel s_id nid (scheduled_notifications d) \<noteq> None
      then Inl (ErrConstraint ''scheduled_notifications_pkey'')
      else if sel n_id nid (notifications d) = None
      then Inl (ErrConstraint ''scheduled_notifications_fkey'')
      else Inr (r, d\<lparr>scheduled_notifications := scheduled_notifications d @ [r]\<rparr>))"

subsection \<open>Statements on dead letters and delivery attempts\<close>

text \<open>Identifiers of \<open>bigserial\<close> columns: one past the largest in use.\<close>

definition next_serial :: "int list \<Rightarrow> int" where
  "next_serial ids = fold max ids 0 + 1"

definition InsertDeadLetter :: "time \<Rightarrow> uuid \<Rightarrow> string \<Rightarrow> json \<Rightarrow> dead_letter stmt" where
  "InsertDeadLetter now nid reason payload d =
     (let r = \<lparr>dl_id = next_serial (map dl_id (dead_letters d)), dl_notification_id = nid,
               dl_reason = reason, dl_payload = payload, dl_dlq_at = now\<rparr> in
      if \<not> dead_letter_check r then Inl (ErrConstraint ''dead_letters'')
      else if sel dl_notification_id nid (dead_letters d) \<noteq> None then Inl ErrNoRows
      else if sel n_id nid (notifications d) = None then Inl (ErrConstraint ''dead_letters_fkey'')
      else Inr (r, d\<lparr>dead_letters := dead_letters d @ [r]\<rparr>))"

definition DeleteDeadLetter :: "uuid \<Rightarrow> unit stmt" where
  "DeleteDeadLetter nid d =
     Inr ((), d\<lparr>dead_letters := filter (\<lambda>r. dl_notification_id r \<noteq> nid) (dead_letters d)\<rparr>)"

definition GetDeadLetterByNotification :: "uuid \<Rightarrow> dead_letter stmt" where
  "GetDeadLetterByNotification nid d =
     (case sel dl_notification_id nid (dead_letters d) of
        None \<Rightarrow> Inl ErrNoRows | Some r \<Rightarrow> Inr (r, d))"

definition ListDeadLetters :: "string \<Rightarrow> int \<Rightarrow> dead_letter list stmt" where
  "ListDeadLetters ch n d =
     Inr (take (nat n) (rev (sort_key dl_dlq_at
            (filter (\<lambda>r. ch = '''' \<or>
                       list_ex (\<lambda>m. n_id m = dl_notification_id r \<and> n_channel m = ch) (notifications d))
                    (dead_letters d)))), d)"

definition InsertDeliveryAttempt ::
  "uuid \<Rightarrow> int \<Rightarrow> time \<Rightarrow> time option \<Rightarrow> bool \<Rightarrow> string option \<Rightarrow> int option \<Rightarrow> string option \<Rightarrow>
   string option \<Rightarrow> delivery_attempt stmt" where
  "InsertDeliveryAttempt nid attempt started completed success msgid http err resp d =
     (let r = \<lparr>da_id = next_serial (map da_id (delivery_attempts d)), da_notification_id = nid,
               da_attempt_number = attempt, da_started_at = started, da_completed_at = completed,
               da_success = success, da_provider_message_id = msgid, da_http_status = http,
               da_error = err, da_response_body = resp\<rparr> in
      if \<not> attempt_check r then Inl (ErrConstraint ''delivery_attempts'')
      else if list_ex (\<lambda>a. da_notification_id a = nid \<and> da_attempt_number a = attempt) (delivery_attempts d)
           then Inl (ErrConstraint ''delivery_attempts_unique_per_notification'')
      else if sel n_id nid (notifications d) = None
           then Inl (ErrConstraint ''delivery_attempts_fkey'')
      else Inr (r, d\<lparr>delivery_attempts := delivery_attempts d @ [r]\<rparr>))"

definition GetDeliveryAttemptsByNotification :: "uuid \<Rightarrow> delivery_attempt list stmt" where
  "GetDeliveryAttemptsByNotification nid d =
     Inr (rev (sort_key da_attempt_number
           (filter (\<lambda>a. da_notification_id a = nid) (delivery_attempts d))), d)"

subsection \<open>Statements on batches\<close>

definition InsertBatch ::
  "time \<Rightarrow> uuid \<Rightarrow> int \<Rightarrow> int \<Rightarrow> int \<Rightarrow> string option \<Rightarrow> string \<Rightarrow> batch stmt" where
  "InsertBatch now bid tot acc rej idem st d =
     (let r = \<lparr>b_id = bid, b_total_count = tot, b_accepted_count = acc,
               b_rejected_count = rej, b_idempotency_key = idem, b_status = st,
               b_created_at = now, b_created_by = None\<rparr> in
      if \<not> batch_check r then Inl (ErrConstraint ''batches'')
      else if sel b_id bid (batches d) \<noteq> None then Inl (ErrConstraint ''batches_pkey'')
      else Inr (r, d\<lparr>batches := batches d @ [r]\<rparr>))"

definition GetBatchByID :: "uuid \<Rightarrow> batch stmt" where
  "GetBatchByID bid d = (case sel b_id bid (batches d) of None \<Rightarrow> Inl ErrNoRows | Some r \<Rightarrow> Inr (r, d))"

subsection \<open>The contract of a guarded update\<close>

text \<open>
  Every \<open>UPDATE notifications ... WHERE id = $1 AND ...\<close> of the program has the same contract:
  when it succeeds, exactly the rows with the given key that satisfy the guard are rewritten,
  the key is kept and the rewritten row satisfies the table's CHECK constraints. \<open>'p\<close> packs the
  statement's arguments.
\<close>

definition row_edge :: "('p \<Rightarrow> notification \<Rightarrow> bool) \<Rightarrow> ('p \<Rightarrow> notification \<Rightarrow> notification) \<Rightarrow> 'p \<Rightarrow>
    notification \<Rightarrow> notification \<Rightarrow> bool" where
  "row_edge g f p r r' \<longleftrightarrow> r' = r \<or> (g p r \<and> r' = f p r \<and> notif_check r')"

definition same_other_tables :: "db \<Rightarrow> db \<Rightarrow> bool" where
  "same_other_tables d d' \<longleftrightarrow> d' = d\<lparr>notifications := notifications d'\<rparr>"

lemma same_other_tablesD:
  assumes "same_other_tables d d'"
  shows "outbox d' = outbox d" "scheduled_notifications d' = scheduled_notifications d"
    "dead_letters d' = dead_letters d" "delivery_attempts d' = delivery_attempts d"
    "batches d' = batches d" "templates d' = templates d" "api_keys d' = api_keys d"
    "admin_audit d' = admin_audit d"
proof -
  obtain ns where d': "d' = d\<lparr>notifications := ns\<rparr>" using assms by (auto simp: same_other_tables_def)
  show "outbox d' = outbox d" "scheduled_notifications d' = scheduled_notifications d"
    "dead_letters d' = dead_letters d" "delivery_attempts d' = delivery_attempts d"
    "batches d' = batches d" "templates d' = templates d" "api_keys d' = api_keys d"
    "admin_audit d' = admin_audit d"
    unfolding d' by simp_all
qed

lemma same_other_tables_upd [simp]: "same_other_tables d (d\<lparr>notifications := ns\<rparr>)"
  by (simp add: same_other_tables_def)

locale guarded_update =
  fixes stmt :: "'p \<Rightarrow> 'a stmt"
    and target :: "'p \<Rightarrow> uuid"
    and guard :: "'p \<Rightarrow> notification \<Rightarrow> bool"
    and change :: "'p \<Rightarrow> notification \<Rightarrow> notification"
  assumes applied: "stmt p d = Inr (a, d') \<Longrightarrow>
            d' = d\<lparr>notifications :=
                   upd (\<lambda>r. n_id r = target p \<and> guard p r) (change p) (notifications d)\<rparr>"
    and checked: "\<lbrakk>stmt p d = Inr (a, d'); distinct (map n_id (notifications d));
            r \<in> set (notifications d); n_id r = target p; guard p r\<rbrakk> \<Longrightarrow> notif_check (change p r)"
    and key_kept: "n_id (change p r) = n_id r"
begin

lemma others: "stmt p d = Inr (a, d') \<Longrightarrow> same_other_tables d d'"
  by (drule applied) simp

lemma keys: "stmt p d = Inr (a, d') \<Longrightarrow> map n_id (notifications d') = map n_id (notifications d)"
  by (drule applied) (simp add: map_key_upd key_kept)

lemma checks_kept:
  assumes "stmt p d = Inr (a, d')" and "distinct (map n_id (notifications d))"
    and "list_all notif_check (notifications d)"
  shows "list_all notif_check (notifications d')"
proof -
  have "notif_check r'" if "r' \<in> set (notifications d')" for r'
  proof -
    have "r' \<in> set (upd (\<lambda>r. n_id r = target p \<and> guard p r) (change p) (notifications d))"
      using that applied[OF assms(1)] by simp
    then show ?thesis
      using assms checked[OF assms(1,2)] by (auto elim!: set_updE simp: list_all_iff)
  qed
  then show ?thesis by (simp add: list_all_iff)
qed

lemma lookup:
  assumes "stmt p d = Inr (a, d')"
  shows "sel n_id k (notifications d') =
         (case sel n_id k (notifications d) of
            None \<Rightarrow> None
          | Some r \<Rightarrow> Some (if k = target p \<and> guard p r then change p r else r))"
  unfolding applied[OF assms]
  by (auto simp: sel_upd key_kept split: option.split dest: sel_key)

lemma edge:
  assumes "stmt p d = Inr (a, d')" and "distinct (map n_id (notifications d))"
    and "sel n_id k (notifications d) = Some r"
  shows "\<exists>r'. sel n_id k (notifications d') = Some r' \<and> row_edge guard change p r r'"
  using assms lookup[OF assms(1), of k] checked[OF assms(1,2) sel_in_set[OF assms(3)]] sel_key[OF assms(3)]
  by (auto simp: row_edge_def)

end

lemma find_SomeD: "find P xs = Some x \<Longrightarrow> x \<in> set xs \<and> P x"
  by (induction xs) (auto split: if_splits)

lemma distinct_key_eq: "distinct (map key rs) \<Longrightarrow> r \<in> set rs \<Longrightarrow> r' \<in> set rs \<Longrightarrow> key r = key r' \<Longrightarrow> r = r'"
  by (induction rs) (auto simp: image_iff)

lemma update_notification_Inr:
  "update_notification g f nid d = Inr (a, d') \<Longrightarrow>
   (\<exists>r \<in> set (notifications d). n_id r = nid \<and> g r \<and> a = f r \<and> notif_check (f r)) \<and>
   d' = d\<lparr>notifications := upd (\<lambda>r. n_id r = nid \<and> g r) f (notifications d)\<rparr>"
  by (auto simp: update_notification_def split: option.splits if_splits dest!: find_SomeD)

lemma update_notification_NoRows:
  "update_notification g f nid d = Inl ErrNoRows \<longleftrightarrow>
   (\<forall>r \<in> set (notifications d). \<not> (n_id r = nid \<and> g r))"
  by (auto simp: update_notification_def find_None_iff split: option.splits dest: find_SomeD)

lemma update_notification_exec_Inr:
  assumes "update_notification_exec g f nid d = Inr (a, d')"
  shows "d' = d\<lparr>notifications := upd (\<lambda>r. n_id r = nid \<and> g r) f (notifications d)\<rparr> \<and>
    ((\<exists>r \<in> set (notifications d). n_id r = nid \<and> g r \<and> notif_check (f r)) \<or>
     (\<forall>r \<in> set (notifications d). \<not> (n_id r = nid \<and> g r)))"
proof (cases "update_notification g f nid d")
  case (Inl e)
  then have e: "e = ErrNoRows" and "d' = d"
    using assms by (cases e; simp add: update_notification_exec_def)+
  moreover have none: "\<forall>r \<in> set (notifications d). \<not> (n_id r = nid \<and> g r)"
    using Inl e update_notification_NoRows by simp
  ultimately show ?thesis by (simp add: upd_none)
next
  case (Inr z)
  then obtain r where "update_notification g f nid d = Inr (r, d')"
    using assms by (cases z) (auto simp: update_notification_exec_def)
  from update_notification_Inr[OF this] show ?thesis by auto
qed

lemma update_notification_contract:
  assumes "\<And>p r. n_id (change p r) = n_id r"
    and "\<And>p. stmt p = update_notification (guard p) (change p) (target p)"
  shows "guarded_update stmt target guard change"
proof
  fix p d a d' assume q: "stmt p d = Inr (a, d')"
  then show "d' = d\<lparr>notifications := upd (\<lambda>r. n_id r = target p \<and> guard p r) (change p) (notifications d)\<rparr>"
    using update_notification_Inr[of "guard p" "change p" "target p" d a d'] by (simp add: assms(2))
  fix r assume r: "distinct (map n_id (notifications d))" "r \<in> set (notifications d)" "n_id r = target p"
  obtain r0 where "r0 \<in> set (notifications d)" "n_id r0 = target p" "notif_check (change p r0)"
    using update_notification_Inr[OF q[unfolded assms(2)]] by blast
  then show "notif_check (change p r)"
    using distinct_key_eq[OF r(1,2), of r0] r(3) by simp
qed (rule assms(1))

lemma update_notification_exec_contract:
  assumes "\<And>p r. n_id (change p r) = n_id r"
    and "\<And>p. stmt p = update_notification_exec (guard p) (change p) (target p)"
  shows "guarded_update stmt target guard change"
proof
  fix p d a d' assume q: "stmt p d = Inr (a, d')"
  then show "d' = d\<lparr>notifications := upd (\<lambda>r. n_id r = target p \<and> guard p r) (change p) (notifications d)\<rparr>"
    using update_notification_exec_Inr[of "guard p" "change p" "target p" d a d'] by (simp add: assms(2))
  fix r assume r: "distinct (map n_id (notifications d))" "r \<in> set (notifications d)" "n_id r = target p"
    and "guard p r"
  then obtain r0 where "r0 \<in> set (notifications d)" "n_id r0 = target p" "notif_check (change p r0)"
    using update_notification_exec_Inr[OF q[unfolded assms(2)]] by blast
  then show "notif_check (change p r)"
    using distinct_key_eq[OF r(1,2), of r0] r(3) by simp
qed (rule assms(1))

interpretation cancel: guarded_update
  "\<lambda>(now, nid). CancelPendingOrQueued now nid" snd "\<lambda>_. cancellable"
  "\<lambda>(now, nid) r. r\<lparr>n_status := StatusCancelled, n_updated_at := now\<rparr>"
  by (rule update_notification_contract) (auto simp: CancelPendingOrQueued_def)

interpretation cancel_scoped: guarded_update
  "\<lambda>(now, nid, owner). CancelPendingOrQueuedScoped now nid owner" "\<lambda>(now, nid, owner). nid"
  "\<lambda>(now, nid, owner) r. n_created_by r = Some owner \<and> cancellable r"
  "\<lambda>(now, nid, owner) r. r\<lparr>n_status := StatusCancelled, n_updated_at := now\<rparr>"
  by (rule update_notification_contract) (auto simp: CancelPendingOrQueuedScoped_def)

interpretation increment: guarded_update
  "\<lambda>(now, nid). IncrementAttempt now nid" snd "\<lambda>_ _. True"
  "\<lambda>(now, nid) r. r\<lparr>n_attempt_count := n_attempt_count r + 1, n_updated_at := now\<rparr>"
  by (rule update_notification_exec_contract) (auto simp: IncrementAttempt_def)

interpretation dead_letter: guarded_update
  "\<lambda>(now, nid, err). MarkDeadLetter now nid err" "\<lambda>(now, nid, err). nid" "\<lambda>_ _. True"
  "\<lambda>(now, nid, err) r. r\<lparr>n_status := StatusDeadLetter, n_last_error := Some err, n_updated_at := now\<rparr>"
  by (rule update_notification_contract) (auto simp: MarkDeadLetter_def)

interpretation failed: guarded_update
  "\<lambda>(now, nid, err). MarkFailed now nid err" "\<lambda>(now, nid, err). nid" "\<lambda>_ r. n_status r = StatusSending"
  "\<lambda>(now, nid, err) r. r\<lparr>n_status := StatusFailed, n_last_error := Some err, n_updated_at := now\<rparr>"
  by (rule update_notification_contract) (auto simp: MarkFailed_def)

interpretation queued: guarded_update
  "\<lambda>(now, nid). MarkQueued now nid" snd "\<lambda>_ r. n_status r = StatusPending"
  "\<lambda>(now, nid) r. r\<lparr>n_status := StatusQueued, n_updated_at := now\<rparr>"
  by (rule update_notification_contract) (auto simp: MarkQueued_def)

interpretation sending: guarded_update
  "\<lambda>(now, nid). MarkSendingCAS now nid" snd
  "\<lambda>_ r. n_status r = StatusPending \<or> n_status r = StatusQueued"
  "\<lambda>(now, nid) r. r\<lparr>n_status := StatusSending, n_updated_at := now\<rparr>"
  by (rule update_notification_contract) (auto simp: MarkSendingCAS_def)

interpretation sent: guarded_update
  "\<lambda>(now, nid). MarkSent now nid" snd "\<lambda>_ r. n_status r = StatusSending"
  "\<lambda>(now, nid) r. r\<lparr>n_status := StatusSent, n_sent_at := Some now, n_updated_at := now\<rparr>"
  by (rule update_notification_contract) (auto simp: MarkSent_def)

interpretation revert: guarded_update
  "\<lambda>(now, nid, err). RevertToQueued now nid err" "\<lambda>(now, nid, err). nid"
  "\<lambda>_ r. n_status r = StatusSending"
  "\<lambda>(now, nid, err) r. r\<lparr>n_status := StatusQueued, n_attempt_count := n_attempt_count r + 1,
                          n_last_error := err, n_updated_at := now\<rparr>"
  by (rule update_notification_exec_contract) (auto simp: RevertToQueued_def)

interpretation revert_no_attempt: guarded_update
  "\<lambda>(now, nid, err). RevertToQueuedNoAttempt now nid err" "\<lambda>(now, nid, err). nid"
  "\<lambda>_ r. n_status r = StatusSending"
  "\<lambda>(now, nid, err) r. r\<lparr>n_status := StatusQueued, n_last_error := err, n_updated_at := now\<rparr>"
  by (rule update_notification_exec_contract) (auto simp: RevertToQueuedNoAttempt_def)

interpretation scheduled_pending: guarded_update
  "\<lambda>(now, nid). MarkScheduledPending now nid" snd "\<lambda>_ r. n_status r = StatusScheduled"
  "\<lambda>(now, nid) r. r\<lparr>n_status := StatusPending, n_updated_at := now\<rparr>"
  by (rule update_notification_contract) (auto simp: MarkScheduledPending_def)

interpretation reset: guarded_update
  "\<lambda>(now, nid). ResetNotification now nid" snd "\<lambda>_ _. True"
  "\<lambda>(now, nid) r. r\<lparr>n_status := StatusPending, n_attempt_count := 0, n_last_error := None,
                     n_sent_at := None, n_updated_at := now\<rparr>"
  by (rule update_notification_exec_contract) (auto simp: ResetNotification_def)

end
