(* ===== verification/Schema.thy ===== *)
theory Schema
  imports Store
begin

text \<open>
  The schema invariant: keys are unique, every row satisfies the CHECK constraints of its table
  and every foreign key points at an existing notification. Each statement of the store keeps
  it. The second half states what the two claim queries (\<open>FOR UPDATE SKIP LOCKED\<close>) promise.
\<close>

definition db_wf :: "db \<Rightarrow> bool" where
  "db_wf d \<longleftrightarrow>
     distinct (map n_id (notifications d)) \<and> list_all notif_check (notifications d) \<and>
     distinct (map o_id (outbox d)) \<and> list_all outbox_check (outbox d) \<and>
     list_all (\<lambda>r. o_notification_id r \<in> n_id ` set (notifications d)) (outbox d) \<and>
     distinct (map s_id (scheduled_notifications d)) \<and>
     list_all (\<lambda>r. s_id r \<in> n_id ` set (notifications d)) (scheduled_notifications d) \<and>
     distinct (map dl_notification_id (dead_letters d)) \<and> list_all dead_letter_check (dead_letters d) \<and>
     list_all (\<lambda>r. dl_notification_id r \<in> n_id ` set (notifications d)) (dead_letters d) \<and>
     distinct (map (\<lambda>a. (da_notification_id a, da_attempt_number a)) (delivery_attempts d)) \<and>
     list_all attempt_check (delivery_attempts d) \<and>
     list_all (\<lambda>a. da_notification_id a \<in> n_id ` set (notifications d)) (delivery_attempts d) \<and>
     distinct (map b_id (batches d)) \<and> list_all batch_check (batches d)"

text \<open>A statement keeps the invariant when it succeeds; when it fails it leaves the database alone.\<close>

definition keeps_wf :: "'a stmt \<Rightarrow> bool" where
  "keeps_wf q \<longleftrightarrow> (\<forall>d a d'. db_wf d \<longrightarrow> q d = Inr (a, d') \<longrightarrow> db_wf d')"

lemma keeps_wfI: "(\<And>d a d'. db_wf d \<Longrightarrow> q d = Inr (a, d') \<Longrightarrow> db_wf d') \<Longrightarrow> keeps_wf q"
  by (auto simp: keeps_wf_def)

lemma keeps_wfD: "keeps_wf q \<Longrightarrow> db_wf d \<Longrightarrow> q d = Inr (a, d') \<Longrightarrow> db_wf d'"
  by (auto simp: keeps_wf_def)

named_theorems wf_intros

text \<open>The same for any predicate on the database.\<close>

definition keeps :: "(db \<Rightarrow> bool) \<Rightarrow> 'a stmt \<Rightarrow> bool" where
  "keeps P q \<longleftrightarrow> (\<forall>d a d'. P d \<longrightarrow> q d = Inr (a, d') \<longrightarrow> P d')"

lemma keeps_wf_keeps: "keeps db_wf q \<longleftrightarrow> keeps_wf q"
  by (simp add: keeps_def keeps_wf_def)

lemma keepsD: "keeps P q \<Longrightarrow> P d \<Longrightarrow> q d = Inr (a, d') \<Longrightarrow> P d'"
  by (auto simp: keeps_def)

lemma keeps_run: "keeps P q \<Longrightarrow> P d \<Longrightarrow> P (snd (run_stmt f q d))"
  using run_stmt_cases[of f q d] by (auto simp: keeps_def)

lemma keeps_wf_run_stmt: "keeps_wf q \<Longrightarrow> db_wf d \<Longrightarrow> db_wf (snd (run_stmt f q d))"
  using run_stmt_cases[of f q d] keeps_wfD by metis

lemma keeps_wf_bind [wf_intros]:
  "keeps_wf q \<Longrightarrow> (\<And>a. keeps_wf (k a)) \<Longrightarrow> keeps_wf (bind_stmt q k)"
  by (rule keeps_wfI) (auto simp: bind_stmt_def split: sum.splits prod.splits dest: keeps_wfD)

lemma keeps_wf_guard [wf_intros]: "keeps_wf q \<Longrightarrow> keeps_wf (guard_stmt b q)"
  by (rule keeps_wfI) (auto simp: guard_stmt_def split: if_splits dest: keeps_wfD)

text \<open>A database that differs in the notifications only, with the same keys.\<close>

lemma db_wf_notifications:
  assumes "db_wf d" and "same_other_tables d d'"
    and "map n_id (notifications d') = map n_id (notifications d)"
    and "list_all notif_check (notifications d')"
  shows "db_wf d'"
proof -
  have "n_id ` set (notifications d') = n_id ` set (notifications d)"
    using assms(3) by (metis list.set_map)
  then show ?thesis
    using assms(1,3,4) same_other_tablesD[OF assms(2)] by (simp add: db_wf_def)
qed

context guarded_update
begin

lemma wf: "keeps_wf (stmt p)"
proof (rule keeps_wfI)
  fix d a d' assume "db_wf d" and q: "stmt p d = Inr (a, d')"
  then show "db_wf d'"
    using db_wf_notifications[OF _ others[OF q] keys[OF q]] checks_kept[OF q] by (simp add: db_wf_def)
qed

end

lemmas update_wf [wf_intros] =
  cancel.wf[of "(now, nid)", simplified] cancel_scoped.wf[of "(now, nid, owner)", simplified]
  increment.wf[of "(now, nid)", simplified]
  dead_letter.wf[of "(now, nid, err)", simplified] failed.wf[of "(now, nid, err)", simplified]
  queued.wf[of "(now, nid)", simplified] sending.wf[of "(now, nid)", simplified]
  sent.wf[of "(now, nid)", simplified] revert.wf[of "(now, nid, err)", simplified]
  revert_no_attempt.wf[of "(now, nid, err)", simplified]
  scheduled_pending.wf[of "(now, nid)", simplified] reset.wf[of "(now, nid)", simplified]
  for now nid owner err

lemma n_id_sweep_row [simp]: "n_id (sweep_row now r) = n_id r"
  by (simp add: sweep_row_def)

lemma SweepStuckSending_Inr:
  "SweepStuckSending now secs d = Inr (rows, d') \<Longrightarrow>
   rows = map (sweep_row now) (filter (stuck_sending now secs) (notifications d)) \<and>
   d' = d\<lparr>notifications := upd (stuck_sending now secs) (sweep_row now) (notifications d)\<rparr> \<and>
   (\<forall>r \<in> set (notifications d). stuck_sending now secs r \<longrightarrow> notif_check (sweep_row now r))"
  by (auto simp: SweepStuckSending_def Let_def list_all_iff split: if_splits)

lemma SweepStuckSending_wf [wf_intros]: "keeps_wf (SweepStuckSending now secs)"
proof (rule keeps_wfI)
  fix d rows d' assume wf: "db_wf d" and q: "SweepStuckSending now secs d = Inr (rows, d')"
  note s = SweepStuckSending_Inr[OF q]
  have "list_all notif_check (notifications d')"
    using wf s by (auto simp: db_wf_def list_all_iff elim!: set_updE)
  then show "db_wf d'"
    using db_wf_notifications[OF wf, of d'] s by (simp add: map_key_upd)
qed

lemma db_wf_mono_keys:
  "db_wf d \<Longrightarrow> n_id r \<notin> n_id ` set (notifications d) \<Longrightarrow> notif_check r \<Longrightarrow>
   db_wf (d\<lparr>notifications := notifications d @ [r]\<rparr>)"
  by (auto simp: db_wf_def list_all_iff)

lemma InsertNotification_wf [wf_intros]: "keeps_wf (InsertNotification now p)"
  by (rule keeps_wfI)
     (auto simp: InsertNotification_def Let_def sel_None_iff new_notification_def
           split: if_splits intro!: db_wf_mono_keys)

lemma GetNotification_wf [wf_intros]:
  "keeps_wf (GetNotificationByID nid)" "keeps_wf (GetNotificationByIDScoped nid owner)"
  by (auto simp: keeps_wf_def GetNotificationByID_def GetNotificationByIDScoped_def
           split: option.splits if_splits)

lemma InsertOutbox_wf [wf_intros]: "keeps_wf (InsertOutbox now oid nid rk payload hdr prio)"
  by (rule keeps_wfI)
     (auto simp: InsertOutbox_def Let_def sel_None_iff db_wf_def list_all_iff split: if_splits
           dest: sel_in_set sel_key)

lemma db_wf_outbox_upd:
  assumes "db_wf d" and "\<And>r. o_id (f r) = o_id r" "\<And>r. o_notification_id (f r) = o_notification_id r"
    and "\<And>r. r \<in> set (outbox d) \<Longrightarrow> P r \<Longrightarrow> outbox_check r \<Longrightarrow> outbox_check (f r)"
  shows "db_wf (d\<lparr>outbox := upd P f (outbox d)\<rparr>)"
  using assms by (auto simp: db_wf_def map_key_upd list_all_iff elim!: set_updE)

lemma ClaimOutboxBatch_wf [wf_intros]: "keeps_wf (ClaimOutboxBatch now c ttl n locked)"
  by (rule keeps_wfI)
     (auto simp: ClaimOutboxBatch_def Let_def outbox_check_def intro!: db_wf_outbox_upd)

lemma MarkOutboxFailed_wf [wf_intros]: "keeps_wf (MarkOutboxFailed oid err)"
  by (rule keeps_wfI)
     (auto simp: MarkOutboxFailed_def Let_def list_all_iff split: if_splits intro!: db_wf_outbox_upd)

lemma MarkOutboxPublished_wf [wf_intros]: "keeps_wf (MarkOutboxPublished now oid)"
  by (rule keeps_wfI)
     (auto simp: MarkOutboxPublished_def outbox_check_def intro!: db_wf_outbox_upd)

lemma distinct_map_filterI: "distinct (map f xs) \<Longrightarrow> distinct (map f (filter P xs))"
  by (induction xs) auto

lemma DeletePublishedOutboxBefore_wf [wf_intros]: "keeps_wf (DeletePublishedOutboxBefore t)"
  by (rule keeps_wfI)
     (auto simp: DeletePublishedOutboxBefore_def db_wf_def list_all_iff distinct_map_filterI)

lemma scheduled_wf [wf_intros]:
  "keeps_wf (ClaimDueScheduled now c ttl n locked)" "keeps_wf (DeleteScheduled nid)"
  "keeps_wf (InsertScheduled nid due)"
  by (auto simp: keeps_wf_def ClaimDueScheduled_def DeleteScheduled_def InsertScheduled_def Let_def
      db_wf_def list_all_iff map_key_upd distinct_map_filterI sel_None_iff
      split: if_splits elim!: set_updE dest: sel_in_set sel_key)

lemma dead_letters_wf [wf_intros]:
  "keeps_wf (InsertDeadLetter now nid reason payload)" "keeps_wf (DeleteDeadLetter nid)"
  by (auto simp: keeps_wf_def InsertDeadLetter_def DeleteDeadLetter_def Let_def
      db_wf_def list_all_iff distinct_map_filterI sel_None_iff
      split: if_splits dest: sel_in_set sel_key)

lemma InsertDeliveryAttempt_wf [wf_intros]:
  "keeps_wf (InsertDeliveryAttempt nid att st ct ok m h e b)"
  by (rule keeps_wfI)
     (auto simp: InsertDeliveryAttempt_def Let_def db_wf_def list_all_iff list_ex_iff sel_None_iff
      split: if_splits dest: sel_in_set sel_key)

lemma InsertBatch_wf [wf_intros]: "keeps_wf (InsertBatch now bid tot acc rej idem st)"
  by (rule keeps_wfI)
     (auto simp: InsertBatch_def Let_def db_wf_def list_all_iff sel_None_iff split: if_splits)

lemma empty_db_wf: "db_wf empty_db"
  by (simp add: db_wf_def empty_db_def)

subsection \<open>What a successful statement does to one row\<close>

definition row_of :: "uuid \<Rightarrow> db \<Rightarrow> notification option" where
  "row_of nid d = sel n_id nid (notifications d)"

text \<open>Between \<open>d\<close> and \<open>d'\<close> the row \<open>nid\<close> becomes \<open>r\<close> and nothing else changes.\<close>

definition row_set :: "db \<Rightarrow> uuid \<Rightarrow> notification \<Rightarrow> db \<Rightarrow> bool" where
  "row_set d nid r d' \<longleftrightarrow>
     row_of nid d' = Some r \<and> (\<forall>k. k \<noteq> nid \<longrightarrow> row_of k d' = row_of k d) \<and>
     same_other_tables d d' \<and> db_wf d'"

lemma row_setD:
  assumes "row_set d nid r d'"
  shows "row_of nid d' = Some r" "k \<noteq> nid \<Longrightarrow> row_of k d' = row_of k d" "same_other_tables d d'" "db_wf d'"
  using assms by (auto simp: row_set_def)

lemma row_of_check: "db_wf d \<Longrightarrow> row_of nid d = Some r \<Longrightarrow> notif_check r \<and> n_id r = nid"
  by (auto simp: db_wf_def row_of_def list_all_iff dest: sel_in_set sel_key)

lemma find_guard:
  assumes "distinct (map n_id ns)" "sel n_id nid ns = Some r"
  shows "find (\<lambda>r. n_id r = nid \<and> g r) ns = (if g r then Some r else None)"
  using assms
proof (induction ns)
  case (Cons a ns)
  show ?case
  proof (cases "n_id a = nid")
    case True
    then have "find (\<lambda>r. n_id r = nid \<and> g r) ns = None"
      using Cons.prems(1) by (auto simp: find_None_iff) (metis image_eqI)
    then show ?thesis using Cons True by simp
  qed (use Cons in auto)
qed simp

lemma update_row_set:
  assumes "db_wf d" "row_of nid d = Some r" "g r" "notif_check (f r)" "\<And>r. n_id (f r) = n_id r"
  shows "\<exists>d'. update_notification g f nid d = Inr (f r, d') \<and> row_set d nid (f r) d'"
proof -
  let ?d = "d\<lparr>notifications := upd (\<lambda>r. n_id r = nid \<and> g r) f (notifications d)\<rparr>"
  have dist: "distinct (map n_id (notifications d))" using assms(1) by (simp add: db_wf_def)
  have u: "update_notification g f nid d = Inr (f r, ?d)"
    using assms(2,3,4) find_guard[OF dist] by (simp add: update_notification_def row_of_def)
  have kw: "keeps_wf (update_notification g f nid)"
    using update_notification_contract[of "\<lambda>_. f" "\<lambda>_. update_notification g f nid" "\<lambda>_. g" "\<lambda>_. nid"]
      guarded_update.wf[of "\<lambda>_. update_notification g f nid" "\<lambda>_. nid" "\<lambda>_. g" "\<lambda>_. f"] assms(5) by simp
  have "db_wf ?d" by (rule keeps_wfD[OF kw assms(1) u])
  moreover have "row_of nid ?d = Some (f r)" "\<And>k. k \<noteq> nid \<Longrightarrow> row_of k ?d = row_of k d"
    using assms(2,3,5) by (auto simp: row_of_def sel_upd map_option_case dest: sel_key split: option.splits)
  ultimately show ?thesis using u by (auto simp: row_set_def)
qed

lemma update_exec_row_set:
  assumes "db_wf d" "row_of nid d = Some r" "g r" "notif_check (f r)" "\<And>r. n_id (f r) = n_id r"
  shows "\<exists>d'. update_notification_exec g f nid d = Inr ((), d') \<and> row_set d nid (f r) d'"
  using update_row_set[OF assms(1,2), of g f] assms(3-5) by (auto simp: update_notification_exec_def)

lemma check_status:
  assumes "notif_check r" "n_status r \<noteq> StatusSent" "s \<noteq> StatusSent"
  shows "notif_check (r\<lparr>n_status := s, n_updated_at := t\<rparr>)"
    and "notif_check (r\<lparr>n_status := s, n_last_error := e, n_updated_at := t\<rparr>)"
  using assms by (auto simp: notif_check_def)

lemma check_sent: "notif_check r \<Longrightarrow>
    notif_check (r\<lparr>n_status := StatusSent, n_sent_at := Some t, n_updated_at := t\<rparr>)"
  by (simp add: notif_check_def)

lemma check_attempt:
  assumes "notif_check r" "n_status r \<noteq> StatusSent" "n_attempt_count r < 2 ^ 31 - 1"
  shows "notif_check (r\<lparr>n_status := StatusQueued, n_attempt_count := n_attempt_count r + 1,
                       n_last_error := e, n_updated_at := t\<rparr>)"
  using assms by (auto simp: notif_check_def int4_def i32_range_def)

lemma MarkSendingCAS_ok:
  assumes "db_wf d" "row_of nid d = Some r" "n_status r = StatusPending \<or> n_status r = StatusQueued"
  shows "\<exists>d'. MarkSendingCAS now nid d = Inr (r\<lparr>n_status := StatusSending, n_updated_at := now\<rparr>, d') \<and>
              row_set d nid (r\<lparr>n_status := StatusSending, n_updated_at := now\<rparr>) d'"
  unfolding MarkSendingCAS_def using row_of_check[OF assms(1,2)] assms(3)
  by (intro update_row_set[OF assms(1,2)] check_status) auto

lemma MarkSent_ok:
  assumes "db_wf d" "row_of nid d = Some r" "n_status r = StatusSending"
  shows "\<exists>d'. MarkSent now nid d =
                Inr (r\<lparr>n_status := StatusSent, n_sent_at := Some now, n_updated_at := now\<rparr>, d') \<and>
              row_set d nid (r\<lparr>n_status := StatusSent, n_sent_at := Some now, n_updated_at := now\<rparr>) d'"
  unfolding MarkSent_def using row_of_check[OF assms(1,2)] assms(3)
  by (intro update_row_set[OF assms(1,2)] check_sent) auto

lemma MarkDeadLetter_ok:
  assumes "db_wf d" "row_of nid d = Some r" "n_status r \<noteq> StatusSent"
  shows "\<exists>d'. MarkDeadLetter now nid err d =
                Inr (r\<lparr>n_status := StatusDeadLetter, n_last_error := Some err, n_updated_at := now\<rparr>, d') \<and>
              row_set d nid (r\<lparr>n_status := StatusDeadLetter, n_last_error := Some err, n_updated_at := now\<rparr>) d'"
  unfolding MarkDeadLetter_def using row_of_check[OF assms(1,2)] assms(3)
  by (intro update_row_set[OF assms(1,2)] check_status) auto

lemma MarkQueued_ok:
  assumes "db_wf d" "row_of nid d = Some r" "n_status r = StatusPending"
  shows "\<exists>d'. MarkQueued now nid d = Inr (r\<lparr>n_status := StatusQueued, n_updated_at := now\<rparr>, d') \<and>
              row_set d nid (r\<lparr>n_status := StatusQueued, n_updated_at := now\<rparr>) d'"
  unfolding MarkQueued_def using row_of_check[OF assms(1,2)] assms(3)
  by (intro update_row_set[OF assms(1,2)] check_status) auto

lemma MarkScheduledPending_ok:
  assumes "db_wf d" "row_of nid d = Some r" "n_status r = StatusScheduled"
  shows "\<exists>d'. MarkScheduledPending now nid d = Inr (r\<lparr>n_status := StatusPending, n_updated_at := now\<rparr>, d') \<and>
              row_set d nid (r\<lparr>n_status := StatusPending, n_updated_at := now\<rparr>) d'"
  unfolding MarkScheduledPending_def using row_of_check[OF assms(1,2)] assms(3)
  by (intro update_row_set[OF assms(1,2)] check_status) auto

lemma RevertToQueued_ok:
  assumes "db_wf d" "row_of nid d = Some r" "n_status r = StatusSending" "n_attempt_count r < 2 ^ 31 - 1"
  shows "\<exists>d'. RevertToQueued now nid err d = Inr ((), d') \<and>
      row_set d nid (r\<lparr>n_status := StatusQueued, n_attempt_count := n_attempt_count r + 1,
                       n_last_error := err, n_updated_at := now\<rparr>) d'"
  unfolding RevertToQueued_def using row_of_check[OF assms(1,2)] assms(3,4)
  by (intro update_exec_row_set[OF assms(1,2)] check_attempt) auto

lemma RevertToQueuedNoAttempt_ok:
  assumes "db_wf d" "row_of nid d = Some r" "n_status r = StatusSending"
  shows "\<exists>d'. RevertToQueuedNoAttempt now nid err d = Inr ((), d') \<and>
      row_set d nid (r\<lparr>n_status := StatusQueued, n_last_error := err, n_updated_at := now\<rparr>) d'"
  unfolding RevertToQueuedNoAttempt_def using row_of_check[OF assms(1,2)] assms(3)
  by (intro update_exec_row_set[OF assms(1,2)] check_status) auto

lemma update_NoRows_row:
  assumes "db_wf d"
  shows "update_notification g f nid d = Inl ErrNoRows \<longleftrightarrow>
         (case row_of nid d of None \<Rightarrow> True | Some r \<Rightarrow> \<not> g r)"
  using assms update_notification_NoRows[of g f nid d]
  by (auto simp: db_wf_def row_of_def sel_None_iff split: option.splits dest: sel_in_set sel_key sel_distinct)

text \<open>Statements on other tables leave the notifications alone.\<close>

lemma row_of_other [simp]:
  "row_of nid (d\<lparr>outbox := x1\<rparr>) = row_of nid d" "row_of nid (d\<lparr>scheduled_notifications := x2\<rparr>) = row_of nid d"
  "row_of nid (d\<lparr>dead_letters := x3\<rparr>) = row_of nid d" "row_of nid (d\<lparr>delivery_attempts := x4\<rparr>) = row_of nid d"
  "row_of nid (d\<lparr>batches := x5\<rparr>) = row_of nid d" "row_of nid (d\<lparr>admin_audit := x6\<rparr>) = row_of nid d"
  by (simp_all add: row_of_def)

lemma InsertDeliveryAttempt_rows:
  "InsertDeliveryAttempt nid att st ct ok m h e b d = Inr (a, d') \<Longrightarrow> notifications d' = notifications d"
  by (auto simp: InsertDeliveryAttempt_def Let_def split: if_splits)

lemma InsertDeadLetter_rows:
  "InsertDeadLetter now nid reason payload d = Inr (a, d') \<Longrightarrow> notifications d' = notifications d"
  by (auto simp: InsertDeadLetter_def Let_def split: if_splits)

end
