(* ===== verification/Claim.thy ===== *)
theory Claim
  imports Schema
begin

text \<open>
  The contract the outbox dispatcher and the scheduler share: a claim query takes, oldest first
  and up to a limit, the rows that are claimable and not locked by another transaction, stamps
  them with the claimer and the instant, and returns them. The locale states it once; it is
  interpreted on \<open>ClaimOutboxBatch\<close> and on \<open>ClaimDueScheduled\<close>.
\<close>

definition claim_ids ::
  "('r \<Rightarrow> uuid) \<Rightarrow> ('r \<Rightarrow> time) \<Rightarrow> ('r \<Rightarrow> bool) \<Rightarrow> int \<Rightarrow> uuid list \<Rightarrow> 'r list \<Rightarrow> uuid list" where
  "claim_ids key age P n locked rs =
     map key (take (nat n) (sort_key age (filter (\<lambda>r. P r \<and> key r \<notin> set locked) rs)))"

lemma set_claim_ids: "k \<in> set (claim_ids key age P n locked rs) \<Longrightarrow>
    \<exists>r \<in> set rs. key r = k \<and> P r \<and> k \<notin> set locked"
  by (auto simp: claim_ids_def dest!: in_set_takeD)

lemma distinct_claim_ids:
  assumes "distinct (map key rs)"
  shows "distinct (claim_ids key age P n locked rs)"
proof -
  let ?xs = "filter (\<lambda>r. P r \<and> key r \<notin> set locked) rs"
  have "distinct (map key ?xs)" using assms by (rule distinct_map_filterI)
  then have "distinct (map key (sort_key age ?xs))"
    by (simp add: distinct_map)
  then show ?thesis by (simp add: claim_ids_def take_map[symmetric] distinct_take)
qed

lemma length_claim_ids: "length (claim_ids key age P n locked rs) \<le> nat n"
  by (simp add: claim_ids_def)

lemma sorted_take_drop:
  "sorted (map age xs) \<Longrightarrow> x \<in> set (take n xs) \<Longrightarrow> y \<in> set (drop n xs) \<Longrightarrow> age x \<le> age y"
proof -
  assume s: "sorted (map age xs)" and x: "x \<in> set (take n xs)" and y: "y \<in> set (drop n xs)"
  have "sorted (map age (take n xs) @ map age (drop n xs))"
    using s by (metis append_take_drop_id map_append)
  then show ?thesis using x y by (auto simp: sorted_append)
qed

text \<open>A candidate left behind is no older than any candidate taken, and the batch is then full.\<close>

lemma claim_ids_oldest:
  assumes "r \<in> set rs" "P r" "key r \<notin> set locked" "key r \<notin> set (claim_ids key age P n locked rs)"
    and "k \<in> set (claim_ids key age P n locked rs)"
  shows "length (claim_ids key age P n locked rs) = nat n \<and>
         (\<exists>r' \<in> set rs. key r' = k \<and> P r' \<and> age r' \<le> age r)"
proof -
  let ?xs = "sort_key age (filter (\<lambda>r. P r \<and> key r \<notin> set locked) rs)"
  have r: "r \<in> set ?xs" using assms by simp
  have "r \<notin> set (take (nat n) ?xs)" using assms(4) by (auto simp: claim_ids_def)
  then have rd: "r \<in> set (drop (nat n) ?xs)"
    using r by (metis Un_iff append_take_drop_id set_append)
  then have "length ?xs > nat n" by (cases "length ?xs \<le> nat n") auto
  moreover obtain r' where r': "r' \<in> set (take (nat n) ?xs)" "key r' = k"
    using assms(5) by (auto simp: claim_ids_def)
  moreover have "age r' \<le> age r" using sorted_take_drop[OF sorted_sort_key r'(1) rd] .
  moreover have "r' \<in> set ?xs" using r'(1) by (rule in_set_takeD)
  ultimately show ?thesis by (auto simp: claim_ids_def)
qed

locale claim_query =
  fixes rows :: "db \<Rightarrow> 'r list"
    and key :: "'r \<Rightarrow> uuid"
    and age :: "'r \<Rightarrow> time"
    and claimable :: "time \<Rightarrow> int \<Rightarrow> 'r \<Rightarrow> bool"
    and mark :: "time \<Rightarrow> string \<Rightarrow> 'r \<Rightarrow> 'r"
    and claim :: "time \<Rightarrow> string \<Rightarrow> int \<Rightarrow> int \<Rightarrow> uuid list \<Rightarrow> 'r list stmt"
  assumes result: "claim now c ttl n locked d = Inr (out, d') \<Longrightarrow>
            rows d' = upd (\<lambda>r. key r \<in> set (claim_ids key age (claimable now ttl) n locked (rows d)))
                          (mark now c) (rows d) \<and>
            out = filter (\<lambda>r. key r \<in> set (claim_ids key age (claimable now ttl) n locked (rows d))) (rows d')"
    and mark_key: "key (mark now c r) = key r"
    and mark_holds: "now' \<le> now + ttl * second \<Longrightarrow> \<not> claimable now' ttl (mark now c r)"
begin

lemma keys: "claim now c ttl n locked d = Inr (out, d') \<Longrightarrow> map key (rows d') = map key (rows d)"
  by (drule result) (simp add: map_key_upd mark_key)

lemma returned:
  assumes "claim now c ttl n locked d = Inr (out, d')" and "distinct (map key (rows d))" and "r' \<in> set out"
  shows "\<exists>r \<in> set (rows d). claimable now ttl r \<and> key r \<notin> set locked \<and> r' = mark now c r"
proof -
  let ?ids = "claim_ids key age (claimable now ttl) n locked (rows d)"
  obtain r where r: "r \<in> set (rows d)" "r' = (if key r \<in> set ?ids then mark now c r else r)" and "key r' \<in> set ?ids"
    using assms(1,3) result[OF assms(1)] by (auto elim!: set_updE)
  then have ids: "key r \<in> set ?ids" by (auto simp: mark_key split: if_splits)
  obtain r0 where r0: "r0 \<in> set (rows d)" "key r0 = key r" "claimable now ttl r0" "key r \<notin> set locked"
    using set_claim_ids[OF ids] by auto
  have "r0 = r" using distinct_key_eq[OF assms(2) r0(1) r(1) r0(2)] .
  then show ?thesis using r r0 ids by auto
qed

lemma bounded:
  assumes "claim now c ttl n locked d = Inr (out, d')" and "distinct (map key (rows d))"
  shows "length out \<le> nat n"
proof -
  let ?ids = "claim_ids key age (claimable now ttl) n locked (rows d)"
  have dist: "distinct (map key out)"
    using result[OF assms(1)] keys[OF assms(1)] assms(2) by (simp add: distinct_map_filterI)
  have sub: "set (map key out) \<subseteq> set ?ids" using result[OF assms(1)] by auto
  have "length out \<le> card (set ?ids)"
    using card_mono[OF finite_set sub] distinct_card[OF dist] by (simp del: set_map)
  then show ?thesis
    using card_length[of ?ids] length_claim_ids[of key age "claimable now ttl" n locked "rows d"] by linarith
qed

lemma oldest_first:
  assumes "claim now c ttl n locked d = Inr (out, d')"
    and "r \<in> set (rows d)" "claimable now ttl r" "key r \<notin> set locked" "key r \<notin> key ` set out"
    and "r' \<in> set out" and "distinct (map key (rows d))"
  shows "\<exists>r0 \<in> set (rows d). key r0 = key r' \<and> age r0 \<le> age r"
proof -
  let ?ids = "claim_ids key age (claimable now ttl) n locked (rows d)"
  have "key r \<notin> set ?ids"
  proof
    assume i: "key r \<in> set ?ids"
    then have "mark now c r \<in> set (rows d')"
      using result[OF assms(1)] assms(2) by (force simp: upd_def)
    then have "mark now c r \<in> set out" using i result[OF assms(1)] by (simp add: mark_key)
    then have "key (mark now c r) \<in> key ` set out" by (rule imageI)
    then show False using assms(5) by (simp add: mark_key)
  qed
  moreover have "key r' \<in> set ?ids" using assms(6) result[OF assms(1)] by simp
  ultimately show ?thesis using claim_ids_oldest[of r "rows d" "claimable now ttl" key locked age n] assms(2-4) by blast
qed

text \<open>While a claim is alive no later claim returns its rows.\<close>

lemma exclusive:
  assumes "claim now c ttl n locked d = Inr (out, d')" and "distinct (map key (rows d))"
    and "claim now' c' ttl n' locked' d' = Inr (out', d'')" and "now' \<le> now + ttl * second"
  shows "key ` set out \<inter> key ` set out' = {}"
proof (rule ccontr)
  assume "\<not> ?thesis"
  then obtain a b where ab: "a \<in> set out" "b \<in> set out'" "key a = key b" by auto
  have dd: "distinct (map key (rows d'))" using keys[OF assms(1)] assms(2) by simp
  obtain r where r: "r \<in> set (rows d')" "claimable now' ttl r" "b = mark now' c' r"
    using returned[OF assms(3) dd ab(2)] by auto
  have "a \<in> set (rows d')" using ab(1) result[OF assms(1)] by simp
  then have "r = a" using distinct_key_eq[OF dd r(1)] ab(3) r(3) mark_key by simp
  moreover obtain r0 where "a = mark now c r0" using returned[OF assms(1,2) ab(1)] by auto
  ultimately show False using r(2) mark_holds[OF assms(4)] by simp
qed

end

interpretation outbox_claim: claim_query
  outbox o_id o_created_at outbox_claimable
  "\<lambda>now c r. r\<lparr>o_claimed_at := Some now, o_claimed_by := Some c\<rparr>" ClaimOutboxBatch
  by unfold_locales
     (auto simp: ClaimOutboxBatch_def Let_def outbox_claim_ids_def claim_ids_def outbox_claimable_def)

interpretation scheduled_claim: claim_query
  scheduled_notifications s_id s_due_at scheduled_claimable
  "\<lambda>now c r. r\<lparr>s_claimed_at := Some now, s_claimed_by := Some c\<rparr>" ClaimDueScheduled
  by unfold_locales
     (auto simp: ClaimDueScheduled_def Let_def scheduled_claim_ids_def claim_ids_def scheduled_claimable_def)

end
