(* ===== verification/Queue.thy ===== *)
theory Queue
  imports Envelope
begin

text \<open>
  The RabbitMQ adapters of \<open>internal/queue\<close>: the declared topology, the confirming publisher
  (channel pool, publish, reconnect loop), the consumer's acknowledgement policy and the URL
  redaction. The broker is not modelled: what it answers to a call is an argument, and what it
  has accepted is recorded as the list of accepted messages.
\<close>

subsection \<open>Names (topology.go)\<close>

definition ExchangeMain :: string where "ExchangeMain = ''notifications.exchange''"
definition ExchangeDLX :: string where "ExchangeDLX = ''notifications.dlx''"

definition QueueSMS :: string where "QueueSMS = ''notifications.sms''"
definition QueueEmail :: string where "QueueEmail = ''notifications.email''"
definition QueuePush :: string where "QueuePush = ''notifications.push''"
definition QueueSMSDLQ :: string where "QueueSMSDLQ = ''notifications.sms.dlq''"
definition QueueEmailDLQ :: string where "QueueEmailDLQ = ''notifications.email.dlq''"
definition QueuePushDLQ :: string where "QueuePushDLQ = ''notifications.push.dlq''"

definition maxPriority :: int where "maxPriority = 10"

definition Channels :: "string list" where "Channels = [''sms'', ''email'', ''push'']"

definition RoutingKey :: "string \<Rightarrow> string" where
  "RoutingKey ch = ''notification.'' @ ch"

definition WaitQueue :: "string \<Rightarrow> string \<Rightarrow> string" where
  "WaitQueue ch tier = ''notifications.'' @ ch @ ''.wait.'' @ tier"

definition WaitTierForAttempt :: "int \<Rightarrow> string" where
  "WaitTierForAttempt attempt =
     (if attempt \<le> 1 then ''5s'' else if attempt = 2 then ''30s'' else ''5m'')"

definition WaitQueueForAttempt :: "string \<Rightarrow> int \<Rightarrow> string" where
  "WaitQueueForAttempt ch attempt = WaitQueue ch (WaitTierForAttempt attempt)"

definition WaitRoutingKey :: "string \<Rightarrow> string \<Rightarrow> string" where
  "WaitRoutingKey ch tier = RoutingKey ch @ ''.wait.'' @ tier"

lemmas queue_names = ExchangeMain_def ExchangeDLX_def QueueSMS_def QueueEmail_def QueuePush_def
  QueueSMSDLQ_def QueueEmailDLQ_def QueuePushDLQ_def RoutingKey_def WaitQueue_def WaitRoutingKey_def

subsection \<open>Declarations\<close>

record queue_args =
  qa_max_priority :: "int option"
  qa_message_ttl :: "int option"
  qa_dlx :: "string option"
  qa_dl_routing_key :: "string option"

definition no_args :: queue_args where
  "no_args = \<lparr>qa_max_priority = None, qa_message_ttl = None, qa_dlx = None, qa_dl_routing_key = None\<rparr>"

datatype decl =
    ExchangeDeclare string string
  | QueueDeclare string queue_args
  | QueueBind string string string

text \<open>The table \<open>channels\<close> of \<open>DeclareTopology\<close>: channel, main queue, dead-letter queue.\<close>

definition channel_queues :: "string \<Rightarrow> (string \<times> string) option" where
  "channel_queues = [''sms'' \<mapsto> (QueueSMS, QueueSMSDLQ), ''email'' \<mapsto> (QueueEmail, QueueEmailDLQ),
                     ''push'' \<mapsto> (QueuePush, QueuePushDLQ)]"

definition tiers :: "(string \<times> int) list" where
  "tiers = [(''5s'', 5000), (''30s'', 30000), (''5m'', 5 * 60 * 1000)]"

definition channel_decls :: "string \<Rightarrow> decl list" where
  "channel_decls ch =
     (case channel_queues ch of
        None \<Rightarrow> []
      | Some (main, dlq) \<Rightarrow>
          [QueueDeclare main \<lparr>qa_max_priority = Some maxPriority, qa_message_ttl = None,
                              qa_dlx = Some ExchangeDLX, qa_dl_routing_key = Some (ch @ ''.dead'')\<rparr>,
           QueueBind main (RoutingKey ch) ExchangeMain,
           QueueDeclare dlq no_args,
           QueueBind dlq (ch @ ''.dead'') ExchangeDLX])"

definition wait_decls :: "string \<Rightarrow> string \<times> int \<Rightarrow> decl list" where
  "wait_decls ch t =
     [QueueDeclare (WaitQueue ch (fst t))
        \<lparr>qa_max_priority = None, qa_message_ttl = Some (snd t), qa_dlx = Some ExchangeMain,
         qa_dl_routing_key = Some (RoutingKey ch)\<rparr>,
      QueueBind (WaitQueue ch (fst t)) (RoutingKey ch @ ''.wait.'' @ fst t) ExchangeMain]"

text \<open>
  The calls in the order they are made. Go iterates a map in an arbitrary order: \<open>o1\<close> and
  \<open>o2\<close> are the orders of the two loops over \<open>channels\<close>.
\<close>

definition topology :: "string list \<Rightarrow> string list \<Rightarrow> decl list" where
  "topology o1 o2 =
     ExchangeDeclare ExchangeMain ''topic'' # ExchangeDeclare ExchangeDLX ''direct'' #
     concat (map channel_decls o1) @
     concat (map (\<lambda>ch. concat (map (wait_decls ch) tiers)) o2)"

text \<open>The first call the broker refuses ends the declaration with an error.\<close>

fun declare_all :: "(decl \<Rightarrow> bool) \<Rightarrow> decl list \<Rightarrow> decl list \<times> bool" where
  "declare_all accepts [] = ([], True)"
| "declare_all accepts (x # xs) =
     (if accepts x then (let (done, ok) = declare_all accepts xs in (x # done, ok)) else ([], False))"

definition DeclareTopology ::
  "(decl \<Rightarrow> bool) \<Rightarrow> string list \<Rightarrow> string list \<Rightarrow> decl list \<times> bool" where
  "DeclareTopology accepts o1 o2 = declare_all accepts (topology o1 o2)"

text \<open>What the declarations say: the queues bound to a key and the arguments of a queue.\<close>

definition bound_queues :: "decl list \<Rightarrow> string \<Rightarrow> string \<Rightarrow> string set" where
  "bound_queues ds ex key =
     set (concat (map (\<lambda>x. case x of QueueBind q k e \<Rightarrow> if k = key \<and> e = ex then [q] else [] | _ \<Rightarrow> []) ds))"

definition args_of :: "decl list \<Rightarrow> string \<Rightarrow> queue_args set" where
  "args_of ds q =
     set (concat (map (\<lambda>x. case x of QueueDeclare n a \<Rightarrow> if n = q then [a] else [] | _ \<Rightarrow> []) ds))"

lemma bound_queues_alt: "bound_queues ds ex key = {q. QueueBind q key ex \<in> set ds}"
  by (fastforce simp: bound_queues_def split: decl.splits if_splits)

lemma args_of_alt: "args_of ds q = {a. QueueDeclare q a \<in> set ds}"
  by (fastforce simp: args_of_def split: decl.splits if_splits)

lemma declare_all_ok: "declare_all accepts ds = (xs, True) \<Longrightarrow> xs = ds \<and> list_all accepts ds"
  by (induction ds arbitrary: xs) (auto split: if_splits prod.splits)

lemma declare_all_accepts: "list_all accepts ds \<Longrightarrow> declare_all accepts ds = (ds, True)"
  by (induction ds) auto

lemma set_topology:
  assumes "set o1 = set Channels" "set o2 = set Channels"
  shows "set (topology o1 o2) = set (topology Channels Channels)"
  using assms by (simp add: topology_def)

lemma Channel_Valid_Channels: "Channel_Valid ch \<longleftrightarrow> ch \<in> set Channels"
  by (auto simp: Channel_Valid_def Channels_def)

subsection \<open>Messages\<close>

datatype hval = HInt32 int | HStr string | HJson json

type_synonym headers = "(string \<times> hval) list"

record message =
  m_exchange :: string
  m_routing_key :: string
  m_body :: body
  m_headers :: headers
  m_priority :: int

record publish_message =
  pm_routing_key :: string
  pm_payload :: body
  pm_headers :: headers
  pm_priority :: int

subsection \<open>Publisher (publisher.go)\<close>

text \<open>The pool of confirm-enabled channels; channels are opaque, numbered by \<open>nat\<close>.\<close>

record publisher =
  pub_chans :: "nat list"
  pub_round_robin :: "64 word"
  pub_conn_open :: bool
  pub_stopped :: bool

definition DefaultChannelPoolSize :: nat where "DefaultChannelPoolSize = 8"

definition pickChannel :: "publisher \<Rightarrow> nat option \<times> publisher" where
  "pickChannel p =
     (if pub_chans p = [] then (None, p)
      else let n = pub_round_robin p + 1;
               idx = n mod of_nat (length (pub_chans p))
           in (Some (pub_chans p ! unat idx), p\<lparr>pub_round_robin := n\<rparr>))"

text \<open>
  What the broker does with one publish: the write fails, the confirmation does not arrive
  (the flag says whether the broker took the message), it is nacked, or it is acked.
\<close>

datatype amqp_out = PublishErr string | ConfirmErr string bool | Nacked | Acked

definition publish ::
  "publisher \<Rightarrow> amqp_out \<Rightarrow> string \<Rightarrow> string \<Rightarrow> publish_message \<Rightarrow>
   string option \<times> publisher \<times> message list" where
  "publish p out ex rk m =
     (case pickChannel p of
        (None, p') \<Rightarrow> (Some ''publisher: no channel (reconnecting?)'', p', [])
      | (Some c, p') \<Rightarrow>
          (let msg = \<lparr>m_exchange = ex, m_routing_key = rk, m_body = pm_payload m,
                      m_headers = pm_headers m, m_priority = pm_priority m\<rparr> in
           case out of
             PublishErr e \<Rightarrow> (Some (''publish: '' @ e), p', [])
           | ConfirmErr e taken \<Rightarrow> (Some (''confirm wait: '' @ e), p', if taken then [msg] else [])
           | Nacked \<Rightarrow> (Some ''publish: nacked by broker'', p', [])
           | Acked \<Rightarrow> (None, p', [msg])))"

definition Publish ::
  "publisher \<Rightarrow> amqp_out \<Rightarrow> publish_message \<Rightarrow> string option \<times> publisher \<times> message list" where
  "Publish p out m = publish p out ExchangeMain (pm_routing_key m) m"

definition PublishToWait ::
  "publisher \<Rightarrow> amqp_out \<Rightarrow> string \<Rightarrow> string \<Rightarrow> publish_message \<Rightarrow>
   string option \<times> publisher \<times> message list" where
  "PublishToWait p out ch tier m = publish p out ExchangeMain (WaitRoutingKey ch tier) m"

definition Ping :: "publisher \<Rightarrow> string option" where
  "Ping p = (if \<not> pub_conn_open p then Some ''amqp connection closed''
             else if pub_chans p = [] then Some ''amqp channels empty''
             else None)"

definition Close :: "publisher \<Rightarrow> publisher" where
  "Close p = (if pub_stopped p then p
              else p\<lparr>pub_stopped := True, pub_chans := [], pub_conn_open := False\<rparr>)"

text \<open>
  \<open>watchClose\<close> after the connection is lost: one event per turn of its loop. The result is the
  list of pauses and the publisher, redialled or not.
\<close>

datatype reconnect_ev = EvStopped | EvCtxDone | EvDialFails | EvDialOk "nat list"

definition next_backoff :: "int \<Rightarrow> int" where
  "next_backoff b = (if b < 30 * second then b * 2 else b)"

fun reconnect_loop :: "int \<Rightarrow> reconnect_ev list \<Rightarrow> publisher \<Rightarrow> int list \<times> publisher" where
  "reconnect_loop b [] p = ([], p)"
| "reconnect_loop b (EvStopped # evs) p = ([], p)"
| "reconnect_loop b (EvCtxDone # evs) p = ([], p)"
| "reconnect_loop b (EvDialOk cs # evs) p = ([], p\<lparr>pub_chans := cs, pub_conn_open := True\<rparr>)"
| "reconnect_loop b (EvDialFails # evs) p =
     (let (ws, p') = reconnect_loop (next_backoff b) evs p in (b # ws, p'))"

definition watchClose :: "reconnect_ev list \<Rightarrow> publisher \<Rightarrow> int list \<times> publisher" where
  "watchClose evs p = reconnect_loop second evs p"

text \<open>\<open>redactURL\<close>: the scan keeps the last scheme end seen and stops at the first at-sign.\<close>

fun redact_scan :: "string \<Rightarrow> nat \<Rightarrow> int \<Rightarrow> int \<times> int" where
  "redact_scan [] i sch = (-1, sch)"
| "redact_scan (c # rest) i sch =
     (let sch' = (if c = CHR '':'' \<and> take 2 rest = ''//'' then int i + 3 else sch) in
      if c = CHR ''@'' then (int i, sch') else redact_scan rest (i + 1) sch')"

definition redactURL :: "string \<Rightarrow> string" where
  "redactURL u =
     (let (a, sch) = redact_scan u 0 (-1) in
      if sch < 0 \<or> a < 0 \<or> a \<le> sch then u
      else take (nat sch) u @ ''***'' @ drop (nat a) u)"

subsection \<open>Consumer (consumer.go)\<close>

text \<open>What a handler returns: nil, an error wrapping \<open>ErrTerminal\<close>, or another error.\<close>

datatype hres = HNil | HTerminal | HErr

datatype disposition = Ack | NackDLQ | NackRequeue

definition disposition_of :: "hres \<Rightarrow> disposition" where
  "disposition_of r = (case r of HNil \<Rightarrow> Ack | HTerminal \<Rightarrow> NackDLQ | HErr \<Rightarrow> NackRequeue)"

datatype 'm consume_ev = CCtxDone | CClosed | CDelivery 'm

fun Consumer_Run ::
  "('m \<Rightarrow> 's \<Rightarrow> hres \<times> 's) \<Rightarrow> 'm consume_ev list \<Rightarrow> 's \<Rightarrow>
   (disposition \<times> 'm) list \<times> string option \<times> 's" where
  "Consumer_Run h [] st = ([], None, st)"
| "Consumer_Run h (CCtxDone # evs) st = ([], None, st)"
| "Consumer_Run h (CClosed # evs) st = ([], Some ''delivery channel closed'', st)"
| "Consumer_Run h (CDelivery m # evs) st =
     (let (r, st') = h m st; (ds, e, st'') = Consumer_Run h evs st'
      in ((disposition_of r, m) # ds, e, st''))"

subsection \<open>Lemmas\<close>

lemma publish_None:
  "publish p out ex rk m = (None, p', ms) \<Longrightarrow>
   out = Acked \<and> ms = [\<lparr>m_exchange = ex, m_routing_key = rk, m_body = pm_payload m,
                        m_headers = pm_headers m, m_priority = pm_priority m\<rparr>]"
  by (auto simp: publish_def Let_def split: prod.splits option.splits amqp_out.splits)

lemma publish_Some_nonempty:
  "publish p out ex rk m = (Some e, p', ms) \<Longrightarrow> \<exists>s. e = CHR ''p'' # s \<or> e = CHR ''c'' # s"
  by (auto simp: publish_def Let_def split: prod.splits option.splits amqp_out.splits)

lemma publish_msgs:
  "publish p out ex rk m = (r, p', ms) \<Longrightarrow>
   ms = [] \<or> ms = [\<lparr>m_exchange = ex, m_routing_key = rk, m_body = pm_payload m,
                        m_headers = pm_headers m, m_priority = pm_priority m\<rparr>]"
  by (auto simp: publish_def Let_def split: prod.splits option.splits amqp_out.splits if_splits)

lemma publish_Acked:
  "pub_chans p \<noteq> [] \<Longrightarrow>
   publish p Acked ex rk m =
     (None, p\<lparr>pub_round_robin := pub_round_robin p + 1\<rparr>,
      [\<lparr>m_exchange = ex, m_routing_key = rk, m_body = pm_payload m,
        m_headers = pm_headers m, m_priority = pm_priority m\<rparr>])"
  by (simp add: publish_def pickChannel_def Let_def)

lemma pickChannel_chans [simp]: "pub_chans (snd (pickChannel p)) = pub_chans p"
  by (simp add: pickChannel_def Let_def)

lemma unat_pick_index:
  assumes "0 < n" "n < 2 ^ 64"
  shows "unat ((w :: 64 word) mod of_nat n) = unat w mod n"
proof -
  have "unat (of_nat n :: 64 word) = n" using assms(2) by (simp add: unat_of_nat)
  then show ?thesis by (simp add: unat_mod_distrib)
qed

lemma pickChannel_in_range:
  assumes "pub_chans p \<noteq> []" "length (pub_chans p) < 2 ^ 64"
  shows "fst (pickChannel p) =
         Some (pub_chans p ! (unat (pub_round_robin p + 1) mod length (pub_chans p))) \<and>
         unat (pub_round_robin p + 1) mod length (pub_chans p) < length (pub_chans p)"
  using assms by (simp add: pickChannel_def Let_def unat_pick_index)

text \<open>The pauses of the reconnect loop double up to 32 seconds and stay there.\<close>

lemma next_backoff_pow:
  "next_backoff (2 ^ min k 5 * second) = 2 ^ min (Suc k) 5 * second"
proof (cases "k < 5")
  case True
  then have "k \<in> {0, 1, 2, 3, 4}" by auto
  then show ?thesis by (auto simp: next_backoff_def second_def)
next
  case False
  then show ?thesis by (simp add: next_backoff_def second_def min_def)
qed

lemma reconnect_loop_pauses:
  assumes "reconnect_loop (2 ^ min k 5 * second) evs p = (ws, p')" and "i < length ws"
  shows "ws ! i = 2 ^ min (k + i) 5 * second"
  using assms
proof (induction evs arbitrary: k ws i)
  case (Cons ev evs)
  show ?case
  proof (cases ev)
    case EvDialFails
    obtain vs where r: "reconnect_loop (2 ^ min (Suc k) 5 * second) evs p = (vs, p')"
      and ws: "ws = 2 ^ min k 5 * second # vs"
      using Cons.prems(1) EvDialFails next_backoff_pow[of k] by (auto split: prod.splits)
    show ?thesis
    proof (cases i)
      case 0 then show ?thesis using ws by simp
    next
      case (Suc j)
      then show ?thesis using Cons.IH[OF r, of j] Cons.prems(2) ws by simp
    qed
  qed (use Cons.prems in auto)
qed simp

lemmas topology_unfold = topology_def channel_decls_def channel_queues_def wait_decls_def tiers_def
  Channels_def queue_names

lemma bound_wait:
  assumes "Channel_Valid ch" "tier \<in> fst ` set tiers"
  shows "bound_queues (topology Channels Channels) ExchangeMain (WaitRoutingKey ch tier) = {WaitQueue ch tier}"
proof -
  have "\<forall>c \<in> set Channels. \<forall>t \<in> set tiers.
          bound_queues (topology Channels Channels) ExchangeMain (WaitRoutingKey c (fst t)) = {WaitQueue c (fst t)}"
    by (simp add: bound_queues_def args_of_def topology_unfold maxPriority_def no_args_def)
  then show ?thesis using assms by (auto simp: Channel_Valid_Channels)
qed

lemma bound_main:
  assumes "Channel_Valid ch"
  shows "bound_queues (topology Channels Channels) ExchangeMain (RoutingKey ch) =
         {fst (the (channel_queues ch))}"
proof -
  have "\<forall>c \<in> set Channels. bound_queues (topology Channels Channels) ExchangeMain (RoutingKey c) =
          {fst (the (channel_queues c))}"
    by (simp add: bound_queues_def args_of_def topology_unfold maxPriority_def no_args_def)
  then show ?thesis using assms by (auto simp: Channel_Valid_Channels)
qed

lemma bound_dead:
  assumes "Channel_Valid ch"
  shows "bound_queues (topology Channels Channels) ExchangeDLX (ch @ ''.dead'') =
         {snd (the (channel_queues ch))}"
proof -
  have "\<forall>c \<in> set Channels. bound_queues (topology Channels Channels) ExchangeDLX (c @ ''.dead'') =
          {snd (the (channel_queues c))}"
    by (simp add: bound_queues_def args_of_def topology_unfold maxPriority_def no_args_def)
  then show ?thesis using assms by (auto simp: Channel_Valid_Channels)
qed

lemma args_wait:
  assumes "Channel_Valid ch" "(tier, ttl) \<in> set tiers"
  shows "args_of (topology Channels Channels) (WaitQueue ch tier) =
         {\<lparr>qa_max_priority = None, qa_message_ttl = Some ttl, qa_dlx = Some ExchangeMain,
           qa_dl_routing_key = Some (RoutingKey ch)\<rparr>}"
proof -
  have "\<forall>c \<in> set Channels. \<forall>t \<in> set tiers.
          args_of (topology Channels Channels) (WaitQueue c (fst t)) =
          {\<lparr>qa_max_priority = None, qa_message_ttl = Some (snd t), qa_dlx = Some ExchangeMain,
            qa_dl_routing_key = Some (RoutingKey c)\<rparr>}"
    by (simp add: bound_queues_def args_of_def topology_unfold maxPriority_def no_args_def)
  from bspec[OF bspec[OF this, of ch], of "(tier, ttl)"] show ?thesis
    using assms by (simp add: Channel_Valid_Channels)
qed

lemma args_main:
  assumes "Channel_Valid ch"
  shows "args_of (topology Channels Channels) (fst (the (channel_queues ch))) =
         {\<lparr>qa_max_priority = Some maxPriority, qa_message_ttl = None, qa_dlx = Some ExchangeDLX,
           qa_dl_routing_key = Some (ch @ ''.dead'')\<rparr>}"
proof -
  have "\<forall>c \<in> set Channels. args_of (topology Channels Channels) (fst (the (channel_queues c))) =
         {\<lparr>qa_max_priority = Some maxPriority, qa_message_ttl = None, qa_dlx = Some ExchangeDLX,
           qa_dl_routing_key = Some (c @ ''.dead'')\<rparr>}"
    by (simp add: bound_queues_def args_of_def topology_unfold maxPriority_def no_args_def)
  then show ?thesis using assms by (auto simp: Channel_Valid_Channels)
qed

lemma tier_in_tiers: "WaitTierForAttempt a \<in> fst ` set tiers"
  by (simp add: WaitTierForAttempt_def tiers_def)

lemma take2_slashes: "take 2 (u @ CHR ''@'' # v) = ''//'' \<Longrightarrow> CHR ''/'' \<in> set u"
  by (cases u) (auto simp: take_Cons' split: if_splits)

lemma redact_scan_cred:
  assumes "CHR ''@'' \<notin> set u" "CHR ''/'' \<notin> set u"
  shows "redact_scan (u @ CHR ''@'' # v) i sch = (int (i + length u), sch)"
  using assms
proof (induction u arbitrary: i)
  case (Cons c u)
  then have "take 2 (u @ CHR ''@'' # v) \<noteq> ''//''" using take2_slashes[of u v] by auto
  then show ?case using Cons by (auto simp: Let_def)
qed (simp add: Let_def)

lemma redact_scan_plain:
  assumes "CHR ''@'' \<notin> set u" "CHR '':'' \<notin> set u"
  shows "redact_scan (u @ v) i sch = redact_scan v (i + length u) sch"
  using assms by (induction u arbitrary: i) (auto simp: Let_def)

fun pick_many :: "nat \<Rightarrow> publisher \<Rightarrow> nat option list" where
  "pick_many 0 p = []"
| "pick_many (Suc n) p = fst (pickChannel p) # pick_many n (snd (pickChannel p))"

lemma length_pick_many [simp]: "length (pick_many n p) = n"
  by (induction n arbitrary: p) auto

lemma unat_add_mod8: "unat ((w :: 64 word) + of_nat k) mod 8 = (unat w + k) mod 8"
proof -
  have "unat (w + of_nat k) = (unat w + k) mod 2 ^ 64"
    by (simp add: unat_word_ariths unat_of_nat mod_simps)
  moreover have "(8::nat) dvd 2 ^ 64" by simp
  ultimately show ?thesis by (simp add: mod_mod_cancel)
qed

lemma pickChannel_8:
  assumes "length (pub_chans p) = 8"
  shows "fst (pickChannel p) = Some (pub_chans p ! ((unat (pub_round_robin p) + 1) mod 8))"
    and "snd (pickChannel p) = p\<lparr>pub_round_robin := pub_round_robin p + 1\<rparr>"
proof -
  have ne: "pub_chans p \<noteq> []" using assms by auto
  then show "fst (pickChannel p) = Some (pub_chans p ! ((unat (pub_round_robin p) + 1) mod 8))"
    using pickChannel_in_range[of p] assms unat_add_mod8[of "pub_round_robin p" 1] by simp
  show "snd (pickChannel p) = p\<lparr>pub_round_robin := pub_round_robin p + 1\<rparr>"
    using ne by (simp add: pickChannel_def Let_def)
qed

lemma pick_many_nth:
  assumes "length (pub_chans p) = 8" "i < n"
  shows "pick_many n p ! i = Some (pub_chans p ! ((unat (pub_round_robin p) + i + 1) mod 8))"
  using assms
proof (induction n arbitrary: p i)
  case (Suc n)
  let ?p = "p\<lparr>pub_round_robin := pub_round_robin p + 1\<rparr>"
  have step: "pick_many (Suc n) p = Some (pub_chans p ! ((unat (pub_round_robin p) + 1) mod 8)) # pick_many n ?p"
    using pickChannel_8[OF Suc.prems(1)] by simp
  show ?case
  proof (cases i)
    case 0 then show ?thesis using step by simp
  next
    case (Suc j)
    then have "pick_many n ?p ! j = Some (pub_chans p ! ((unat (pub_round_robin p + 1) + j + 1) mod 8))"
      using Suc.IH[of ?p j] Suc.prems by simp
    moreover have "(unat (pub_round_robin p + 1) + (j + 1)) mod 8 = (unat (pub_round_robin p) + 1 + (j + 1)) mod 8"
      by (rule mod_add_cong) (use unat_add_mod8[of "pub_round_robin p" 1] in simp_all)
    ultimately show ?thesis using step Suc by (simp add: ac_simps)
  qed
qed simp

lemma mod8_inj_le: "i \<le> j \<Longrightarrow> j < 8 \<Longrightarrow> (a + j + 1) mod 8 = (a + i + 1) mod (8::nat) \<Longrightarrow> i = j"
proof -
  assume le: "i \<le> j" "j < 8" and "(a + j + 1) mod 8 = (a + i + 1) mod 8"
  then have "8 dvd j - i" using mod_eq_dvd_iff_nat[of "a + i + 1" "a + j + 1" 8] by simp
  then show "i = j" using le by (cases "j - i = 0") (auto dest: dvd_imp_le)
qed

lemma mod8_inj: "i < 8 \<Longrightarrow> j < 8 \<Longrightarrow> (a + i + 1) mod 8 = (a + j + 1) mod (8::nat) \<Longrightarrow> i = j"
  using mod8_inj_le[of i j a] mod8_inj_le[of j i a] by (cases "i \<le> j") simp_all

subsection \<open>Properties\<close>

text \<open>
  C24: Whatever the order in which Go ranges over its map, when \<open>DeclareTopology\<close> succeeds, a
  message published for a valid channel with the wait key of any attempt reaches exactly one
  queue, the wait queue of that channel and tier; that queue's expiry sends it, with the
  channel's own routing key, to the main exchange, where exactly the channel's main queue is
  bound; and what the main queue rejects reaches exactly the channel's dead-letter queue.
\<close>

theorem wait_tier_returns_to_channel:
  assumes "DeclareTopology accepts o1 o2 = (ds, True)"
    and "set o1 = set Channels" "set o2 = set Channels" and "Channel_Valid ch"
  shows "bound_queues ds ExchangeMain (WaitRoutingKey ch (WaitTierForAttempt a)) = {WaitQueueForAttempt ch a} \<and>
    (\<exists>ttl. (WaitTierForAttempt a, ttl) \<in> set tiers \<and>
       args_of ds (WaitQueueForAttempt ch a) =
         {\<lparr>qa_max_priority = None, qa_message_ttl = Some ttl, qa_dlx = Some ExchangeMain,
           qa_dl_routing_key = Some (RoutingKey ch)\<rparr>}) \<and>
    bound_queues ds ExchangeMain (RoutingKey ch) = {fst (the (channel_queues ch))} \<and>
    args_of ds (fst (the (channel_queues ch))) =
         {\<lparr>qa_max_priority = Some maxPriority, qa_message_ttl = None, qa_dlx = Some ExchangeDLX,
           qa_dl_routing_key = Some (ch @ ''.dead'')\<rparr>} \<and>
    bound_queues ds ExchangeDLX (ch @ ''.dead'') = {snd (the (channel_queues ch))}"
proof -
  have "ds = topology o1 o2" using declare_all_ok assms(1) by (simp add: DeclareTopology_def)
  then have s: "set ds = set (topology Channels Channels)" using set_topology[OF assms(2,3)] by simp
  have b: "bound_queues ds = bound_queues (topology Channels Channels)"
    by (intro ext) (simp add: bound_queues_alt s)
  have g: "args_of ds = args_of (topology Channels Channels)"
    by (intro ext) (simp add: args_of_alt s)
  obtain ttl where t: "(WaitTierForAttempt a, ttl) \<in> set tiers" using tier_in_tiers by fastforce
  show ?thesis
    unfolding b g WaitQueueForAttempt_def
    using t bound_wait[OF assms(4) tier_in_tiers] args_wait[OF assms(4) t] bound_main[OF assms(4)]
      args_main[OF assms(4)] bound_dead[OF assms(4)] by blast
qed

theorem wait_tier_returns_to_channel_witness:
  "\<exists>ds. DeclareTopology (\<lambda>_. True) [''push'', ''sms'', ''email''] [''email'', ''push'', ''sms''] = (ds, True) \<and>
    bound_queues ds ExchangeMain (WaitRoutingKey ''sms'' (WaitTierForAttempt 2)) = {WaitQueueForAttempt ''sms'' 2}"
proof -
  let ?o1 = "[''push'', ''sms'', ''email'']" and ?o2 = "[''email'', ''push'', ''sms'']"
  have d: "DeclareTopology (\<lambda>_. True) ?o1 ?o2 = (topology ?o1 ?o2, True)"
    by (simp add: DeclareTopology_def declare_all_accepts list_all_iff)
  have c: "set ?o1 = set Channels" "set ?o2 = set Channels" "Channel_Valid ''sms''"
    by (auto simp: Channels_def Channel_Valid_def)
  show ?thesis
    by (rule exI, rule conjI, rule d) (rule wait_tier_returns_to_channel[OF d c, THEN conjunct1])
qed

text \<open>
  The publisher's round robin is fair at the configured pool size: any eight successive
  publishes use each of the eight channels exactly once, from every value of the 64-bit
  counter, its wrap-around included.
\<close>

theorem pickChannel_fair:
  assumes "length (pub_chans p) = DefaultChannelPoolSize" and "distinct (pub_chans p)"
  shows "distinct (pick_many DefaultChannelPoolSize p) \<and>
         set (pick_many DefaultChannelPoolSize p) = Some ` set (pub_chans p)"
proof -
  have l8: "length (pub_chans p) = 8" using assms(1) by (simp add: DefaultChannelPoolSize_def)
  note nth = pick_many_nth[OF l8]
  have d: "distinct (pick_many 8 p)"
    unfolding distinct_conv_nth
  proof (intro allI impI)
    fix i j assume ij: "i < length (pick_many 8 p)" "j < length (pick_many 8 p)" "i \<noteq> j"
    let ?f = "\<lambda>i. (unat (pub_round_robin p) + i + 1) mod 8"
    have i8: "i < 8" "j < 8" using ij by simp_all
    have "?f i \<noteq> ?f j" using mod8_inj[OF i8, of "unat (pub_round_robin p)"] ij(3) by blast
    moreover have "?f i < length (pub_chans p)" "?f j < length (pub_chans p)"
      unfolding l8 by (rule mod_less_divisor, simp)+
    ultimately have "pub_chans p ! ?f i \<noteq> pub_chans p ! ?f j"
      using nth_eq_iff_index_eq[OF assms(2)] by blast
    then show "pick_many 8 p ! i \<noteq> pick_many 8 p ! j"
      unfolding nth[OF i8(1)] nth[OF i8(2)] by blast
  qed
  have sub: "set (pick_many 8 p) \<subseteq> Some ` set (pub_chans p)"
  proof
    fix x assume "x \<in> set (pick_many 8 p)"
    then obtain i where "i < 8" "x = pick_many 8 p ! i" by (auto simp: in_set_conv_nth)
    then have "x = Some (pub_chans p ! ((unat (pub_round_robin p) + i + 1) mod 8))" using nth by blast
    moreover have "(unat (pub_round_robin p) + i + 1) mod 8 < length (pub_chans p)"
      unfolding l8 by (rule mod_less_divisor) simp
    ultimately show "x \<in> Some ` set (pub_chans p)" by (blast intro: nth_mem)
  qed
  have "card (set (pick_many 8 p)) = 8" using distinct_card[OF d] by simp
  moreover have "card (Some ` set (pub_chans p)) = 8"
    using distinct_card[OF assms(2)] l8 by (simp add: card_image)
  ultimately have "set (pick_many 8 p) = Some ` set (pub_chans p)"
    using sub by (intro card_subset_eq) auto
  then show ?thesis using d by (simp add: DefaultChannelPoolSize_def)
qed

theorem pickChannel_fair_witness:
  "set (pick_many DefaultChannelPoolSize
     \<lparr>pub_chans = [0, 1, 2, 3, 4, 5, 6, 7], pub_round_robin = - 3, pub_conn_open = True, pub_stopped = False\<rparr>)
   = Some ` {0, 1, 2, 3, 4, 5, 6, 7}"
proof -
  let ?p = "\<lparr>pub_chans = [0, 1, 2, 3, 4, 5, 6, 7], pub_round_robin = - 3, pub_conn_open = True, pub_stopped = False\<rparr>"
  have "length (pub_chans ?p) = DefaultChannelPoolSize" "distinct (pub_chans ?p)"
    by (simp_all add: DefaultChannelPoolSize_def)
  then show ?thesis using pickChannel_fair[of ?p] by simp
qed

text \<open>
  However often the broker refuses the reconnection, the pause before the next dial after
  \<open>i\<close> earlier failures is \<open>2^i\<close> seconds, at most 32 seconds.
\<close>

theorem watchClose_backoff:
  assumes "watchClose evs p = (ws, p')" and "i < length ws"
  shows "ws ! i = 2 ^ min i 5 * second"
  using reconnect_loop_pauses[of 0 evs p ws p' i] assms by (simp add: watchClose_def)

theorem watchClose_backoff_witness:
  "fst (watchClose (replicate 7 EvDialFails)
     \<lparr>pub_chans = [], pub_round_robin = 0, pub_conn_open = False, pub_stopped = False\<rparr>) ! 6 = 32 * second"
proof -
  let ?p = "\<lparr>pub_chans = [], pub_round_robin = 0, pub_conn_open = False, pub_stopped = False\<rparr>"
  obtain ws p' where w: "watchClose (replicate 7 EvDialFails) ?p = (ws, p')" by fastforce
  have "length (fst (watchClose (replicate 7 EvDialFails) ?p)) = 7" by code_simp
  then have "ws ! 6 = 2 ^ min 6 5 * second" using watchClose_backoff[OF w, of 6] w by simp
  then show ?thesis using w by simp
qed

text \<open>
  \<open>redactURL\<close> removes the credentials of a URL: user and password, without at-sign and
  slash as URL encoding has them, are replaced by three stars and nothing else changes.
\<close>

theorem redactURL_hides:
  assumes "CHR '':'' \<notin> set scheme" "CHR ''@'' \<notin> set scheme"
    and "CHR ''@'' \<notin> set cred" "CHR ''/'' \<notin> set cred" and "cred \<noteq> []"
  shows "redactURL (scheme @ ''://'' @ cred @ ''@'' @ host) = scheme @ ''://***@'' @ host"
proof -
  let ?n = "length scheme"
  have "redact_scan (scheme @ ''://'' @ cred @ ''@'' @ host) 0 (-1) = (int (?n + 3 + length cred), int (?n + 3))"
    using redact_scan_plain[OF assms(2,1)] redact_scan_cred[OF assms(3,4)]
    by (simp add: Let_def)
  then show ?thesis using assms(5) by (simp add: redactURL_def Let_def nat_add_distrib numeral_3_eq_3)
qed

theorem redactURL_hides_witness:
  "redactURL ''amqp://guest:s3cret@mq:5672/'' = ''amqp://***@mq:5672/''"
  using redactURL_hides[of "''amqp''" "''guest:s3cret''" "''mq:5672/''"] by simp

text \<open>A password with a literal at-sign is cut at the first one; its tail stays in the log line.\<close>

lemma redactURL_leaks_after_at:
  "redactURL ''amqp://user:p@ss@mq'' = ''amqp://***@ss@mq''"
  by code_simp

end
