(* ===== verification/Ratelimit.thy ===== *)
theory Ratelimit
  imports Prelude Complex_Main
begin

text \<open>
  The rate limiter of \<open>internal/ratelimit\<close>: the Lua token bucket that Redis runs atomically, the
  Go wrapper \<open>AllowN\<close>, and the process-local \<open>Reservoir\<close> that takes tokens in batches. Lua and Go
  compute with doubles; the model computes exactly, in \<^typ>\<open>rat\<close>. Redis is the atomic
  execution of the script on the stored hash, its failure an argument.
\<close>

subsection \<open>The script (lua.go)\<close>

record bucket =
  bk_tokens :: rat
  bk_ts :: int

record script_reply =
  sr_allowed :: int
  sr_retry_after_ms :: int
  sr_tokens :: rat

text \<open>The level of the bucket at \<open>now\<close>, before anything is taken; an absent key is a full bucket.\<close>

definition bucket_level :: "int \<Rightarrow> rat \<Rightarrow> rat \<Rightarrow> bucket option \<Rightarrow> rat" where
  "bucket_level now rate cap b =
     (let (tokens, ts) = (case b of None \<Rightarrow> (cap, now) | Some k \<Rightarrow> (bk_tokens k, bk_ts k));
          elapsed_ms = max 0 (now - ts);
          refill = (of_int elapsed_ms / 1000) * rate
      in min cap (tokens + refill))"

definition luaTokenBucket ::
  "int \<Rightarrow> rat \<Rightarrow> rat \<Rightarrow> rat \<Rightarrow> bucket option \<Rightarrow> script_reply \<times> bucket" where
  "luaTokenBucket now rate cap amount b =
     (let tokens = bucket_level now rate cap b in
      if tokens \<ge> amount
      then (\<lparr>sr_allowed = 1, sr_retry_after_ms = 0, sr_tokens = tokens - amount\<rparr>,
            \<lparr>bk_tokens = tokens - amount, bk_ts = now\<rparr>)
      else (\<lparr>sr_allowed = 0, sr_retry_after_ms = \<lceil>((amount - tokens) / rate) * 1000\<rceil>, sr_tokens = tokens\<rparr>,
            \<lparr>bk_tokens = tokens, bk_ts = now\<rparr>))"

text \<open>
  A duration computed from \<open>retry_after_ms\<close> is a natural number of nanoseconds: the script
  never returns a negative one (\<open>script_retry_nonneg\<close>).
\<close>

record decision =
  dec_allowed :: bool
  dec_retry_after :: nat
  dec_tokens_left :: rat

text \<open>\<open>AllowN\<close>; \<open>fails\<close> is the error of the script call, if any. The state is the stored hash.\<close>

definition AllowN ::
  "string option \<Rightarrow> int \<Rightarrow> rat \<Rightarrow> rat \<Rightarrow> rat \<Rightarrow> bucket option \<Rightarrow> (string + decision) \<times> bucket option" where
  "AllowN fails now rate cap amount b =
     (if rate \<le> 0 \<or> cap \<le> 0 \<or> amount \<le> 0
      then (Inl ''ratelimit: rate, capacity, take must be positive'', b)
      else case fails of
        Some e \<Rightarrow> (Inl (''eval script: '' @ e), b)
      | None \<Rightarrow>
          (let (r, b') = luaTokenBucket now rate cap amount b in
           (Inr \<lparr>dec_allowed = (sr_allowed r = 1), dec_retry_after = nat (sr_retry_after_ms r * millisecond),
                 dec_tokens_left = sr_tokens r\<rparr>, Some b')))"

definition Allow ::
  "string option \<Rightarrow> int \<Rightarrow> rat \<Rightarrow> rat \<Rightarrow> bucket option \<Rightarrow> (string + decision) \<times> bucket option" where
  "Allow fails now rate cap b = AllowN fails now rate cap 1 b"

subsection \<open>The reservoir (reservoir.go)\<close>

record reservoir =
  rv_rate :: rat
  rv_capacity :: rat
  rv_batch :: rat
  rv_tokens :: rat

definition NewReservoir :: "rat \<Rightarrow> rat \<Rightarrow> rat \<Rightarrow> reservoir" where
  "NewReservoir rate cap batch =
     \<lparr>rv_rate = rate, rv_capacity = cap, rv_batch = (if batch \<le> 0 then 20 else batch), rv_tokens = 0\<rparr>"

record take_result =
  tr_allowed :: bool
  tr_retry_after :: nat

text \<open>The two critical sections of \<open>Take\<close>: spending a local token, crediting a granted batch.\<close>

definition take_local :: "reservoir \<Rightarrow> reservoir option" where
  "take_local r = (if rv_tokens r \<ge> 1 then Some (r\<lparr>rv_tokens := rv_tokens r - 1\<rparr>) else None)"

definition credit_batch :: "reservoir \<Rightarrow> reservoir" where
  "credit_batch r = r\<lparr>rv_tokens := rv_tokens r + (rv_batch r - 1)\<rparr>"

text \<open>
  \<open>Take\<close> over a limiter given as a function of the amount: first the batch, then, when it is
  denied, one token. The mutex is free during the two calls; \<open>r'\<close> is the reservoir other
  workers left behind when the batch was granted.
\<close>

type_synonym 'b limiter = "rat \<Rightarrow> rat \<Rightarrow> rat \<Rightarrow> 'b \<Rightarrow> (string + decision) \<times> 'b"

definition Take ::
  "'b limiter \<Rightarrow> 'b limiter \<Rightarrow> (reservoir \<Rightarrow> reservoir) \<Rightarrow> reservoir \<Rightarrow> 'b \<Rightarrow>
   (string + take_result) \<times> reservoir \<times> 'b" where
  "Take batch_call single_call others r b =
     (case take_local r of
        Some r' \<Rightarrow> (Inr \<lparr>tr_allowed = True, tr_retry_after = 0\<rparr>, r', b)
      | None \<Rightarrow>
          (case batch_call (rv_rate r) (rv_capacity r) (rv_batch r) b of
             (Inl e, b1) \<Rightarrow> (Inl (''reservoir refill: '' @ e), others r, b1)
           | (Inr dec, b1) \<Rightarrow>
               if dec_allowed dec
               then (Inr \<lparr>tr_allowed = True, tr_retry_after = 0\<rparr>, credit_batch (others r), b1)
               else (case single_call (rv_rate r) (rv_capacity r) 1 b1 of
                  (Inl e, b2) \<Rightarrow> (Inl (''reservoir single fallback: '' @ e), others r, b2)
                | (Inr dec2, b2) \<Rightarrow>
                    if dec_allowed dec2
                    then (Inr \<lparr>tr_allowed = True, tr_retry_after = 0\<rparr>, others r, b2)
                    else (Inr \<lparr>tr_allowed = False, tr_retry_after = dec_retry_after dec2\<rparr>, others r, b2))))"

subsection \<open>The bucket stays between zero and its capacity\<close>

definition bucket_ok :: "rat \<Rightarrow> bucket option \<Rightarrow> bool" where
  "bucket_ok cap b = (case b of None \<Rightarrow> True | Some k \<Rightarrow> 0 \<le> bk_tokens k \<and> bk_tokens k \<le> cap)"

lemma bucket_level_bounds:
  assumes "0 < rate" "0 < cap" "bucket_ok cap b"
  shows "0 \<le> bucket_level now rate cap b" "bucket_level now rate cap b \<le> cap"
  using assms by (auto simp: bucket_level_def bucket_ok_def Let_def split: option.splits)

lemma script_ok:
  assumes "0 < rate" "0 < cap" "0 < amount" "bucket_ok cap b"
    and "luaTokenBucket now rate cap amount b = (r, b')"
  shows "bucket_ok cap (Some b')"
  using assms bucket_level_bounds[OF assms(1,2,4), of now]
  by (auto simp: luaTokenBucket_def bucket_ok_def Let_def split: if_splits)

lemma script_retry_nonneg:
  assumes "0 < rate"
  shows "0 \<le> sr_retry_after_ms (fst (luaTokenBucket now rate cap amount b))"
proof (cases "amount \<le> bucket_level now rate cap b")
  case False
  then have "0 \<le> (amount - bucket_level now rate cap b) / rate * 1000" using assms by simp
  then have "0 \<le> \<lceil>(amount - bucket_level now rate cap b) / rate * 1000\<rceil>"
    by (simp only: zero_le_ceiling)
  then show ?thesis using False by (simp add: luaTokenBucket_def Let_def)
qed (simp add: luaTokenBucket_def Let_def)

text \<open>The amount a reply takes out of the bucket.\<close>

definition taken :: "rat \<Rightarrow> script_reply \<Rightarrow> rat" where
  "taken amount r = (if sr_allowed r = 1 then amount else 0)"

lemma script_conserves:
  assumes "luaTokenBucket now rate cap amount b = (r, b')"
  shows "taken amount r + bk_tokens b' = bucket_level now rate cap b" and "bk_ts b' = now"
  using assms by (auto simp: luaTokenBucket_def taken_def Let_def split: if_splits)

text \<open>The bucket was last written no later than \<open>now\<close>.\<close>

definition bucket_past :: "int \<Rightarrow> bucket option \<Rightarrow> bool" where
  "bucket_past now b = (case b of None \<Rightarrow> True | Some k \<Rightarrow> bk_ts k \<le> now)"

lemma level_refill:
  assumes "0 < rate" "now \<le> t" "bucket_past now b"
  shows "bucket_level t rate cap b \<le> bucket_level now rate cap b + rate * of_int (t - now) / 1000"
proof -
  have nn: "0 \<le> rate * (of_int t - of_int now) / 1000" using assms(1,2) by simp
  show ?thesis
  proof (cases b)
    case None
    then show ?thesis using nn by (simp add: bucket_level_def)
  next
    case (Some k)
    let ?x = "bk_tokens k + (of_int now - of_int (bk_ts k)) * rate / 1000"
    have ts: "bk_ts k \<le> now" using assms(3) Some by (simp add: bucket_past_def)
    then have l: "bucket_level now rate cap b = min cap ?x"
      using Some by (simp add: bucket_level_def Let_def max_def)
    have eq: "bk_tokens k + (of_int t - of_int (bk_ts k)) * rate / 1000 = ?x + rate * (of_int t - of_int now) / 1000"
      by (simp add: field_simps)
    have "bucket_level t rate cap b = min cap (bk_tokens k + (of_int t - of_int (bk_ts k)) * rate / 1000)"
      using Some ts assms(2) by (simp add: bucket_level_def Let_def max_def)
    then show ?thesis unfolding eq l using nn by (simp add: min_def)
  qed
qed

lemma level_after:
  assumes "luaTokenBucket now rate cap amount b = (r, b')" "bk_tokens b' \<le> cap"
  shows "bucket_level now rate cap (Some b') = bk_tokens b'"
  using assms(2) script_conserves(2)[OF assms(1)] by (simp add: bucket_level_def Let_def)

subsection \<open>The contract of a token source\<close>

text \<open>
  What a client of a shared bucket relies on: a call takes what it grants out of the level, and
  time adds at most \<open>rate\<close> tokens per second. From this alone follows the bound on everything
  that any number of clients are granted over a schedule of calls.
\<close>

fun run_calls :: "(int \<Rightarrow> rat \<Rightarrow> 'b \<Rightarrow> bool \<times> 'b) \<Rightarrow> (int \<times> rat) list \<Rightarrow> 'b \<Rightarrow> rat \<times> 'b" where
  "run_calls call [] b = (0, b)"
| "run_calls call ((now, amount) # cs) b =
     (let (g, b') = call now amount b; (tot, b'') = run_calls call cs b'
      in ((if g then amount else 0) + tot, b''))"

locale token_source =
  fixes call :: "int \<Rightarrow> rat \<Rightarrow> 'b \<Rightarrow> bool \<times> 'b"
    and level :: "int \<Rightarrow> 'b \<Rightarrow> rat"
    and ok :: "int \<Rightarrow> 'b \<Rightarrow> bool"
    and rate :: rat
  assumes nonneg: "ok now b \<Longrightarrow> 0 \<le> level now b"
    and conserve: "\<lbrakk>ok now b; 0 < amount; call now amount b = (g, b')\<rbrakk> \<Longrightarrow>
           ok now b' \<and> (if g then amount else 0) + level now b' = level now b"
    and refill: "\<lbrakk>ok now b; now \<le> t\<rbrakk> \<Longrightarrow> ok t b \<and> level t b \<le> level now b + rate * of_int (t - now) / 1000"
    and rate_pos: "0 < rate"
begin

lemma granted_bound:
  assumes "ok t0 b" "sorted (t0 # map fst cs @ [t1])" "list_all (\<lambda>c. 0 < snd c) cs"
    and "run_calls call cs b = (tot, b')"
  shows "tot + level t1 b' \<le> level t0 b + rate * of_int (t1 - t0) / 1000 \<and> ok t1 b'"
  using assms
proof (induction cs arbitrary: t0 b tot)
  case Nil
  then show ?case using refill[of t0 b t1] by simp
next
  case (Cons c cs)
  obtain now amount where c: "c = (now, amount)" by (cases c)
  obtain g b1 where g: "call now amount b = (g, b1)" by fastforce
  obtain tot' where r: "run_calls call cs b1 = (tot', b')" and teq: "tot = (if g then amount else 0) + tot'"
    using Cons.prems(4) c g by (auto split: prod.splits)
  have le: "t0 \<le> now" and pos: "0 < amount" using Cons.prems(2,3) c by simp_all
  note rf = refill[OF Cons.prems(1) le]
  note cv = conserve[OF rf[THEN conjunct1] pos g]
  have ih: "tot' + level t1 b' \<le> level now b1 + rate * of_int (t1 - now) / 1000 \<and> ok t1 b'"
    using Cons.IH[OF cv[THEN conjunct1] _ _ r] Cons.prems(2,3) c by simp
  have split_time: "rate * of_int (t1 - t0) / 1000 = rate * of_int (t1 - now) / 1000 + rate * of_int (now - t0) / 1000"
    by (simp add: field_simps)
  show ?case
    using ih[THEN conjunct1] rf[THEN conjunct2] cv[THEN conjunct2] teq split_time ih[THEN conjunct2]
    by (intro conjI) linarith+
qed

end

text \<open>The script as such a source, at the rate and capacity of \<open>worker.New\<close>.\<close>

definition ratePerSec :: rat where "ratePerSec = 100"
definition capacity :: rat where "capacity = 100"
definition batchSize :: rat where "batchSize = 20"

definition script_call :: "rat \<Rightarrow> rat \<Rightarrow> int \<Rightarrow> rat \<Rightarrow> bucket option \<Rightarrow> bool \<times> bucket option" where
  "script_call rate cap now amount b =
     (let (r, b') = luaTokenBucket now rate cap amount b in (sr_allowed r = 1, Some b'))"

lemma script_token_source:
  assumes "0 < rate" "0 < cap"
  shows "token_source (script_call rate cap) (\<lambda>now. bucket_level now rate cap)
           (\<lambda>now b. bucket_ok cap b \<and> bucket_past now b) rate"
proof
  fix now :: int and b b' :: "bucket option" and amount :: rat and g
  assume ok: "bucket_ok cap b \<and> bucket_past now b" and amt: "0 < amount"
    and c: "script_call rate cap now amount b = (g, b')"
  obtain r k where l: "luaTokenBucket now rate cap amount b = (r, k)" by fastforce
  then have g: "g = (sr_allowed r = 1)" and b': "b' = Some k" using c by (auto simp: script_call_def)
  have k: "bucket_ok cap (Some k)" using script_ok[OF assms amt _ l] ok by simp
  then have "bucket_level now rate cap b' = bk_tokens k"
    using level_after[OF l] b' by (simp add: bucket_ok_def)
  then show "(bucket_ok cap b' \<and> bucket_past now b') \<and>
      (if g then amount else 0) + bucket_level now rate cap b' = bucket_level now rate cap b"
    using script_conserves[OF l] g b' k by (auto simp: taken_def bucket_past_def)
next
  fix now t :: int and b :: "bucket option"
  assume "bucket_ok cap b \<and> bucket_past now b" "now \<le> t"
  then show "(bucket_ok cap b \<and> bucket_past t b) \<and>
      bucket_level t rate cap b \<le> bucket_level now rate cap b + rate * of_int (t - now) / 1000"
    using level_refill[OF assms(1)] by (auto simp: bucket_past_def split: option.splits)
qed (use assms bucket_level_bounds in auto)

interpretation lua: token_source
  "script_call ratePerSec capacity" "\<lambda>now. bucket_level now ratePerSec capacity"
  "\<lambda>now b. bucket_ok capacity b \<and> bucket_past now b" ratePerSec
  by (rule script_token_source) (simp_all add: ratePerSec_def capacity_def)

subsection \<open>Replicas sharing one bucket\<close>

text \<open>
  The state of the limiter of one channel in a deployment: the clock the callers pass, the hash
  in Redis, the reservoir of each replica, how many granted batches are on their way back to a
  replica, and how many deliveries have been allowed so far by all of them. The steps are the
  phases of \<open>Take\<close> in any interleaving, the loss of a reply, the expiry of an idle key, the
  restart of a replica and the passing of time.
\<close>

record rl_state =
  rl_now :: int
  rl_bucket :: "bucket option"
  rl_res :: "nat \<Rightarrow> reservoir"
  rl_inflight :: "nat \<Rightarrow> nat"
  rl_granted :: nat

definition ttlSeconds :: int where "ttlSeconds = 60"

definition rl_init :: "int \<Rightarrow> rl_state" where
  "rl_init t0 = \<lparr>rl_now = t0, rl_bucket = None,
                 rl_res = (\<lambda>_. NewReservoir ratePerSec capacity batchSize),
                 rl_inflight = (\<lambda>_. 0), rl_granted = 0\<rparr>"

inductive rl_step :: "nat \<Rightarrow> rl_state \<Rightarrow> rl_state \<Rightarrow> bool" for n where
  time_passes: "rl_now s \<le> t \<Longrightarrow> rl_step n s (s\<lparr>rl_now := t\<rparr>)"
| key_expires: "rl_bucket s = Some k \<Longrightarrow> ttlSeconds * 1000 \<le> rl_now s - bk_ts k \<Longrightarrow>
    rl_step n s (s\<lparr>rl_bucket := None\<rparr>)"
| local_token: "i < n \<Longrightarrow> take_local (rl_res s i) = Some r \<Longrightarrow>
    rl_step n s (s\<lparr>rl_res := (rl_res s)(i := r), rl_granted := rl_granted s + 1\<rparr>)"
| batch_reply: "i < n \<Longrightarrow> take_local (rl_res s i) = None \<Longrightarrow>
    AllowN None (rl_now s) (rv_rate (rl_res s i)) (rv_capacity (rl_res s i)) (rv_batch (rl_res s i))
      (rl_bucket s) = (Inr dec, b) \<Longrightarrow>
    rl_step n s (s\<lparr>rl_bucket := b,
                   rl_inflight := (rl_inflight s)(i := rl_inflight s i + (if dec_allowed dec then 1 else 0))\<rparr>)"
| batch_credit: "i < n \<Longrightarrow> rl_inflight s i = Suc m \<Longrightarrow>
    rl_step n s (s\<lparr>rl_res := (rl_res s)(i := credit_batch (rl_res s i)),
                   rl_inflight := (rl_inflight s)(i := m), rl_granted := rl_granted s + 1\<rparr>)"
| single_reply: "i < n \<Longrightarrow>
    Allow None (rl_now s) (rv_rate (rl_res s i)) (rv_capacity (rl_res s i)) (rl_bucket s) = (Inr dec, b) \<Longrightarrow>
    rl_step n s (s\<lparr>rl_bucket := b, rl_granted := rl_granted s + (if dec_allowed dec then 1 else 0)\<rparr>)"
| reply_lost: "i < n \<Longrightarrow> 0 < amount \<Longrightarrow>
    AllowN None (rl_now s) (rv_rate (rl_res s i)) (rv_capacity (rl_res s i)) amount (rl_bucket s) = (Inr dec, b) \<Longrightarrow>
    rl_step n s (s\<lparr>rl_bucket := b\<rparr>)"
| restart: "i < n \<Longrightarrow>
    rl_step n s (s\<lparr>rl_res := (rl_res s)(i := NewReservoir ratePerSec capacity batchSize),
                   rl_inflight := (rl_inflight s)(i := 0)\<rparr>)"

definition res_ok :: "reservoir \<Rightarrow> bool" where
  "res_ok r \<longleftrightarrow> rv_rate r = ratePerSec \<and> rv_capacity r = capacity \<and> rv_batch r = batchSize \<and> 0 \<le> rv_tokens r"

text \<open>What a replica holds: its local tokens and the batches coming back to it.\<close>

definition held :: "rl_state \<Rightarrow> nat \<Rightarrow> rat" where
  "held s i = rv_tokens (rl_res s i) + batchSize * of_nat (rl_inflight s i)"

definition rl_inv :: "nat \<Rightarrow> int \<Rightarrow> rl_state \<Rightarrow> bool" where
  "rl_inv n t0 s \<longleftrightarrow>
     (\<forall>i<n. res_ok (rl_res s i)) \<and> bucket_ok capacity (rl_bucket s) \<and> bucket_past (rl_now s) (rl_bucket s) \<and>
     of_nat (rl_granted s) + (\<Sum>i<n. held s i) + bucket_level (rl_now s) ratePerSec capacity (rl_bucket s)
       \<le> capacity + ratePerSec * of_int (rl_now s - t0) / 1000"

lemmas rl_params = ratePerSec_def capacity_def batchSize_def

lemma AllowN_script:
  assumes "0 < rate" "0 < cap" "0 < amount" "AllowN None now rate cap amount b = (Inr dec, b')"
  shows "script_call rate cap now amount b = (dec_allowed dec, b')"
  using assms by (auto simp: AllowN_def script_call_def split: prod.splits)

lemma sum_held_upd:
  assumes "i < n" "\<And>j. j \<noteq> i \<Longrightarrow> held s' j = held s j" "held s' i = held s i + x"
  shows "(\<Sum>j<n. held s' j) = (\<Sum>j<n. held s j) + x"
proof -
  have "(\<Sum>j<n. held s' j) = held s' i + (\<Sum>j\<in>{..<n} - {i}. held s' j)"
    using assms(1) by (simp add: sum.remove)
  also have "(\<Sum>j\<in>{..<n} - {i}. held s' j) = (\<Sum>j\<in>{..<n} - {i}. held s j)"
    using assms(2) by (intro sum.cong) auto
  also have "held s' i + \<dots> = (\<Sum>j<n. held s j) + x"
    using assms(1,3) by (simp add: sum.remove)
  finally show ?thesis .
qed

lemma rl_script:
  assumes "rl_inv n t0 s" "i < n" "0 < amount"
    and "AllowN None (rl_now s) (rv_rate (rl_res s i)) (rv_capacity (rl_res s i)) amount (rl_bucket s) = (Inr dec, b)"
  shows "bucket_ok capacity b \<and> bucket_past (rl_now s) b"
    and "(if dec_allowed dec then amount else 0) + bucket_level (rl_now s) ratePerSec capacity b =
         bucket_level (rl_now s) ratePerSec capacity (rl_bucket s)"
proof -
  have "script_call ratePerSec capacity (rl_now s) amount (rl_bucket s) = (dec_allowed dec, b)"
    using AllowN_script[of ratePerSec capacity amount "rl_now s" "rl_bucket s" dec b] assms
    by (simp add: rl_inv_def res_ok_def rl_params)
  then show "bucket_ok capacity b \<and> bucket_past (rl_now s) b"
    "(if dec_allowed dec then amount else 0) + bucket_level (rl_now s) ratePerSec capacity b =
         bucket_level (rl_now s) ratePerSec capacity (rl_bucket s)"
    using lua.conserve[where b = "rl_bucket s" and now = "rl_now s" and amount = amount and g = "dec_allowed dec" and b' = b] assms(1,3)
    by (auto simp: rl_inv_def)
qed

lemma expired_is_full:
  assumes "bucket_ok capacity (Some k)" "ttlSeconds * 1000 \<le> now - bk_ts k"
  shows "bucket_level now ratePerSec capacity (Some k) = capacity"
proof -
  have "(60000 :: rat) \<le> of_int now - of_int (bk_ts k)"
    using assms(2) of_int_le_iff[of 60000 "now - bk_ts k", where ?'a = rat] by (simp add: ttlSeconds_def)
  then show ?thesis using assms by (auto simp: bucket_ok_def bucket_level_def Let_def min_def rl_params ttlSeconds_def diff_divide_distrib)
qed

lemma rl_inv_init: "rl_inv n t0 (rl_init t0)"
  by (simp add: rl_inv_def rl_init_def res_ok_def held_def NewReservoir_def bucket_ok_def bucket_past_def
      bucket_level_def rl_params)

lemma res_ok_credit: "res_ok r \<Longrightarrow> res_ok (credit_batch r) \<and> rv_tokens (credit_batch r) = rv_tokens r + (batchSize - 1)"
  by (simp add: res_ok_def credit_batch_def rl_params)

lemma res_ok_local: "res_ok r \<Longrightarrow> take_local r = Some r' \<Longrightarrow> res_ok r' \<and> rv_tokens r' = rv_tokens r - 1"
  by (auto simp: res_ok_def take_local_def split: if_splits)

lemma rl_step_inv:
  assumes "rl_step n s s'" "rl_inv n t0 s"
  shows "rl_inv n t0 s'"
  using assms
proof (cases rule: rl_step.cases)
  case (time_passes t)
  have "bucket_past t (rl_bucket s)" "held s' = held s"
    using assms(2) time_passes by (auto simp: rl_inv_def bucket_past_def held_def split: option.splits)
  moreover have "bucket_level t ratePerSec capacity (rl_bucket s)
      \<le> bucket_level (rl_now s) ratePerSec capacity (rl_bucket s) + ratePerSec * of_int (t - rl_now s) / 1000"
    using assms(2) time_passes by (intro level_refill) (simp_all add: rl_inv_def rl_params)
  ultimately show ?thesis using assms(2) time_passes by (auto simp: rl_inv_def rl_params diff_divide_distrib)
next
  case (key_expires k)
  have "held s' = held s" using key_expires by (auto simp: held_def)
  moreover have "bucket_level (rl_now s) ratePerSec capacity (rl_bucket s) = capacity"
    using expired_is_full key_expires assms(2) by (simp add: rl_inv_def)
  moreover have "bucket_level (rl_now s) ratePerSec capacity None = capacity" by (simp add: bucket_level_def)
  ultimately show ?thesis
    using assms(2) key_expires by (simp add: rl_inv_def bucket_ok_def bucket_past_def)
next
  case (local_token i r)
  have ok: "res_ok (rl_res s i)" using assms(2) local_token(2) by (simp add: rl_inv_def)
  have "(\<Sum>j<n. held s' j) = (\<Sum>j<n. held s j) + (- 1)"
    using local_token res_ok_local[OF ok] by (intro sum_held_upd[of i]) (auto simp: held_def)
  then show ?thesis using assms(2) local_token res_ok_local[OF ok] by (auto simp: rl_inv_def)
next
  case (batch_reply i dec b)
  have ok: "rv_batch (rl_res s i) = batchSize" using assms(2) batch_reply(2) by (simp add: rl_inv_def res_ok_def)
  have "(\<Sum>j<n. held s' j) = (\<Sum>j<n. held s j) + (if dec_allowed dec then batchSize else 0)"
    using batch_reply by (intro sum_held_upd[of i]) (auto simp: held_def algebra_simps)
  then show ?thesis
    using assms(2) batch_reply rl_script[OF assms(2) batch_reply(2) _ batch_reply(4)] ok
    by (auto simp: rl_inv_def batchSize_def split: if_splits)
next
  case (batch_credit i m)
  have ok: "res_ok (rl_res s i)" using assms(2) batch_credit(2) by (simp add: rl_inv_def)
  have "(\<Sum>j<n. held s' j) = (\<Sum>j<n. held s j) + (- 1)"
    using batch_credit res_ok_credit[OF ok] by (intro sum_held_upd[of i]) (auto simp: held_def algebra_simps)
  then show ?thesis using assms(2) batch_credit res_ok_credit[OF ok] by (auto simp: rl_inv_def)
next
  case (single_reply i dec b)
  have "held s' = held s" using single_reply by (auto simp: held_def)
  then show ?thesis
    using assms(2) single_reply rl_script[OF assms(2) single_reply(2) _ single_reply(3)[unfolded Allow_def]]
    by (auto simp: rl_inv_def split: if_splits)
next
  case (reply_lost i amount dec b)
  have "held s' = held s" using reply_lost by (auto simp: held_def)
  then show ?thesis
    using assms(2) reply_lost rl_script[OF assms(2) reply_lost(2,3,4)]
    by (auto simp: rl_inv_def split: if_splits)
next
  case (restart i)
  have "0 \<le> held s i" using assms(2) restart(2) by (simp add: rl_inv_def held_def res_ok_def batchSize_def)
  moreover have "(\<Sum>j<n. held s' j) = (\<Sum>j<n. held s j) + (- held s i)"
    using restart by (intro sum_held_upd[of i]) (auto simp: held_def NewReservoir_def)
  ultimately show ?thesis
    using assms(2) restart by (auto simp: rl_inv_def res_ok_def NewReservoir_def batchSize_def)
qed

lemma rl_reachable_inv: "(rl_step n)\<^sup>*\<^sup>* (rl_init t0) s \<Longrightarrow> rl_inv n t0 s"
  by (induction rule: rtranclp_induct) (auto intro: rl_inv_init rl_step_inv)

text \<open>\<open>Take\<close> at one instant, no other worker in between, is a path of the step relation.\<close>

definition rl_put :: "nat \<Rightarrow> rl_state \<Rightarrow> take_result \<Rightarrow> reservoir \<Rightarrow> bucket option \<Rightarrow> rl_state" where
  "rl_put i s res r b =
     s\<lparr>rl_bucket := b, rl_res := (rl_res s)(i := r), rl_granted := rl_granted s + (if tr_allowed res then 1 else 0)\<rparr>"

lemma Take_is_path:
  assumes "i < n"
    and "Take (AllowN None (rl_now s)) (AllowN None (rl_now s)) (\<lambda>r. r) (rl_res s i) (rl_bucket s) = (Inr res, r, b)"
  shows "(rl_step n)\<^sup>*\<^sup>* s (rl_put i s res r b)"
proof (cases "take_local (rl_res s i)")
  case (Some r')
  then have "rl_put i s res r b = s\<lparr>rl_res := (rl_res s)(i := r'), rl_granted := rl_granted s + 1\<rparr>"
    using assms(2) by (auto simp: Take_def rl_put_def)
  then show ?thesis using rl_step.local_token[OF assms(1) Some] by auto
next
  case None
  let ?r = "rl_res s i"
  obtain dec b1 where d1: "AllowN None (rl_now s) (rv_rate ?r) (rv_capacity ?r) (rv_batch ?r) (rl_bucket s) = (Inr dec, b1)"
    using assms(2) None by (auto simp: Take_def split: prod.splits sum.splits)
  let ?s1 = "s\<lparr>rl_bucket := b1, rl_inflight := (rl_inflight s)(i := rl_inflight s i + (if dec_allowed dec then 1 else 0))\<rparr>"
  have st1: "rl_step n s ?s1" using rl_step.batch_reply[OF assms(1) None d1] .
  show ?thesis
  proof (cases "dec_allowed dec")
    case True
    have "rl_step n ?s1 (rl_put i s res r b)"
      using rl_step.batch_credit[OF assms(1), of ?s1 "rl_inflight s i"] True assms(2) None d1
      by (auto simp: Take_def rl_put_def)
    then show ?thesis using st1 by auto
  next
    case False
    have s1: "?s1 = s\<lparr>rl_bucket := b1\<rparr>" using False by simp
    obtain dec2 where d2: "Allow None (rl_now s) (rv_rate ?r) (rv_capacity ?r) b1 = (Inr dec2, b)"
      and r: "r = ?r" "tr_allowed res = dec_allowed dec2"
      using assms(2) None d1 False by (auto simp: Take_def Allow_def split: prod.splits sum.splits if_splits)
    have "rl_step n (s\<lparr>rl_bucket := b1\<rparr>) (rl_put i s res r b)"
      using rl_step.single_reply[OF assms(1), of "s\<lparr>rl_bucket := b1\<rparr>" dec2 b] d2 r
      by (simp add: rl_put_def)
    then show ?thesis using st1 s1 by auto
  qed
qed

subsection \<open>Properties\<close>



text \<open>
  A denial tells the caller how long to wait. If nobody else calls meanwhile, the same
  request at any instant from \<open>retry_after_ms\<close> later on is granted, provided it does not ask
  for more than the capacity; and the wait is never zero.
\<close>

theorem retry_after_suffices:
  assumes "0 < rate" "amount \<le> cap" "luaTokenBucket now rate cap amount b = (r, b')" "sr_allowed r = 0"
    and "now + sr_retry_after_ms r \<le> now'"
  shows "sr_allowed (fst (luaTokenBucket now' rate cap amount (Some b'))) = 1 \<and> 0 < sr_retry_after_ms r"
proof -
  let ?l = "bucket_level now rate cap b"
  have l: "?l < amount" and ra: "sr_retry_after_ms r = \<lceil>(amount - ?l) / rate * 1000\<rceil>"
    and b': "b' = \<lparr>bk_tokens = ?l, bk_ts = now\<rparr>"
    using assms(3,4) by (auto simp: luaTokenBucket_def Let_def split: if_splits)
  have pos: "0 < (amount - ?l) / rate * 1000" using l assms(1) by simp
  then have p: "0 < sr_retry_after_ms r" using ra by simp
  have "(amount - ?l) / rate * 1000 \<le> of_int (sr_retry_after_ms r)" using ra by simp
  also have "\<dots> \<le> of_int (now' - now)" using assms(5) by (simp only: of_int_le_iff)
  finally have "amount - ?l \<le> of_int (now' - now) / 1000 * rate" using assms(1) by (simp add: field_simps)
  then have "amount \<le> bucket_level now' rate cap (Some b')"
    using assms(2,5) p b' by (simp add: bucket_level_def Let_def max_def)
  then show ?thesis using p by (simp add: luaTokenBucket_def Let_def)
qed

theorem retry_after_suffices_witness:
  "sr_allowed (fst (luaTokenBucket 10 100 100 1 (Some (snd (luaTokenBucket 0 100 100 1 (Some \<lparr>bk_tokens = 0, bk_ts = 0\<rparr>)))))) = 1"
proof -
  let ?x = "luaTokenBucket 0 100 100 1 (Some \<lparr>bk_tokens = 0, bk_ts = 0\<rparr>)"
  have "?x = (\<lparr>sr_allowed = 0, sr_retry_after_ms = 10, sr_tokens = 0\<rparr>, \<lparr>bk_tokens = 0, bk_ts = 0\<rparr>)"
    by (simp add: luaTokenBucket_def bucket_level_def)
  then show ?thesis using retry_after_suffices[of 100 1 100 0 _ "fst ?x" "snd ?x" 10] by simp
qed

text \<open>
  The bound needs one clock: the script stores the caller's time even when it is behind, so two
  callers whose clocks differ by a second refill the bucket twice.
\<close>

lemma skew_refills_twice:
  "run_calls (script_call ratePerSec capacity) [(1000, 100), (0, 1), (1000, 100)] None =
     (200, Some \<lparr>bk_tokens = 0, bk_ts = 1000\<rparr>)"
  by (simp add: script_call_def luaTokenBucket_def bucket_level_def Let_def rl_params)

end
