(* ===== verification/Provider.thy ===== *)
theory Provider
  imports Envelope "HOL-Library.Word"
begin

text \<open>
  The outbound HTTP client of \<open>internal/provider\<close>: classification of every outcome of one POST,
  the retry decision, the redirect policy and the address filter (SSRF guard). What the network
  does is an argument (\<open>http_out\<close>); \<open>json_of\<close> stands for \<open>encoding/json\<close> reading bytes,
  \<open>time_ok\<close> for its acceptance of a timestamp, \<open>http_time\<close> for \<open>http.ParseTime\<close> and \<open>fmt_q\<close> for the \<open>%q\<close> verb.
\<close>

unbundle bit_operations_syntax

subsection \<open>Errors (httpclient.go)\<close>

datatype error_kind =
  ErrUnknown | ErrNetwork | ErrTimeout | ErrSSRFBlocked | ErrServer | ErrRateLimited | ErrClient

definition ErrorKind_String :: "error_kind \<Rightarrow> string" where
  "ErrorKind_String k =
     (case k of
        ErrNetwork \<Rightarrow> ''network''
      | ErrTimeout \<Rightarrow> ''timeout''
      | ErrSSRFBlocked \<Rightarrow> ''ssrf-blocked''
      | ErrServer \<Rightarrow> ''server-5xx''
      | ErrRateLimited \<Rightarrow> ''rate-limited''
      | ErrClient \<Rightarrow> ''client-4xx''
      | _ \<Rightarrow> ''unknown'')"

definition IsRetryable :: "error_kind \<Rightarrow> bool" where
  "IsRetryable k =
     (case k of ErrNetwork \<Rightarrow> True | ErrTimeout \<Rightarrow> True | ErrServer \<Rightarrow> True | ErrRateLimited \<Rightarrow> True
              | _ \<Rightarrow> False)"

record send_error =
  se_kind :: error_kind
  se_http_status :: int
  se_retry_after :: time
  se_underlying :: "string option"
  se_body :: string

definition SendError_Error :: "(string \<Rightarrow> string) \<Rightarrow> send_error \<Rightarrow> string" where
  "SendError_Error fmt_q e =
     (case se_underlying e of
        Some u \<Rightarrow> ''send ('' @ ErrorKind_String (se_kind e) @ '', status='' @ show_int (se_http_status e) @ ''): '' @ u
      | None \<Rightarrow> ''send ('' @ ErrorKind_String (se_kind e) @ '', status='' @ show_int (se_http_status e) @
                '', body='' @ fmt_q (se_body e) @ '')'')"

record send_request =
  sq_to :: string
  sq_channel :: string
  sq_content :: string

record send_response =
  sp_message_id :: string
  sp_status :: string
  sp_http_status :: int
  sp_raw_body :: string

subsection \<open>One call\<close>

record transport_error =
  te_message :: string
  te_deadline :: bool
  te_ssrf :: bool

datatype http_out =
    MarshalFails string
  | NewRequestFails string
  | TransportFails transport_error
  | Responds int string string

definition classifyTransportError :: "transport_error \<Rightarrow> send_error" where
  "classifyTransportError e =
     \<lparr>se_kind = (if te_deadline e then ErrTimeout else if te_ssrf e then ErrSSRFBlocked else ErrNetwork),
      se_http_status = 0, se_retry_after = 0, se_underlying = Some (te_message e), se_body = ''''\<rparr>"

text \<open>\<open>strings.TrimSpace\<close> on ASCII and \<open>Sscanf\<close> with \<open>%d\<close>: a sign, then as many digits as there are.\<close>

definition is_space :: "char \<Rightarrow> bool" where
  "is_space c \<longleftrightarrow> (let n = of_char c :: nat in n = 32 \<or> (9 \<le> n \<and> n \<le> 13))"

definition trim_space :: "string \<Rightarrow> string" where
  "trim_space s = rev (dropWhile is_space (rev (dropWhile is_space s)))"

definition scan_int :: "string \<Rightarrow> int option" where
  "scan_int s =
     (let (neg, t) = (case s of [] \<Rightarrow> (False, [])
                      | c # r \<Rightarrow> if c = CHR ''-'' then (True, r) else if c = CHR ''+'' then (False, r) else (False, s));
          ds = takeWhile is_digit t;
          v = (if neg then - int (digits_value ds) else int (digits_value ds))
      in if ds = [] \<or> \<not> (- (2 ^ 63) \<le> v \<and> v < 2 ^ 63) then None else Some v)"

definition int64 :: "int \<Rightarrow> int" where
  "int64 x = (x + 2 ^ 63) mod 2 ^ 64 - 2 ^ 63"

definition parseRetryAfter :: "(string \<Rightarrow> time option) \<Rightarrow> time \<Rightarrow> string \<Rightarrow> time" where
  "parseRetryAfter http_time now v0 =
     (let v = trim_space v0 in
      if v = '''' then 0
      else let secs = scan_int v in
        if secs \<noteq> None \<and> the secs > 0 then int64 (the secs * second)
        else (case http_time v of
                Some t \<Rightarrow> (let d = t - now in if d < 0 then 0 else d)
              | None \<Rightarrow> 0))"

text \<open>
  The tolerant decoding of a success body: message id and status. A member of the wrong type is
  left out; a timestamp that does not parse ends the decoding.
\<close>

fun response_members ::
  "(json \<Rightarrow> bool) \<Rightarrow> (string \<times> json) list \<Rightarrow> string \<times> string \<Rightarrow> string \<times> string" where
  "response_members time_ok [] acc = acc"
| "response_members time_ok ((k, v) # ms) (mid, st) =
     (if map to_lower k = ''timestamp'' \<and> \<not> time_ok v then (mid, st)
      else case v of
        JStr s \<Rightarrow>
          (if map to_lower k = ''messageid'' then response_members time_ok ms (s, st)
           else if map to_lower k = ''status'' then response_members time_ok ms (mid, s)
           else response_members time_ok ms (mid, st))
      | _ \<Rightarrow> response_members time_ok ms (mid, st))"

definition decode_response :: "(json \<Rightarrow> bool) \<Rightarrow> body \<Rightarrow> string \<times> string" where
  "decode_response time_ok b =
     (case b of Json (JObj ms) \<Rightarrow> response_members time_ok ms ('''', '''') | _ \<Rightarrow> ('''', ''''))"

definition body_cap :: nat where "body_cap = 64 * 1024"

definition Send ::
  "(string \<Rightarrow> body) \<Rightarrow> (json \<Rightarrow> bool) \<Rightarrow> (string \<Rightarrow> time option) \<Rightarrow> time \<Rightarrow> http_out \<Rightarrow>
   send_error + send_response" where
  "Send json_of time_ok http_time now out =
     (case out of
        MarshalFails e \<Rightarrow>
          Inl \<lparr>se_kind = ErrUnknown, se_http_status = 0, se_retry_after = 0,
               se_underlying = Some (''marshal: '' @ e), se_body = ''''\<rparr>
      | NewRequestFails e \<Rightarrow>
          Inl \<lparr>se_kind = ErrUnknown, se_http_status = 0, se_retry_after = 0,
               se_underlying = Some (''new request: '' @ e), se_body = ''''\<rparr>
      | TransportFails e \<Rightarrow> Inl (classifyTransportError e)
      | Responds code retry_hdr raw \<Rightarrow>
          (let respBody = take body_cap raw in
           if 200 \<le> code \<and> code < 300 then
             (let (mid, st) = decode_response time_ok (json_of respBody) in
              Inr \<lparr>sp_message_id = mid, sp_status = (if st = '''' then ''accepted'' else st),
                   sp_http_status = code, sp_raw_body = respBody\<rparr>)
           else if code = 408 \<or> code = 429 then
             Inl \<lparr>se_kind = (if code = 408 then ErrTimeout else ErrRateLimited), se_http_status = code,
                  se_retry_after = parseRetryAfter http_time now retry_hdr, se_underlying = None,
                  se_body = respBody\<rparr>
           else if code \<ge> 500 then
             Inl \<lparr>se_kind = ErrServer, se_http_status = code, se_retry_after = 0, se_underlying = None,
                  se_body = respBody\<rparr>
           else
             Inl \<lparr>se_kind = ErrClient, se_http_status = code, se_retry_after = 0, se_underlying = None,
                  se_body = respBody\<rparr>))"

subsection \<open>Construction and redirects\<close>

text \<open>\<open>parsed\<close> is what \<open>url.Parse\<close> makes of the endpoint: an error, or scheme and host.\<close>

record http_client =
  hc_endpoint :: string
  hc_user_agent :: string
  hc_host :: string
  hc_ssrf_guard :: bool

definition defaultIfEmpty :: "string \<Rightarrow> string \<Rightarrow> string" where
  "defaultIfEmpty s fallback = (if s = '''' then fallback else s)"

definition NewWithOptions ::
  "(string \<Rightarrow> string) \<Rightarrow> string \<Rightarrow> string + (string \<times> string) \<Rightarrow> string \<Rightarrow> bool \<Rightarrow> string + http_client" where
  "NewWithOptions fmt_q endpoint parsed userAgent allowPrivate =
     (if endpoint = '''' then Inl ''provider: endpoint required''
      else case parsed of
        Inl e \<Rightarrow> Inl (''provider: parse endpoint: '' @ e)
      | Inr (scheme, host) \<Rightarrow>
          if scheme \<noteq> ''http'' \<and> scheme \<noteq> ''https'' then Inl (''provider: unsupported scheme '' @ fmt_q scheme)
          else Inr \<lparr>hc_endpoint = endpoint, hc_user_agent = defaultIfEmpty userAgent ''notifyd/0.1'',
                    hc_host = host, hc_ssrf_guard = \<not> allowPrivate\<rparr>)"

text \<open>\<open>CheckRedirect\<close>: \<open>via\<close> is the number of requests made so far.\<close>

definition CheckRedirect :: "http_client \<Rightarrow> string \<Rightarrow> nat \<Rightarrow> bool" where
  "CheckRedirect c host via \<longleftrightarrow> via < 2 \<and> host = hc_host c"

text \<open>The hops of \<open>net/http\<close>: each redirect is checked before it is followed.\<close>

fun follow :: "http_client \<Rightarrow> nat \<Rightarrow> string list \<Rightarrow> string list" where
  "follow c via [] = []"
| "follow c via (h # hs) = (if CheckRedirect c h via then h # follow c (Suc via) hs else [])"

subsection \<open>The address filter (ssrf.go)\<close>

datatype ip_addr = IPv4 "32 word" | IPv6 "128 word"

definition v4_of_bytes :: "nat \<Rightarrow> nat \<Rightarrow> nat \<Rightarrow> nat \<Rightarrow> 32 word" where
  "v4_of_bytes a b c d = of_nat (((a * 256 + b) * 256 + c) * 256 + d)"

text \<open>\<open>netip.Prefix.Contains\<close>: families must match, and the first \<open>n\<close> bits must agree.\<close>

definition in_v4 :: "32 word \<Rightarrow> nat \<Rightarrow> ip_addr \<Rightarrow> bool" where
  "in_v4 p n ip = (case ip of IPv4 a \<Rightarrow> drop_bit (32 - n) a = drop_bit (32 - n) p | IPv6 _ \<Rightarrow> False)"

definition in_v6 :: "128 word \<Rightarrow> nat \<Rightarrow> ip_addr \<Rightarrow> bool" where
  "in_v6 p n ip = (case ip of IPv6 a \<Rightarrow> drop_bit (128 - n) a = drop_bit (128 - n) p | IPv4 _ \<Rightarrow> False)"

text \<open>The predicates of \<open>net/netip\<close> look through an IPv4-mapped IPv6 address; \<open>Contains\<close> does not.\<close>

definition Unmap :: "ip_addr \<Rightarrow> ip_addr" where
  "Unmap ip = (case ip of
      IPv4 a \<Rightarrow> IPv4 a
    | IPv6 a \<Rightarrow> if drop_bit 32 a = 0xFFFF then IPv4 (ucast a) else IPv6 a)"

definition IsLoopback :: "ip_addr \<Rightarrow> bool" where
  "IsLoopback ip = (case Unmap ip of IPv4 a \<Rightarrow> drop_bit 24 a = 127 | IPv6 a \<Rightarrow> a = 1)"

definition IsLinkLocalUnicast :: "ip_addr \<Rightarrow> bool" where
  "IsLinkLocalUnicast ip =
     (case Unmap ip of IPv4 a \<Rightarrow> drop_bit 16 a = 169 * 256 + 254 | IPv6 a \<Rightarrow> drop_bit 118 a = 0xFE80 div 64)"

definition IsLinkLocalMulticast :: "ip_addr \<Rightarrow> bool" where
  "IsLinkLocalMulticast ip =
     (case Unmap ip of IPv4 a \<Rightarrow> drop_bit 8 a = 224 * 65536 | IPv6 a \<Rightarrow> drop_bit 112 a AND 0xFF0F = 0xFF02)"

definition IsUnspecified :: "ip_addr \<Rightarrow> bool" where
  "IsUnspecified ip \<longleftrightarrow> ip = IPv4 0 \<or> ip = IPv6 0"

definition denyZone :: "ip_addr \<Rightarrow> string option" where
  "denyZone ip =
     (if ip = IPv4 (v4_of_bytes 169 254 169 254) then Some ''metadata''
      else if IsLoopback ip then Some ''loopback''
      else if IsLinkLocalUnicast ip \<or> IsLinkLocalMulticast ip then Some ''link-local''
      else if IsUnspecified ip then Some ''unspecified''
      else if in_v4 (v4_of_bytes 10 0 0 0) 8 ip \<or> in_v4 (v4_of_bytes 172 16 0 0) 12 ip \<or>
              in_v4 (v4_of_bytes 192 168 0 0) 16 ip then Some ''rfc1918''
      else if in_v4 (v4_of_bytes 100 64 0 0) 10 ip then Some ''cgnat''
      else if in_v6 (push_bit 120 0xFC) 7 ip then Some ''unique-local-v6''
      else None)"

text \<open>The \<open>Control\<close> hook: an address that is no \<open>host:port\<close>, or whose host is no IP, is let through.\<close>

datatype dial_target = NoHostPort | NoIP | DialIP ip_addr

definition ssrfControl :: "dial_target \<Rightarrow> string option" where
  "ssrfControl t = (case t of NoHostPort \<Rightarrow> None | NoIP \<Rightarrow> None | DialIP ip \<Rightarrow> denyZone ip)"

subsection \<open>Lemmas\<close>

lemma SendError_Error_Cons: "\<exists>s. SendError_Error fmt_q e = CHR ''s'' # s"
  by (simp add: SendError_Error_def split: option.splits)

lemma div_eq_range:
  assumes "0 < (m::nat)"
  shows "x div m = c \<longleftrightarrow> c * m \<le> x \<and> x < (c + 1) * m"
proof
  assume "x div m = c"
  then show "c * m \<le> x \<and> x < (c + 1) * m"
    using div_times_less_eq_dividend[of x m] dividend_less_times_div[OF assms, of x]
    by (simp add: algebra_simps)
qed (auto intro: div_nat_eqI simp: algebra_simps)

lemma unat_drop_bit32: "unat (drop_bit n (a :: 32 word)) = unat a div 2 ^ n"
  by (subst unat_drop_bit_eq) (simp add: drop_bit_eq_div)

lemma drop_bit_eq_range:
  fixes a :: "32 word"
  assumes "c < 2 ^ 32"
  shows "drop_bit n a = of_nat c \<longleftrightarrow> c * 2 ^ n \<le> unat a \<and> unat a < (c + 1) * 2 ^ n"
proof -
  have "drop_bit n a = of_nat c \<longleftrightarrow> unat a div 2 ^ n = c"
    using assms by (simp add: word_unat_eq_iff unat_drop_bit32 unat_of_nat)
  then show ?thesis using div_eq_range[of "2 ^ n" "unat a" c] by simp
qed

text \<open>Addresses of the form \<open>a.b.c.d\<close> as numbers.\<close>

abbreviation quad :: "nat \<Rightarrow> nat \<Rightarrow> nat \<Rightarrow> nat \<Rightarrow> nat" where
  "quad a b c d \<equiv> ((a * 256 + b) * 256 + c) * 256 + d"

definition denied_v4 :: "nat \<Rightarrow> bool" where
  "denied_v4 x \<longleftrightarrow>
     x = quad 0 0 0 0 \<or>
     quad 10 0 0 0 \<le> x \<and> x \<le> quad 10 255 255 255 \<or>
     quad 100 64 0 0 \<le> x \<and> x \<le> quad 100 127 255 255 \<or>
     quad 127 0 0 0 \<le> x \<and> x \<le> quad 127 255 255 255 \<or>
     quad 169 254 0 0 \<le> x \<and> x \<le> quad 169 254 255 255 \<or>
     quad 172 16 0 0 \<le> x \<and> x \<le> quad 172 31 255 255 \<or>
     quad 192 168 0 0 \<le> x \<and> x \<le> quad 192 168 255 255 \<or>
     quad 224 0 0 0 \<le> x \<and> x \<le> quad 224 0 0 255"

lemma drop_bit_of_nat32: "x < 2 ^ 32 \<Longrightarrow> drop_bit n (of_nat x :: 32 word) = of_nat (x div 2 ^ n)"
  by (simp add: word_unat_eq_iff unat_drop_bit32 unat_of_nat le_less_trans[OF div_le_dividend])

lemma in_v4_range:
  assumes "p < 2 ^ 32"
  shows "in_v4 (of_nat p) n (IPv4 a) \<longleftrightarrow>
    p div 2 ^ (32 - n) * 2 ^ (32 - n) \<le> unat a \<and> unat a < (p div 2 ^ (32 - n) + 1) * 2 ^ (32 - n)"
  using assms le_less_trans[OF div_le_dividend assms, of "2 ^ (32 - n)"]
  by (simp add: in_v4_def drop_bit_of_nat32 drop_bit_eq_range)

subsection \<open>Properties\<close>

text \<open>
  The outcome of a call decides what the worker may do. \<open>Send\<close> succeeds exactly on a 2xx
  answer, whose body it keeps up to 64 KiB; every other outcome is an error that is retryable
  exactly for a deadline, for a transport failure other than a denied address, and for the
  statuses 408, 429 and 500 upwards.
\<close>

theorem Send_retry_decision:
  "case Send json_of time_ok http_time now out of
     Inr r \<Rightarrow> (\<exists>code h raw. out = Responds code h raw \<and> 200 \<le> code \<and> code < 300 \<and>
                sp_http_status r = code \<and> sp_raw_body r = take (64 * 1024) raw \<and> sp_status r \<noteq> [])
   | Inl e \<Rightarrow> (\<forall>code h raw. out = Responds code h raw \<longrightarrow> \<not> (200 \<le> code \<and> code < 300) \<and> se_http_status e = code) \<and>
       IsRetryable (se_kind e) =
         (case out of
            TransportFails te \<Rightarrow> te_deadline te \<or> \<not> te_ssrf te
          | Responds code h raw \<Rightarrow> code = 408 \<or> code = 429 \<or> 500 \<le> code
          | _ \<Rightarrow> False)"
  by (cases out)
     (auto simp: Send_def classifyTransportError_def IsRetryable_def body_cap_def Let_def split: prod.splits)

theorem Send_retry_decision_witness:
  "\<exists>e. Send (\<lambda>_. NotJson) (\<lambda>_. True) (\<lambda>_. None) 0 (Responds 503 [] ''busy'') = Inl e \<and> IsRetryable (se_kind e)"
proof -
  let ?out = "Responds 503 [] ''busy''"
  have "\<exists>e. Send (\<lambda>_. NotJson) (\<lambda>_. True) (\<lambda>_. None) 0 ?out = Inl e" by (simp add: Send_def)
  then show ?thesis
    using Send_retry_decision[where json_of = "\<lambda>_. NotJson" and time_ok = "\<lambda>_. True" and http_time = "\<lambda>_. None" and now = 0 and out = ?out]
    by auto
qed

text \<open>
  The address filter denies an IPv4 destination exactly when it lies in 0.0.0.0,
  10/8, 100.64/10, 127/8, 169.254/16, 172.16/12, 192.168/16 or 224.0.0/24.
\<close>

theorem denyZone_v4:
  "denyZone (IPv4 a) \<noteq> None \<longleftrightarrow> denied_v4 (unat a)"
proof -
  have lo: "IsLoopback (IPv4 a) \<longleftrightarrow> quad 127 0 0 0 \<le> unat a \<and> unat a \<le> quad 127 255 255 255"
    using drop_bit_eq_range[of 127 24 a] by (simp add: IsLoopback_def Unmap_def less_Suc_eq_le[symmetric])
  have ll: "IsLinkLocalUnicast (IPv4 a) \<longleftrightarrow> quad 169 254 0 0 \<le> unat a \<and> unat a \<le> quad 169 254 255 255"
    using drop_bit_eq_range[of "169 * 256 + 254" 16 a]
    by (simp add: IsLinkLocalUnicast_def Unmap_def less_Suc_eq_le[symmetric])
  have lm: "IsLinkLocalMulticast (IPv4 a) \<longleftrightarrow> quad 224 0 0 0 \<le> unat a \<and> unat a \<le> quad 224 0 0 255"
    using drop_bit_eq_range[of "224 * 65536" 8 a]
    by (simp add: IsLinkLocalMulticast_def Unmap_def less_Suc_eq_le[symmetric])
  have un: "IsUnspecified (IPv4 a) \<longleftrightarrow> unat a = 0"
    by (simp add: IsUnspecified_def unat_eq_0)
  have p10: "in_v4 (v4_of_bytes 10 0 0 0) 8 (IPv4 a) \<longleftrightarrow> quad 10 0 0 0 \<le> unat a \<and> unat a \<le> quad 10 255 255 255"
    unfolding v4_of_bytes_def by (subst in_v4_range) (auto simp: less_Suc_eq_le[symmetric])
  have p172: "in_v4 (v4_of_bytes 172 16 0 0) 12 (IPv4 a) \<longleftrightarrow> quad 172 16 0 0 \<le> unat a \<and> unat a \<le> quad 172 31 255 255"
    unfolding v4_of_bytes_def by (subst in_v4_range) (auto simp: less_Suc_eq_le[symmetric])
  have p192: "in_v4 (v4_of_bytes 192 168 0 0) 16 (IPv4 a) \<longleftrightarrow> quad 192 168 0 0 \<le> unat a \<and> unat a \<le> quad 192 168 255 255"
    unfolding v4_of_bytes_def by (subst in_v4_range) (auto simp: less_Suc_eq_le[symmetric])
  have p100: "in_v4 (v4_of_bytes 100 64 0 0) 10 (IPv4 a) \<longleftrightarrow> quad 100 64 0 0 \<le> unat a \<and> unat a \<le> quad 100 127 255 255"
    unfolding v4_of_bytes_def by (subst in_v4_range) (auto simp: less_Suc_eq_le[symmetric])
  have meta: "a = v4_of_bytes 169 254 169 254 \<Longrightarrow> unat a = quad 169 254 169 254"
    by (simp add: v4_of_bytes_def unat_of_nat)
  have v6: "\<not> in_v6 p n (IPv4 a)" for p n by (simp add: in_v6_def)
  show ?thesis
    unfolding denyZone_def denied_v4_def lo ll lm un p10 p172 p192 p100 using meta v6 by auto
qed

text \<open>
  A redirect is followed at most once and only to the configured host, whatever the
  provider answers: \<open>net/http\<close> asks with the number of requests already made, which is at
  least one.
\<close>

theorem redirects_stay_on_host:
  "length (follow c 1 hosts) \<le> 1 \<and> set (follow c 1 hosts) \<subseteq> {hc_host c}"
proof -
  have "follow c (Suc (Suc k)) hs = []" for k hs by (cases hs) (auto simp: CheckRedirect_def)
  from this[of 0] show ?thesis by (cases hosts) (auto simp: CheckRedirect_def)
qed

end
