(* ===== verification/Events.thy ===== *)
theory Events
  imports Prelude
begin

text \<open>The status event of \<open>internal/events\<close>, fanned out over Redis Pub/Sub to the WebSocket hubs.\<close>

record status_event =
  ev_notification_id :: uuid
  ev_batch_id :: "uuid option"
  ev_channel :: string
  ev_status :: string
  ev_at :: time
  ev_correlation_id :: string
  ev_created_by :: "uuid option"

text \<open>
  \<open>Publish\<close> is best effort: the payloads that reach the subscribed hubs. \<open>marshal\<close> is the JSON printer, which may
  refuse, and \<open>lost\<close> says that the call to Redis failed.
\<close>

definition events_Publish :: "(status_event \<Rightarrow> string option) \<Rightarrow> bool \<Rightarrow> status_event \<Rightarrow> string list" where
  "events_Publish marshal lost ev =
     (case marshal ev of None \<Rightarrow> [] | Some body \<Rightarrow> if lost then [] else [body])"

end
