(* ===== verification/Worker.thy ===== *)
theory Worker
  imports Claim Queue Ratelimit Provider Events
begin

text \<open>
  The delivery pipeline of \<open>internal/worker\<close>. \<open>handle\<close> is the inner handler with all its early
  returns, \<open>Handle\<close> the wrapper with the redelivery cap and the timed requeue. The state holds the
  database, the channel's reservoir and its bucket in Redis, the publisher and the trace of
  external effects in the order they happen; an environment record says what every fallible
  call does. Libraries the sources only call are the fields of \<open>deps\<close>.
\<close>

subsection \<open>Circuit breaker settings (breaker.go)\<close>

datatype breaker_state = BrClosed | BrHalfOpen | BrOpen

definition breakerStateValue :: "breaker_state \<Rightarrow> nat" where
  "breakerStateValue s = (case s of BrOpen \<Rightarrow> 1 | BrHalfOpen \<Rightarrow> 2 | _ \<Rightarrow> 0)"

record counts =
  ct_requests :: nat
  ct_total_failures :: nat
  ct_consecutive_failures :: nat

definition ReadyToTrip :: "counts \<Rightarrow> bool" where
  "ReadyToTrip c =
     (if 5 \<le> ct_consecutive_failures c then True
      else if 20 \<le> ct_requests c
        then rat_of_nat (ct_total_failures c) / rat_of_nat (ct_requests c) > 1 / 2
      else False)"

subsection \<open>Dependencies, configuration and state\<close>

record deps =
  uuid_str :: "uuid \<Rightarrow> string"
  uuid_parse :: "string \<Rightarrow> uuid option"
  fmt_q :: "string \<Rightarrow> string"
  json_of :: "string \<Rightarrow> body"
  time_ok :: "json \<Rightarrow> bool"
  http_time :: "string \<Rightarrow> time option"
  err_open_state :: string
  err_too_many :: string
  db_err_text :: "db_error \<Rightarrow> string"

record pipeline =
  pl_channel :: string
  pl_has_pub :: bool
  pl_has_events :: bool
  pl_max_attempts :: int

definition new_pipeline :: "string \<Rightarrow> bool \<Rightarrow> bool \<Rightarrow> pipeline" where
  "new_pipeline ch pub evs =
     \<lparr>pl_channel = ch, pl_has_pub = pub, pl_has_events = evs, pl_max_attempts = 10\<rparr>"

datatype effect =
    ESetNX string bool
  | EDel string
  | ECall send_request string
  | EAccepted message
  | EEvent status_event

record wstate =
  w_db :: db
  w_res :: reservoir
  w_bucket :: "bucket option"
  w_pub :: publisher
  w_trace :: "effect list"

definition emit :: "effect list \<Rightarrow> wstate \<Rightarrow> wstate" where
  "emit es st = st\<lparr>w_trace := w_trace st @ es\<rparr>"

text \<open>A statement whose error the code only logs, or drops.\<close>

definition exec :: "fault \<Rightarrow> 'a stmt \<Rightarrow> wstate \<Rightarrow> wstate" where
  "exec f q st = st\<lparr>w_db := snd (run_stmt f q (w_db st))\<rparr>"

subsection \<open>Environment of one delivery\<close>

text \<open>One \<open>Take\<close>: the script's clock and failures, and what other workers do to the reservoir meanwhile.\<close>

record take_env =
  tk_now_ms :: int
  tk_batch_fails :: "string option"
  tk_single_now_ms :: int
  tk_single_fails :: "string option"
  tk_others :: "reservoir \<Rightarrow> reservoir"

record iter_env =
  it_ctx_done :: bool
  it_delay :: nat
  it_take :: take_env

datatype breaker_out = BreakerOpen | BreakerTooMany | BreakerCall http_out

record handle_env =
  he_cas_fault :: fault
  he_cas_now :: time
  he_setnx :: "bool option"
  he_take :: take_env
  he_loop_start :: time
  he_iters :: "nat \<Rightarrow> iter_env"
  he_breaker :: breaker_out
  he_clock :: time
  he_db_now :: time
  he_revert_fault :: fault
  he_attempt_fault :: fault
  he_dead_fault :: fault
  he_dlrow_fault :: fault
  he_sent_fault :: fault
  he_amqp :: amqp_out
  he_requeue_amqp :: amqp_out

subsection \<open>Helpers (pipeline.go)\<close>

definition handleTimeout :: time where "handleTimeout = 30 * second"
definition maxRedeliveries :: int where "maxRedeliveries = 20"
definition inflightTTL :: time where "inflightTTL = 60 * second"
definition bucketRefillCeiling :: time where "bucketRefillCeiling = 1 * second"
definition totalInlineBudget :: time where "totalInlineBudget = 5 * second"

definition header :: "headers \<Rightarrow> string \<Rightarrow> hval option" where
  "header h k = map_of h k"

definition currentRedeliveries :: "headers \<Rightarrow> int" where
  "currentRedeliveries h = (case header h ''x-redeliveries'' of Some (HInt32 n) \<Rightarrow> n | _ \<Rightarrow> 0)"

definition httpStatusOf :: "send_error \<Rightarrow> int option" where
  "httpStatusOf e = (if se_http_status e > 0 then Some (i32 (se_http_status e)) else None)"

definition attemptLabel :: "int \<Rightarrow> string" where
  "attemptLabel a = (if a \<ge> 5 then ''5+'' else show_int a)"

definition inflightKey :: "deps \<Rightarrow> uuid \<Rightarrow> string" where
  "inflightKey dp nid = ''delivery_inflight:'' @ uuid_str dp nid"

definition emitStatus ::
  "pipeline \<Rightarrow> time \<Rightarrow> uuid \<Rightarrow> uuid option \<Rightarrow> uuid option \<Rightarrow> string \<Rightarrow> string \<Rightarrow> wstate \<Rightarrow> wstate" where
  "emitStatus p now nid bid owner st corr w =
     (if \<not> pl_has_events p then w
      else emit [EEvent \<lparr>ev_notification_id = nid, ev_batch_id = bid, ev_channel = pl_channel p,
                         ev_status = st, ev_at = now, ev_correlation_id = corr,
                         ev_created_by = owner\<rparr>] w)"

text \<open>Publishing to a wait tier; the result is the error, if any.\<close>

definition publish_wait ::
  "amqp_out \<Rightarrow> string \<Rightarrow> string \<Rightarrow> publish_message \<Rightarrow> wstate \<Rightarrow> string option \<times> wstate" where
  "publish_wait out ch tier m w =
     (let (err, p', ms) = PublishToWait (w_pub w) out ch tier m
      in (err, emit (map EAccepted ms) (w\<lparr>w_pub := p'\<rparr>)))"

definition routeToRetryTier ::
  "pipeline \<Rightarrow> amqp_out \<Rightarrow> int \<Rightarrow> body \<Rightarrow> envelope \<Rightarrow> wstate \<Rightarrow> string option \<times> wstate" where
  "routeToRetryTier p out attempt b env w =
     (if \<not> pl_has_pub p then (Some ''queue publisher unavailable'', w)
      else publish_wait out (env_Channel env) (WaitTierForAttempt attempt)
        \<lparr>pm_routing_key = RoutingKey (env_Channel env), pm_payload = b,
         pm_headers = [(''correlation_id'', HStr (env_CorrelationID env)),
                       (''notification_id'', HStr (env_NotificationID env)),
                       (''attempt'', HInt32 attempt)],
         pm_priority = priorityToAMQP (env_Priority env)\<rparr> w)"

definition requeueViaWaitTier :: "amqp_out \<Rightarrow> message \<Rightarrow> int \<Rightarrow> wstate \<Rightarrow> string option \<times> wstate" where
  "requeueViaWaitTier out d prev w =
     (let env = fst (unmarshal_envelope (m_body d)) in
      publish_wait out (env_Channel env) ''5s''
        \<lparr>pm_routing_key = RoutingKey (env_Channel env), pm_payload = m_body d,
         pm_headers = [(''x-redeliveries'', HInt32 (i32 (prev + 1))),
                       (''correlation_id'', HStr (env_CorrelationID env)),
                       (''notification_id'', HStr (env_NotificationID env))],
         pm_priority = priorityToAMQP (env_Priority env)\<rparr> w)"

text \<open>An ack when the retry-tier publish worked, otherwise its error.\<close>

definition via_tier :: "string option \<times> wstate \<Rightarrow> hres \<times> wstate" where
  "via_tier r = (case r of (None, w) \<Rightarrow> (HNil, w) | (Some e, w) \<Rightarrow> (HErr, w))"

subsection \<open>Step 4: the rate-limit gate\<close>

definition do_take :: "take_env \<Rightarrow> wstate \<Rightarrow> (string + take_result) \<times> wstate" where
  "do_take te w =
     (let (r, res', b') = Take (AllowN (tk_batch_fails te) (tk_now_ms te))
                               (AllowN (tk_single_fails te) (tk_single_now_ms te))
                               (tk_others te) (w_res w) (w_bucket w)
      in (r, w\<lparr>w_res := res', w_bucket := b'\<rparr>))"

datatype gate_out = GatePass | GateSustained | GateCtxDone | GateErr

text \<open>
  The inline wait: \<open>now\<close> is \<open>time.Now()\<close> at the head of the loop, \<open>k\<close> counts its turns. The timer
  fires no earlier than asked for; \<open>it_delay\<close> is everything the turn takes beyond that.
\<close>

function rl_loop :: "(nat \<Rightarrow> iter_env) \<Rightarrow> nat \<Rightarrow> time \<Rightarrow> time \<Rightarrow> nat \<Rightarrow> wstate \<Rightarrow> gate_out \<times> nat \<times> wstate" where
  "rl_loop it k deadline now wait w =
     (if int wait > bucketRefillCeiling \<or> now + int wait > deadline then (GateSustained, k, w)
      else let wait' = (if int wait < 5 * millisecond then 5 * millisecond else int wait) in
        if it_ctx_done (it k) then (GateCtxDone, k, w)
        else case do_take (it_take (it k)) w of
          (Inl e, w') \<Rightarrow> (GateErr, Suc k, w')
        | (Inr r, w') \<Rightarrow>
            if tr_allowed r then (GatePass, Suc k, w')
            else rl_loop it (Suc k) deadline (now + wait' + int (it_delay (it k))) (tr_retry_after r) w')"
  by pat_completeness auto

termination
  by (relation "measure (\<lambda>(it, k, deadline, now, wait, w). nat (deadline + 1 - now))")
     (auto simp: millisecond_def)

declare rl_loop.simps [simp del]

definition gate :: "handle_env \<Rightarrow> wstate \<Rightarrow> gate_out \<times> wstate" where
  "gate e w =
     (case do_take (he_take e) w of
        (Inl err, w') \<Rightarrow> (GateErr, w')
      | (Inr r, w') \<Rightarrow>
          if tr_allowed r then (GatePass, w')
          else (let (g, k, w'') = rl_loop (he_iters e) 0 (he_loop_start e + totalInlineBudget)
                                    (he_loop_start e) (tr_retry_after r) w'
                in (g, w'')))"

subsection \<open>Steps 6 to 8: the provider call and its outcome\<close>

definition insert_dead_letter :: "time \<Rightarrow> uuid \<Rightarrow> string \<Rightarrow> body \<Rightarrow> dead_letter stmt" where
  "insert_dead_letter now nid reason b =
     (case b of Json j \<Rightarrow> InsertDeadLetter now nid reason j
              | NotJson \<Rightarrow> (\<lambda>d. Inl (ErrConstraint ''invalid input syntax for type json'')))"

definition handle_failure ::
  "deps \<Rightarrow> pipeline \<Rightarrow> handle_env \<Rightarrow> message \<Rightarrow> envelope \<Rightarrow> notification \<Rightarrow> send_error \<Rightarrow> wstate \<Rightarrow> hres \<times> wstate" where
  "handle_failure dp p e d env row se w =
     (let nid = n_id row; attempt = i32 (n_attempt_count row + 1);
          errStr = SendError_Error (fmt_q dp) se;
          w1 = exec (he_attempt_fault e)
                 (InsertDeliveryAttempt nid attempt (he_clock e - 100 * millisecond) (Some (he_clock e))
                    False None (httpStatusOf se) (Some errStr) None) w
      in if IsRetryable (se_kind se) \<and> attempt < pl_max_attempts p then
           (let w2 = exec (he_revert_fault e) (RevertToQueued (he_db_now e) nid (Some errStr)) w1
            in via_tier (routeToRetryTier p (he_amqp e) attempt (m_body d) env w2))
         else
           (let w2 = exec (he_dead_fault e) (MarkDeadLetter (he_db_now e) nid errStr) w1;
                w3 = exec (he_dlrow_fault e)
                       (insert_dead_letter (he_db_now e) nid (truncate_str errStr 500) (m_body d)) w2;
                w4 = emitStatus p (he_clock e) nid (n_batch_id row) (n_created_by row) ''dead_letter''
                       (env_CorrelationID env) w3
            in (HTerminal, w4)))"

definition handle_success ::
  "deps \<Rightarrow> pipeline \<Rightarrow> handle_env \<Rightarrow> envelope \<Rightarrow> notification \<Rightarrow> send_response \<Rightarrow> wstate \<Rightarrow> hres \<times> wstate" where
  "handle_success dp p e env row resp w =
     (let nid = n_id row; attempt = i32 (n_attempt_count row + 1);
          w1 = exec (he_attempt_fault e)
                 (InsertDeliveryAttempt nid attempt (he_clock e - 100 * millisecond) (Some (he_clock e))
                    True (Some (sp_message_id resp)) (Some (i32 (sp_http_status resp))) None
                    (Some (sp_raw_body resp))) w
      in case run_stmt (he_sent_fault e) (MarkSent (he_db_now e) nid) (w_db w1) of
           (Inl err, d') \<Rightarrow>
             (HErr, exec (he_revert_fault e)
                      (RevertToQueued (he_db_now e) nid (Some (db_err_text dp err))) (w1\<lparr>w_db := d'\<rparr>))
         | (Inr r, d') \<Rightarrow>
             (HNil, emitStatus p (he_clock e) nid (n_batch_id row) (n_created_by row) ''sent''
                      (env_CorrelationID env) (w1\<lparr>w_db := d'\<rparr>)))"

definition breaker_open ::
  "deps \<Rightarrow> pipeline \<Rightarrow> handle_env \<Rightarrow> message \<Rightarrow> envelope \<Rightarrow> notification \<Rightarrow> string \<Rightarrow> wstate \<Rightarrow> hres \<times> wstate" where
  "breaker_open dp p e d env row errStr w =
     via_tier (routeToRetryTier p (he_amqp e) (i32 (n_attempt_count row + 1)) (m_body d) env
       (exec (he_revert_fault e) (RevertToQueuedNoAttempt (he_db_now e) (n_id row) (Some errStr)) w))"

definition handle_send ::
  "deps \<Rightarrow> pipeline \<Rightarrow> handle_env \<Rightarrow> message \<Rightarrow> envelope \<Rightarrow> notification \<Rightarrow> wstate \<Rightarrow> hres \<times> wstate" where
  "handle_send dp p e d env row w =
     (case he_breaker e of
        BreakerOpen \<Rightarrow> breaker_open dp p e d env row (err_open_state dp) w
      | BreakerTooMany \<Rightarrow> breaker_open dp p e d env row (err_too_many dp) w
      | BreakerCall out \<Rightarrow>
          (let w' = emit [ECall \<lparr>sq_to = env_Recipient env, sq_channel = env_Channel env,
                                 sq_content = env_Content env\<rparr> (env_CorrelationID env)] w in
           case Send (json_of dp) (time_ok dp) (http_time dp) (he_clock e) out of
             Inl se \<Rightarrow> handle_failure dp p e d env row se w'
           | Inr resp \<Rightarrow> handle_success dp p e env row resp w'))"

subsection \<open>The handler\<close>

text \<open>Steps 4 to 8, run while the in-flight lock is held; its release is deferred to the end.\<close>

definition handle_locked ::
  "deps \<Rightarrow> pipeline \<Rightarrow> handle_env \<Rightarrow> message \<Rightarrow> envelope \<Rightarrow> notification \<Rightarrow> wstate \<Rightarrow> hres \<times> wstate" where
  "handle_locked dp p e d env row w =
     (case gate e w of
        (GateErr, w') \<Rightarrow> (HErr, w')
      | (GateSustained, w') \<Rightarrow>
          via_tier (routeToRetryTier p (he_amqp e) 1 (m_body d) env
            (exec (he_revert_fault e) (RevertToQueuedNoAttempt (he_db_now e) (n_id row) None) w'))
      | (GateCtxDone, w') \<Rightarrow>
          (HErr, exec (he_revert_fault e) (RevertToQueuedNoAttempt (he_db_now e) (n_id row) None) w')
      | (GatePass, w') \<Rightarrow> handle_send dp p e d env row w')"

definition handle_cas ::
  "deps \<Rightarrow> pipeline \<Rightarrow> handle_env \<Rightarrow> message \<Rightarrow> envelope \<Rightarrow> uuid \<Rightarrow> wstate \<Rightarrow> hres \<times> wstate" where
  "handle_cas dp p e d env nid w =
     (case run_stmt (he_cas_fault e) (MarkSendingCAS (he_cas_now e) nid) (w_db w) of
        (Inl ErrNoRows, d') \<Rightarrow> (HNil, w\<lparr>w_db := d'\<rparr>)
      | (Inl err, d') \<Rightarrow> (HErr, w\<lparr>w_db := d'\<rparr>)
      | (Inr row, d') \<Rightarrow>
          (let w1 = w\<lparr>w_db := d'\<rparr>; key = inflightKey dp nid in
           case he_setnx e of
             None \<Rightarrow> (HErr, w1)
           | Some False \<Rightarrow>
               (HNil, exec (he_revert_fault e) (RevertToQueuedNoAttempt (he_db_now e) nid None)
                        (emit [ESetNX key False] w1))
           | Some True \<Rightarrow>
               (let (r, w2) = handle_locked dp p e d env row (emit [ESetNX key True] w1)
                in (r, emit [EDel key] w2))))"

definition handle :: "deps \<Rightarrow> pipeline \<Rightarrow> handle_env \<Rightarrow> message \<Rightarrow> wstate \<Rightarrow> hres \<times> wstate" where
  "handle dp p e d w =
     (case unmarshal_envelope (m_body d) of
        (env, False) \<Rightarrow> (HTerminal, w)
      | (env, True) \<Rightarrow>
          (case uuid_parse dp (env_NotificationID env) of
             None \<Rightarrow> (HTerminal, w)
           | Some nid \<Rightarrow> handle_cas dp p e d env nid w))"

text \<open>The wrapper: poison-message cap in front, timed requeue behind.\<close>

definition over_cap :: "message \<Rightarrow> bool" where
  "over_cap d = (case header (m_headers d) ''x-redeliveries'' of
                   Some (HInt32 n) \<Rightarrow> maxRedeliveries \<le> n | _ \<Rightarrow> False)"

definition Handle :: "deps \<Rightarrow> pipeline \<Rightarrow> handle_env \<Rightarrow> message \<Rightarrow> wstate \<Rightarrow> hres \<times> wstate" where
  "Handle dp p e d w =
     (if over_cap d then (HTerminal, w)
      else case handle dp p e d w of
        (HErr, w') \<Rightarrow>
          (if pl_has_pub p
           then (case requeueViaWaitTier (he_requeue_amqp e) d (currentRedeliveries (m_headers d)) w' of
                   (None, w'') \<Rightarrow> (HNil, w'')
                 | (Some err, w'') \<Rightarrow> (HErr, w''))
           else (HErr, w'))
      | (r, w') \<Rightarrow> (r, w'))"

subsection \<open>Frame: what the gate leaves alone\<close>

definition same_world :: "wstate \<Rightarrow> wstate \<Rightarrow> bool" where
  "same_world w w' \<longleftrightarrow> w_db w' = w_db w \<and> w_trace w' = w_trace w \<and> w_pub w' = w_pub w"

lemma same_world_refl [simp]: "same_world w w"
  by (simp add: same_world_def)

lemma same_world_trans: "same_world w w' \<Longrightarrow> same_world w' w'' \<Longrightarrow> same_world w w''"
  by (simp add: same_world_def)

lemma do_take_world: "do_take te w = (r, w') \<Longrightarrow> same_world w w'"
  by (auto simp: do_take_def same_world_def split: prod.splits)

lemma rl_loop_world: "rl_loop it k deadline now wait w = (g, k', w') \<Longrightarrow> same_world w w'"
proof (induction it k deadline now wait w rule: rl_loop.induct)
  case (1 it k deadline now wait w)
  show ?case
  proof (cases "int wait > bucketRefillCeiling \<or> now + int wait > deadline \<or> it_ctx_done (it k)")
    case True
    then show ?thesis using "1.prems" by (subst (asm) rl_loop.simps) (auto split: if_splits)
  next
    case False
    obtain r w1 where t: "do_take (it_take (it k)) w = (r, w1)" by fastforce
    note world = do_take_world[OF t]
    show ?thesis
    proof (cases r)
      case (Inl e)
      then show ?thesis using "1.prems" False t world by (subst (asm) rl_loop.simps) auto
    next
      case (Inr res)
      show ?thesis
      proof (cases "tr_allowed res")
        case True
        then show ?thesis using "1.prems" False t Inr world by (subst (asm) rl_loop.simps) auto
      next
        case no: False
        let ?w' = "if int wait < 5 * millisecond then 5 * millisecond else int wait"
        have "rl_loop it (Suc k) deadline (now + ?w' + int (it_delay (it k))) (tr_retry_after res) w1 = (g, k', w')"
          using "1.prems" False t Inr no by (subst (asm) rl_loop.simps) (simp add: Let_def)
        then have "same_world w1 w'"
          using "1.IH"[OF _ refl _ t[symmetric] Inr no] False by simp
        then show ?thesis using world same_world_trans by blast
      qed
    qed
  qed
qed

lemma gate_world: "gate e w = (g, w') \<Longrightarrow> same_world w w'"
  by (auto simp: gate_def dest!: do_take_world rl_loop_world intro: same_world_trans
      split: prod.splits sum.splits if_splits)

text \<open>The inline wait takes at most one turn per five milliseconds of its budget.\<close>

lemma rl_loop_turns:
  assumes "rl_loop it k deadline now wait w = (g, k', w')"
  shows "int k' \<le> int k + max 0 (deadline - now) div (5 * millisecond) + 1"
  using assms
proof (induction it k deadline now wait w rule: rl_loop.induct)
  case (1 it k deadline now wait w)
  let ?w' = "if int wait < 5 * millisecond then 5 * millisecond else int wait"
  let ?now = "now + ?w' + int (it_delay (it k))"
  have nn: "0 \<le> max 0 (deadline - now) div (5 * millisecond)"
    by (simp add: millisecond_def pos_imp_zdiv_nonneg_iff)
  show ?case
  proof (cases "int wait > bucketRefillCeiling \<or> now + int wait > deadline \<or> it_ctx_done (it k)")
    case True
    then have "k' = k" using "1.prems" by (subst (asm) rl_loop.simps) (auto split: if_splits)
    then show ?thesis using nn by linarith
  next
    case False
    obtain r w1 where t: "do_take (it_take (it k)) w = (r, w1)" by fastforce
    show ?thesis
    proof (cases "\<exists>res. r = Inr res \<and> \<not> tr_allowed res")
      case no: False
      then have "k' = Suc k"
        using "1.prems" False t by (subst (asm) rl_loop.simps) (auto split: sum.splits)
      then show ?thesis using nn by linarith
    next
      case True
      then obtain res where res: "r = Inr res" "\<not> tr_allowed res" by auto
      have "rl_loop it (Suc k) deadline ?now (tr_retry_after res) w1 = (g, k', w')"
        using "1.prems" False t res by (subst (asm) rl_loop.simps) (simp add: Let_def)
      then have ih: "int k' \<le> int (Suc k) + max 0 (deadline - ?now) div (5 * millisecond) + 1"
        using "1.IH"[OF _ refl _ t[symmetric] res] False by simp
      have "5 * millisecond \<le> ?w'" by simp
      show ?thesis
      proof (cases "?now \<le> deadline")
        case le: True
        have "max 0 (deadline - ?now) + 5 * millisecond \<le> max 0 (deadline - now)"
          using \<open>5 * millisecond \<le> ?w'\<close> le by (simp split: if_splits)
        then have "(max 0 (deadline - ?now) + 5 * millisecond) div (5 * millisecond)
              \<le> max 0 (deadline - now) div (5 * millisecond)"
          by (rule zdiv_mono1) (simp add: millisecond_def)
        then show ?thesis using ih by (simp add: millisecond_def)
      next
        case gt: False
        then have "int k' \<le> int k + 2" using ih by simp
        have "rl_loop it (Suc k) deadline ?now (tr_retry_after res) w1 = (GateSustained, Suc k, w1)"
          using gt by (subst rl_loop.simps) simp
        then have "k' = Suc k"
          using \<open>rl_loop it (Suc k) deadline ?now (tr_retry_after res) w1 = (g, k', w')\<close> by simp
        then show ?thesis using nn by linarith
      qed
    qed
  qed
qed

subsection \<open>The schema invariant along a delivery\<close>

lemma exec_wf: "keeps_wf q \<Longrightarrow> db_wf (w_db w) \<Longrightarrow> db_wf (w_db (exec f q w))"
  by (simp add: exec_def keeps_wf_run_stmt)

lemma insert_dead_letter_wf [wf_intros]: "keeps_wf (insert_dead_letter now nid reason b)"
  by (cases b) (auto simp: insert_dead_letter_def intro: wf_intros keeps_wfI)

lemma emit_simps [simp]:
  "w_db (emit es w) = w_db w" "w_trace (emit es w) = w_trace w @ es" "w_pub (emit es w) = w_pub w"
  "w_res (emit es w) = w_res w" "w_bucket (emit es w) = w_bucket w"
  by (simp_all add: emit_def)

lemma exec_simps [simp]:
  "w_trace (exec f q w) = w_trace w" "w_pub (exec f q w) = w_pub w"
  by (simp_all add: exec_def)

lemma emitStatus_db [simp]: "w_db (emitStatus p now nid bid owner st corr w) = w_db w"
  by (simp add: emitStatus_def)

lemma publish_wait_db: "publish_wait out ch tier m w = (r, w') \<Longrightarrow> w_db w' = w_db w"
  by (auto simp: publish_wait_def split: prod.splits)

lemma routeToRetryTier_db: "routeToRetryTier p out a b env w = (r, w') \<Longrightarrow> w_db w' = w_db w"
  by (auto simp: routeToRetryTier_def dest: publish_wait_db split: if_splits)

lemma via_tier_route_db:
  "w_db (snd (via_tier (routeToRetryTier p out a b env w))) = w_db w"
  by (auto simp: via_tier_def dest: routeToRetryTier_db split: prod.splits option.splits)

lemma handle_cas_cases:
  assumes "handle_cas dp p e d env nid w = (r, w')"
  obtains (gone) "MarkSendingCAS (he_cas_now e) nid (w_db w) = Inl ErrNoRows" "r = HNil" "w' = w"
  | (failed) err d' where "run_stmt (he_cas_fault e) (MarkSendingCAS (he_cas_now e) nid) (w_db w) = (Inl err, d')"
      "err \<noteq> ErrNoRows" "r = HErr" "w' = w\<lparr>w_db := d'\<rparr>"
  | (setnx_failed) row d' where "MarkSendingCAS (he_cas_now e) nid (w_db w) = Inr (row, d')"
      "he_setnx e = None" "r = HErr" "w' = w\<lparr>w_db := d'\<rparr>"
  | (busy) row d' where "MarkSendingCAS (he_cas_now e) nid (w_db w) = Inr (row, d')" "he_setnx e = Some False" "r = HNil"
      "w' = exec (he_revert_fault e) (RevertToQueuedNoAttempt (he_db_now e) nid None)
              (emit [ESetNX (inflightKey dp nid) False] (w\<lparr>w_db := d'\<rparr>))"
  | (locked) row d' w2 where "MarkSendingCAS (he_cas_now e) nid (w_db w) = Inr (row, d')" "he_setnx e = Some True"
      "handle_locked dp p e d env row (emit [ESetNX (inflightKey dp nid) True] (w\<lparr>w_db := d'\<rparr>)) = (r, w2)"
      "w' = emit [EDel (inflightKey dp nid)] w2"
proof -
  obtain x d' where run: "run_stmt (he_cas_fault e) (MarkSendingCAS (he_cas_now e) nid) (w_db w) = (x, d')"
    by fastforce
  show thesis
  proof (cases x)
    case (Inl err)
    show thesis
    proof (cases "err = ErrNoRows")
      case True
      have nr: "MarkSendingCAS (he_cas_now e) nid (w_db w) = Inl ErrNoRows \<and> d' = w_db w"
        using run_stmt_NoRows run Inl True by blast
      have "(r, w') = (HNil, w\<lparr>w_db := d'\<rparr>)" using assms run Inl True by (simp add: handle_cas_def)
      then show thesis using nr by (intro gone) auto
    next
      case False
      then have "(r, w') = (HErr, w\<lparr>w_db := d'\<rparr>)"
        using assms run Inl by (cases err) (simp_all add: handle_cas_def)
      then show thesis using failed[of err d'] False run Inl by simp
    qed
  next
    case (Inr row)
    note q = run_stmt_Inr[OF run[unfolded Inr]]
    show thesis
    proof (cases "he_setnx e")
      case None
      then show thesis using setnx_failed[OF q] assms run Inr by (simp add: handle_cas_def)
    next
      case (Some got)
      then show thesis
        using busy[OF q] locked[OF q] assms run Inr
        by (cases got) (auto simp: handle_cas_def Let_def split: prod.splits)
    qed
  qed
qed

lemma handle_cases:
  assumes "handle dp p e d w = (r, w')"
  obtains (malformed) "r = HTerminal" "w' = w"
    "\<not> snd (unmarshal_envelope (m_body d)) \<or> uuid_parse dp (env_NotificationID (fst (unmarshal_envelope (m_body d)))) = None"
  | (decoded) env nid where "unmarshal_envelope (m_body d) = (env, True)"
      "uuid_parse dp (env_NotificationID env) = Some nid" "handle_cas dp p e d env nid w = (r, w')"
  using assms by (auto simp: handle_def split: prod.splits bool.splits option.splits)

text \<open>
  What the statements of the pipeline keep, a delivery keeps, whatever it meets: proved once for any
  predicate on the database.
\<close>

locale delivery_invariant =
  fixes P :: "db \<Rightarrow> bool"
  assumes kp_sending: "keeps P (MarkSendingCAS now nid)"
    and kp_sent: "keeps P (MarkSent now nid)"
    and kp_revert: "keeps P (RevertToQueued now nid er)"
    and kp_revert_no_attempt: "keeps P (RevertToQueuedNoAttempt now nid er)"
    and kp_dead: "keeps P (MarkDeadLetter now nid err)"
    and kp_dead_row: "keeps P (InsertDeadLetter now nid reason j)"
    and kp_attempt: "keeps P (InsertDeliveryAttempt nid att t0 t1 ok mid http er rb)"
begin

lemma kp_insert_dead_letter: "keeps P (insert_dead_letter now nid reason b)"
  using kp_dead_row by (cases b) (auto simp: insert_dead_letter_def keeps_def)

lemma exec_keeps: "keeps P q \<Longrightarrow> P (w_db w) \<Longrightarrow> P (w_db (exec f q w))"
  by (simp add: exec_def keeps_run)

lemmas kp = exec_keeps kp_sending kp_sent kp_revert kp_revert_no_attempt kp_dead kp_insert_dead_letter kp_attempt

lemma failure_keeps: "P (w_db w) \<Longrightarrow> P (w_db (snd (handle_failure dp p e d env row se w)))"
  by (simp add: handle_failure_def Let_def via_tier_route_db kp)

lemma success_keeps:
  assumes "P (w_db w)"
  shows "P (w_db (snd (handle_success dp p e env row resp w)))"
proof -
  define w1 where "w1 = exec (he_attempt_fault e)
      (InsertDeliveryAttempt (n_id row) (i32 (n_attempt_count row + 1)) (he_clock e - 100 * millisecond)
         (Some (he_clock e)) True (Some (sp_message_id resp)) (Some (i32 (sp_http_status resp))) None
         (Some (sp_raw_body resp))) w"
  obtain r d' where r: "run_stmt (he_sent_fault e) (MarkSent (he_db_now e) (n_id row)) (w_db w1) = (r, d')"
    by fastforce
  have "P (w_db w1)" unfolding w1_def by (intro kp assms)
  then have "P d'" using keeps_run[OF kp_sent] r by (metis snd_conv)
  then show ?thesis
    unfolding handle_success_def Let_def w1_def[symmetric] r by (auto split: sum.splits intro!: kp)
qed

lemma locked_keeps:
  assumes "P (w_db w)"
  shows "P (w_db (snd (handle_locked dp p e d env row w)))"
proof -
  obtain g w' where g: "gate e w = (g, w')" by fastforce
  then have wf: "P (w_db w')" using gate_world[OF g] assms by (simp add: same_world_def)
  show ?thesis
    using wf unfolding handle_locked_def g
    by (auto simp: handle_send_def breaker_open_def via_tier_route_db Let_def
        intro!: kp failure_keeps success_keeps split: gate_out.splits breaker_out.splits sum.splits)
qed

lemma cas_keeps:
  assumes "P (w_db w)" "handle_cas dp p e d env nid w = (r, w')"
  shows "P (w_db w')"
  using assms(2)
proof (cases rule: handle_cas_cases)
  case (failed err d')
  then show ?thesis using keeps_run[OF kp_sending assms(1)] by (metis snd_conv wstate.select_convs(1) wstate.surjective wstate.update_convs(1))
next
  case (locked row d' w2)
  then show ?thesis
    using locked_keeps[of "emit [ESetNX (inflightKey dp nid) True] (w\<lparr>w_db := d'\<rparr>)" dp p e d env row]
      keepsD[OF kp_sending assms(1)] by auto
qed (use assms(1) keepsD[OF kp_sending assms(1)] in \<open>auto intro!: kp\<close>)

lemma Handle_keeps:
  assumes "P (w_db w)" "Handle dp p e d w = (r, w')"
  shows "P (w_db w')"
proof -
  have h: "P (w_db w1)" if "handle dp p e d w = (x, w1)" for x w1
    using that by (cases rule: handle_cases) (use assms(1) cas_keeps in blast)+
  show ?thesis
    using assms h
    by (auto simp: Handle_def requeueViaWaitTier_def Let_def dest!: publish_wait_db split: if_splits prod.splits hres.splits option.splits)
qed

end

interpretation delivery_wf: delivery_invariant db_wf
  by unfold_locales (auto simp: keeps_wf_keeps intro: wf_intros)

subsection \<open>The trace of a delivery\<close>

definition is_call :: "effect \<Rightarrow> bool" where
  "is_call x = (case x of ECall _ _ \<Rightarrow> True | _ \<Rightarrow> False)"

definition quiet :: "effect \<Rightarrow> bool" where
  "quiet x = (case x of EAccepted _ \<Rightarrow> True | EEvent _ \<Rightarrow> True | _ \<Rightarrow> False)"

text \<open>The event of a status change of a row, and the effects that settle a delivery of that row.\<close>

definition event_of :: "pipeline \<Rightarrow> notification \<Rightarrow> status_event \<Rightarrow> bool" where
  "event_of p row ev \<longleftrightarrow>
     ev_notification_id ev = n_id row \<and> ev_batch_id ev = n_batch_id row \<and> ev_created_by ev = n_created_by row \<and>
     ev_channel ev = pl_channel p"

definition settling :: "pipeline \<Rightarrow> notification \<Rightarrow> effect \<Rightarrow> bool" where
  "settling p row x = (case x of EAccepted _ \<Rightarrow> True | EEvent ev \<Rightarrow> event_of p row ev | _ \<Rightarrow> False)"

lemma quiet_accepted [simp]: "list_all quiet (map EAccepted ms)" "list_all (settling p row) (map EAccepted ms)"
  by (induction ms) (auto simp: quiet_def settling_def)

lemma settling_quiet: "list_all (settling p row) es \<Longrightarrow> list_all quiet es"
  by (induction es) (auto simp: settling_def quiet_def split: effect.splits)

lemma publish_wait_trace:
  "publish_wait out ch tier m w = (r, w') \<Longrightarrow> \<exists>ms. w_trace w' = w_trace w @ map EAccepted ms"
  by (auto simp: publish_wait_def split: prod.splits)

lemma route_trace:
  "\<exists>es. w_trace (snd (via_tier (routeToRetryTier p out a b env w))) = w_trace w @ es \<and> list_all (settling p row) es"
proof (cases "pl_has_pub p")
  case True
  obtain r w' where r: "routeToRetryTier p out a b env w = (r, w')" by fastforce
  then have "\<exists>ms. w_trace w' = w_trace w @ map EAccepted ms"
    using True by (intro publish_wait_trace) (simp add: routeToRetryTier_def)
  then show ?thesis using r quiet_accepted by (cases r) (auto simp: via_tier_def)
qed (auto simp: routeToRetryTier_def via_tier_def intro: exI[of _ "[]"])

lemma emitStatus_trace:
  "\<exists>es. w_trace (emitStatus p now (n_id row) (n_batch_id row) (n_created_by row) st corr w) = w_trace w @ es \<and> list_all (settling p row) es"
  by (cases "pl_has_events p") (auto simp: emitStatus_def settling_def event_of_def)

lemma route_trace_from:
  "w_trace w = t \<Longrightarrow>
   \<exists>es. w_trace (snd (via_tier (routeToRetryTier p out a b env w))) = t @ es \<and> list_all (settling p row) es"
  using route_trace[of p out a b env w row] by simp

lemma emitStatus_trace_from:
  "w_trace w = t \<Longrightarrow>
   \<exists>es. w_trace (emitStatus p now (n_id row) (n_batch_id row) (n_created_by row) st corr w) = t @ es \<and> list_all (settling p row) es"
  using emitStatus_trace[of p now row st corr w] by simp

lemma handle_failure_trace:
  "\<exists>es. w_trace (snd (handle_failure dp p e d env row se w)) = w_trace w @ es \<and> list_all (settling p row) es"
proof -
  define w1 where "w1 = exec (he_attempt_fault e)
      (InsertDeliveryAttempt (n_id row) (i32 (n_attempt_count row + 1)) (he_clock e - 100 * millisecond)
         (Some (he_clock e)) False None (httpStatusOf se) (Some (SendError_Error (fmt_q dp) se)) None) w"
  have t: "w_trace w1 = w_trace w" by (simp add: w1_def)
  show ?thesis
    unfolding handle_failure_def Let_def w1_def[symmetric]
    by (auto simp: t intro!: route_trace_from emitStatus_trace_from)
qed

lemma handle_success_trace:
  "\<exists>es. w_trace (snd (handle_success dp p e env row resp w)) = w_trace w @ es \<and> list_all (settling p row) es"
proof -
  define w1 where "w1 = exec (he_attempt_fault e)
      (InsertDeliveryAttempt (n_id row) (i32 (n_attempt_count row + 1)) (he_clock e - 100 * millisecond)
         (Some (he_clock e)) True (Some (sp_message_id resp)) (Some (i32 (sp_http_status resp))) None
         (Some (sp_raw_body resp))) w"
  have t: "w_trace w1 = w_trace w" by (simp add: w1_def)
  have "\<exists>es. w_trace (emitStatus p (he_clock e) (n_id row) (n_batch_id row) (n_created_by row) ''sent''
      (env_CorrelationID env) (w1\<lparr>w_db := d'\<rparr>)) = w_trace w @ es \<and> list_all (settling p row) es" for d'
    using emitStatus_trace[of p "he_clock e" row "''sent''"
        "env_CorrelationID env" "w1\<lparr>w_db := d'\<rparr>"] t by simp
  then show ?thesis
    unfolding handle_success_def Let_def w1_def[symmetric]
    by (auto simp: t split: prod.splits sum.splits intro: exI[of _ "[]"])
qed

lemma handle_send_trace:
  "\<exists>cs es. w_trace (snd (handle_send dp p e d env row w)) = w_trace w @ cs @ es \<and> list_all (settling p row) es \<and>
     (if \<exists>out. he_breaker e = BreakerCall out
      then cs = [ECall \<lparr>sq_to = env_Recipient env, sq_channel = env_Channel env, sq_content = env_Content env\<rparr>
                       (env_CorrelationID env)]
      else cs = [])"
proof (cases "he_breaker e")
  case BreakerOpen
  then show ?thesis
    using route_trace[of p "he_amqp e" "i32 (n_attempt_count row + 1)" "m_body d" env
        "exec (he_revert_fault e) (RevertToQueuedNoAttempt (he_db_now e) (n_id row) (Some (err_open_state dp))) w" row]
    by (auto simp: handle_send_def breaker_open_def)
next
  case BreakerTooMany
  then show ?thesis
    using route_trace[of p "he_amqp e" "i32 (n_attempt_count row + 1)" "m_body d" env
        "exec (he_revert_fault e) (RevertToQueuedNoAttempt (he_db_now e) (n_id row) (Some (err_too_many dp))) w" row]
    by (auto simp: handle_send_def breaker_open_def)
next
  case (BreakerCall out)
  let ?w = "emit [ECall \<lparr>sq_to = env_Recipient env, sq_channel = env_Channel env, sq_content = env_Content env\<rparr>
                        (env_CorrelationID env)] w"
  show ?thesis
    using BreakerCall handle_failure_trace[of dp p e d env row _ ?w] handle_success_trace[of dp p e env row _ ?w]
    by (cases "Send (json_of dp) (time_ok dp) (http_time dp) (he_clock e) out") (auto simp: handle_send_def Let_def)
qed

text \<open>With the lock held there is a call exactly when the gate passes and the breaker lets it through.\<close>

definition call_made :: "handle_env \<Rightarrow> wstate \<Rightarrow> bool" where
  "call_made e w \<longleftrightarrow> fst (gate e w) = GatePass \<and> (\<exists>out. he_breaker e = BreakerCall out)"

lemma handle_locked_trace:
  "\<exists>cs es. w_trace (snd (handle_locked dp p e d env row w)) = w_trace w @ cs @ es \<and> list_all (settling p row) es \<and>
     (if call_made e w
      then cs = [ECall \<lparr>sq_to = env_Recipient env, sq_channel = env_Channel env, sq_content = env_Content env\<rparr>
                       (env_CorrelationID env)]
      else cs = [])"
proof -
  obtain g w' where g: "gate e w = (g, w')" by fastforce
  have t: "w_trace w' = w_trace w" using gate_world[OF g] by (simp add: same_world_def)
  show ?thesis
  proof (cases g)
    case GatePass
    then show ?thesis using handle_send_trace[of dp p e d env row w'] g t
      by (simp add: handle_locked_def call_made_def)
  next
    case GateSustained
    then show ?thesis
      using route_trace[of p "he_amqp e" 1 "m_body d" env
          "exec (he_revert_fault e) (RevertToQueuedNoAttempt (he_db_now e) (n_id row) None) w'" row] g t
      by (auto simp: handle_locked_def call_made_def)
  qed (use g t in \<open>auto simp: handle_locked_def call_made_def intro: exI[of _ "[]"]\<close>)
qed

end
