(* ===== verification/Delivery.thy ===== *)
theory Delivery
  imports Worker
begin

text \<open>
  What one delivery does, branch by branch: the functional behaviour of \<open>Handle\<close> on the row, the
  broker and the provider, the guards in front of a provider call, the accounting behind every
  acknowledgement, and the bounds of its two loops (inline wait, redelivery).
\<close>

subsection \<open>The gate depends on reservoir and bucket only\<close>

definition same_tokens :: "wstate \<Rightarrow> wstate \<Rightarrow> bool" where
  "same_tokens v w \<longleftrightarrow> w_res v = w_res w \<and> w_bucket v = w_bucket w"

lemma do_take_cong:
  "same_tokens v w \<Longrightarrow> fst (do_take te v) = fst (do_take te w) \<and> same_tokens (snd (do_take te v)) (snd (do_take te w))"
  by (auto simp: do_take_def same_tokens_def split: prod.splits)

lemma rl_loop_cong:
  "same_tokens v w \<Longrightarrow> fst (rl_loop it k deadline now wait v) = fst (rl_loop it k deadline now wait w)"
proof (induction it k deadline now wait v arbitrary: w rule: rl_loop.induct)
  case (1 it k deadline now wait v)
  show ?case
  proof (cases "int wait > bucketRefillCeiling \<or> now + int wait > deadline \<or> it_ctx_done (it k)")
    case True
    then show ?thesis by (auto simp: rl_loop.simps[of it k deadline now wait])
  next
    case False
    obtain r v1 where t: "do_take (it_take (it k)) v = (r, v1)" by fastforce
    obtain w1 where t': "do_take (it_take (it k)) w = (r, w1)" and tok: "same_tokens v1 w1"
      using do_take_cong[OF "1.prems", of "it_take (it k)"] t by (cases "do_take (it_take (it k)) w") auto
    show ?thesis
    proof (cases "\<exists>res. r = Inr res \<and> \<not> tr_allowed res")
      case no: False
      then show ?thesis
        using False t t' by (auto simp: rl_loop.simps[of it k deadline now wait] split: sum.splits)
    next
      case True
      then obtain res where res: "r = Inr res" "\<not> tr_allowed res" by auto
      show ?thesis
        using "1.IH"[OF _ refl _ t[symmetric] res tok] False t t' res
        by (simp add: rl_loop.simps[of it k deadline now wait] Let_def)
    qed
  qed
qed

lemma gate_cong:
  assumes "same_tokens v w"
  shows "fst (gate e v) = fst (gate e w)"
proof -
  obtain r v1 w1 where t: "do_take (he_take e) v = (r, v1)" "do_take (he_take e) w = (r, w1)" "same_tokens v1 w1"
    using do_take_cong[OF assms, of "he_take e"] by (cases "do_take (he_take e) v"; cases "do_take (he_take e) w") auto
  show ?thesis
    using t rl_loop_cong[OF t(3), of "he_iters e" 0 "he_loop_start e + totalInlineBudget" "he_loop_start e"]
    by (auto simp: gate_def split: sum.splits prod.splits) (metis fst_conv)
qed

subsection \<open>The three outcomes on the row\<close>

lemma exec_attempt_row [simp]:
  "row_of k (w_db (exec f (InsertDeliveryAttempt nid att st ct ok m h er b) w)) = row_of k (w_db w)"
  using run_stmt_cases[of f "InsertDeliveryAttempt nid att st ct ok m h er b" "w_db w"]
  by (auto simp: exec_def row_of_def dest: InsertDeliveryAttempt_rows)

lemma exec_attempt_wf:
  "db_wf (w_db w) \<Longrightarrow> db_wf (w_db (exec f (InsertDeliveryAttempt nid att st ct ok m h er b) w))"
  by (intro exec_wf wf_intros)

lemma exec_NoFault: "q (w_db w) = Inr (a, d') \<Longrightarrow> exec NoFault q w = w\<lparr>w_db := d'\<rparr>"
  by (simp add: exec_def run_stmt_def)

lemma handle_success_row:
  assumes "db_wf (w_db w)" "row_of (n_id row) (w_db w) = Some r" "n_status r = StatusSending"
    and "he_sent_fault e = NoFault"
  shows "fst (handle_success dp p e env row resp w) = HNil \<and>
    row_of (n_id row) (w_db (snd (handle_success dp p e env row resp w))) =
      Some (r\<lparr>n_status := StatusSent, n_sent_at := Some (he_db_now e), n_updated_at := he_db_now e\<rparr>)"
proof -
  define w1 where "w1 = exec (he_attempt_fault e)
      (InsertDeliveryAttempt (n_id row) (i32 (n_attempt_count row + 1)) (he_clock e - 100 * millisecond)
         (Some (he_clock e)) True (Some (sp_message_id resp)) (Some (i32 (sp_http_status resp))) None
         (Some (sp_raw_body resp))) w"
  have "db_wf (w_db w1)" "row_of (n_id row) (w_db w1) = Some r"
    unfolding w1_def using assms(1,2) by (simp_all add: exec_attempt_wf)
  from MarkSent_ok[OF this assms(3), of "he_db_now e"] obtain d' where
    q: "MarkSent (he_db_now e) (n_id row) (w_db w1) = Inr (r\<lparr>n_status := StatusSent, n_sent_at := Some (he_db_now e), n_updated_at := he_db_now e\<rparr>, d')"
    and rs: "row_set (w_db w1) (n_id row) (r\<lparr>n_status := StatusSent, n_sent_at := Some (he_db_now e), n_updated_at := he_db_now e\<rparr>) d'"
    by blast
  show ?thesis
    unfolding handle_success_def Let_def w1_def[symmetric] assms(4) run_stmt_NoFault_Inr[of "MarkSent (he_db_now e) (n_id row)", OF q]
    using row_setD(1)[OF rs] by simp
qed

lemma routeToRetryTier_acked:
  assumes "pl_has_pub p" "pub_chans (w_pub w) \<noteq> []"
  shows "via_tier (routeToRetryTier p Acked a b env w) =
    (HNil, emit [EAccepted \<lparr>m_exchange = ExchangeMain, m_routing_key = WaitRoutingKey (env_Channel env) (WaitTierForAttempt a),
                            m_body = b,
                            m_headers = [(''correlation_id'', HStr (env_CorrelationID env)),
                                         (''notification_id'', HStr (env_NotificationID env)),
                                         (''attempt'', HInt32 a)],
                            m_priority = priorityToAMQP (env_Priority env)\<rparr>]
             (w\<lparr>w_pub := (w_pub w)\<lparr>pub_round_robin := pub_round_robin (w_pub w) + 1\<rparr>\<rparr>))"
  using assms by (simp add: via_tier_def routeToRetryTier_def publish_wait_def PublishToWait_def publish_Acked)

lemma handle_failure_retry:
  assumes "db_wf (w_db w)" "row_of (n_id row) (w_db w) = Some r" "n_status r = StatusSending"
    and "n_attempt_count r = n_attempt_count row" "0 \<le> n_attempt_count row"
    and "IsRetryable (se_kind se)" "n_attempt_count row + 1 < pl_max_attempts p" "pl_max_attempts p = 10"
    and "he_revert_fault e = NoFault"
  shows "\<exists>w2. handle_failure dp p e d env row se w =
           via_tier (routeToRetryTier p (he_amqp e) (n_attempt_count row + 1) (m_body d) env w2) \<and>
         w_pub w2 = w_pub w \<and> w_trace w2 = w_trace w \<and>
         row_of (n_id row) (w_db w2) =
           Some (r\<lparr>n_status := StatusQueued, n_attempt_count := n_attempt_count r + 1,
                   n_last_error := Some (SendError_Error (fmt_q dp) se), n_updated_at := he_db_now e\<rparr>)"
proof -
  let ?err = "SendError_Error (fmt_q dp) se"
  have att: "i32 (n_attempt_count row + 1) = n_attempt_count row + 1"
    using assms(5,7,8) by (intro i32_id) (simp add: i32_range_def)
  define w1 where "w1 = exec (he_attempt_fault e)
      (InsertDeliveryAttempt (n_id row) (n_attempt_count row + 1) (he_clock e - 100 * millisecond)
         (Some (he_clock e)) False None (httpStatusOf se) (Some ?err) None) w"
  have wf1: "db_wf (w_db w1)" and r1: "row_of (n_id row) (w_db w1) = Some r"
    unfolding w1_def using assms(1,2) by (simp_all add: exec_attempt_wf)
  obtain d' where q: "RevertToQueued (he_db_now e) (n_id row) (Some ?err) (w_db w1) = Inr ((), d')"
    and rs: "row_set (w_db w1) (n_id row) (r\<lparr>n_status := StatusQueued, n_attempt_count := n_attempt_count r + 1,
                 n_last_error := Some ?err, n_updated_at := he_db_now e\<rparr>) d'"
    using RevertToQueued_ok[OF wf1 r1 assms(3), of "he_db_now e" "Some ?err"] assms(4,7,8) by auto
  have "handle_failure dp p e d env row se w =
      via_tier (routeToRetryTier p (he_amqp e) (n_attempt_count row + 1) (m_body d) env (w1\<lparr>w_db := d'\<rparr>))"
    unfolding handle_failure_def Let_def att w1_def[symmetric]
    using assms(6,7,9) exec_NoFault[of "RevertToQueued (he_db_now e) (n_id row) (Some ?err)" w1, OF q] by simp
  moreover have "w_pub w1 = w_pub w" "w_trace w1 = w_trace w" by (simp_all add: w1_def)
  ultimately show ?thesis using row_setD(1)[OF rs] by (intro exI[of _ "w1\<lparr>w_db := d'\<rparr>"]) simp
qed

lemma InsertDeadLetter_ok:
  assumes "row_of nid d \<noteq> None" "1 \<le> pg_length reason" "pg_length reason \<le> 500"
  shows "sel dl_notification_id nid (dead_letters (snd (run_stmt NoFault (InsertDeadLetter now nid reason j) d))) \<noteq> None \<and>
         notifications (snd (run_stmt NoFault (InsertDeadLetter now nid reason j) d)) = notifications d"
  using assms
  by (auto simp: InsertDeadLetter_def run_stmt_def Let_def dead_letter_check_def row_of_def sel_append
      split: option.splits sum.splits)

lemma reason_ok:
  "1 \<le> pg_length (truncate_str (SendError_Error q se) 500) \<and> pg_length (truncate_str (SendError_Error q se) 500) \<le> 500"
proof -
  obtain s where s: "SendError_Error q se = CHR ''s'' # s" using SendError_Error_Cons by blast
  have "truncate_str (CHR ''s'' # s) 500 = CHR ''s'' # take 499 s" by (simp add: truncate_take take_Cons')
  moreover have "\<not> utf8_cont CHR ''s''" by (simp add: utf8_cont_def)
  ultimately show ?thesis using s pg_length_Cons_pos pg_length_truncate by metis
qed

lemma handle_failure_terminal:
  assumes "db_wf (w_db w)" "row_of (n_id row) (w_db w) = Some r" "n_status r = StatusSending"
    and "\<not> (IsRetryable (se_kind se) \<and> i32 (n_attempt_count row + 1) < pl_max_attempts p)"
    and "he_dead_fault e = NoFault" "he_dlrow_fault e = NoFault" "m_body d = Json j"
  shows "fst (handle_failure dp p e d env row se w) = HTerminal \<and>
    row_of (n_id row) (w_db (snd (handle_failure dp p e d env row se w))) =
      Some (r\<lparr>n_status := StatusDeadLetter, n_last_error := Some (SendError_Error (fmt_q dp) se),
              n_updated_at := he_db_now e\<rparr>) \<and>
    sel dl_notification_id (n_id row) (dead_letters (w_db (snd (handle_failure dp p e d env row se w)))) \<noteq> None"
proof -
  let ?err = "SendError_Error (fmt_q dp) se"
  define w1 where "w1 = exec (he_attempt_fault e)
      (InsertDeliveryAttempt (n_id row) (i32 (n_attempt_count row + 1)) (he_clock e - 100 * millisecond)
         (Some (he_clock e)) False None (httpStatusOf se) (Some ?err) None) w"
  have wf1: "db_wf (w_db w1)" and r1: "row_of (n_id row) (w_db w1) = Some r"
    unfolding w1_def using assms(1,2) by (simp_all add: exec_attempt_wf)
  let ?r = "r\<lparr>n_status := StatusDeadLetter, n_last_error := Some ?err, n_updated_at := he_db_now e\<rparr>"
  obtain d' where q: "MarkDeadLetter (he_db_now e) (n_id row) ?err (w_db w1) = Inr (?r, d')"
    and rs: "row_set (w_db w1) (n_id row) ?r d'"
    using MarkDeadLetter_ok[OF wf1 r1, of "he_db_now e" ?err] assms(3) by auto
  have "row_of (n_id row) d' \<noteq> None" using row_setD(1)[OF rs] by simp
  note ins = InsertDeadLetter_ok[OF this, of "truncate_str ?err 500" "he_db_now e" j]
  have "insert_dead_letter (he_db_now e) (n_id row) (truncate_str ?err 500) (m_body d) =
        InsertDeadLetter (he_db_now e) (n_id row) (truncate_str ?err 500) j"
    using assms(7) by (simp add: insert_dead_letter_def)
  then have "handle_failure dp p e d env row se w =
      (HTerminal, emitStatus p (he_clock e) (n_id row) (n_batch_id row) (n_created_by row) ''dead_letter''
          (env_CorrelationID env)
          (exec NoFault (InsertDeadLetter (he_db_now e) (n_id row) (truncate_str ?err 500) j) (w1\<lparr>w_db := d'\<rparr>)))"
    unfolding handle_failure_def Let_def w1_def[symmetric]
    using assms(4-6) exec_NoFault[of "MarkDeadLetter (he_db_now e) (n_id row) ?err" w1, OF q] by auto
  then show ?thesis
    using ins reason_ok[of "fmt_q dp" se] row_setD(1)[OF rs] by (simp add: exec_def row_of_def)
qed

subsection \<open>From the message to the outcome\<close>

text \<open>
  The delivery \<open>d\<close> is for the row \<open>r\<close>, which is pending or queued; the compare-and-set and the
  in-flight lock work.
\<close>

definition picked :: "deps \<Rightarrow> handle_env \<Rightarrow> message \<Rightarrow> wstate \<Rightarrow> envelope \<Rightarrow> notification \<Rightarrow> bool" where
  "picked dp e d w env r \<longleftrightarrow>
     \<not> over_cap d \<and> unmarshal_envelope (m_body d) = (env, True) \<and>
     uuid_parse dp (env_NotificationID env) = Some (n_id r) \<and>
     db_wf (w_db w) \<and> row_of (n_id r) (w_db w) = Some r \<and>
     (n_status r = StatusPending \<or> n_status r = StatusQueued) \<and>
     he_cas_fault e = NoFault \<and> he_setnx e = Some True"

abbreviation sending_row :: "handle_env \<Rightarrow> notification \<Rightarrow> notification" where
  "sending_row e r \<equiv> r\<lparr>n_status := StatusSending, n_updated_at := he_cas_now e\<rparr>"

lemma picked_body: "picked dp e d w env r \<Longrightarrow> \<exists>j. m_body d = Json j"
  by (cases "m_body d") (auto simp: picked_def)

lemma picked_locked:
  assumes "picked dp e d w env r"
  obtains w1 where "row_set (w_db w) (n_id r) (sending_row e r) (w_db w1)"
    "w_pub w1 = w_pub w" "w_trace w1 = w_trace w @ [ESetNX (inflightKey dp (n_id r)) True]"
    "same_tokens w1 w"
    "handle dp p e d w =
      (fst (handle_locked dp p e d env (sending_row e r) w1),
       emit [EDel (inflightKey dp (n_id r))] (snd (handle_locked dp p e d env (sending_row e r) w1)))"
proof -
  obtain d' where q: "MarkSendingCAS (he_cas_now e) (n_id r) (w_db w) = Inr (sending_row e r, d')"
    and rs: "row_set (w_db w) (n_id r) (sending_row e r) d'"
    using MarkSendingCAS_ok[of "w_db w" "n_id r" r "he_cas_now e"] assms by (auto simp: picked_def)
  let ?w = "emit [ESetNX (inflightKey dp (n_id r)) True] (w\<lparr>w_db := d'\<rparr>)"
  have "handle dp p e d w = handle_cas dp p e d env (n_id r) w"
    using assms by (simp add: handle_def picked_def)
  also have "\<dots> = (fst (handle_locked dp p e d env (sending_row e r) ?w),
       emit [EDel (inflightKey dp (n_id r))] (snd (handle_locked dp p e d env (sending_row e r) ?w)))"
    using assms run_stmt_NoFault_Inr[of "MarkSendingCAS (he_cas_now e) (n_id r)", OF q]
    by (simp add: handle_cas_def picked_def Let_def case_prod_beta)
  finally show thesis using rs by (intro that[of ?w]) (simp_all add: same_tokens_def)
qed

lemma Handle_not_err:
  "\<not> over_cap d \<Longrightarrow> handle dp p e d w = (x, w') \<Longrightarrow> x \<noteq> HErr \<Longrightarrow> Handle dp p e d w = (x, w')"
  by (cases x) (auto simp: Handle_def)

text \<open>Past the gate the provider decides.\<close>

lemma picked_send:
  assumes "picked dp e d w env r" "fst (gate e w) = GatePass" "he_breaker e = BreakerCall out"
  obtains w1 where "row_set (w_db w) (n_id r) (sending_row e r) (w_db w1)" "w_pub w1 = w_pub w"
    "\<And>x w2. (case Send (json_of dp) (time_ok dp) (http_time dp) (he_clock e) out of
        Inl se \<Rightarrow> handle_failure dp p e d env (sending_row e r) se w1
      | Inr resp \<Rightarrow> handle_success dp p e env (sending_row e r) resp w1) = (x, w2) \<Longrightarrow>
      handle dp p e d w = (x, emit [EDel (inflightKey dp (n_id r))] w2)"
proof -
  obtain w0 where w0: "row_set (w_db w) (n_id r) (sending_row e r) (w_db w0)"
    "w_pub w0 = w_pub w" "same_tokens w0 w"
    and h: "handle dp p e d w =
      (fst (handle_locked dp p e d env (sending_row e r) w0),
       emit [EDel (inflightKey dp (n_id r))] (snd (handle_locked dp p e d env (sending_row e r) w0)))"
    using picked_locked[OF assms(1), of p] by metis
  obtain w' where g: "gate e w0 = (GatePass, w')"
    using gate_cong[OF w0(3), of e] assms(2) by (cases "gate e w0") auto
  let ?w1 = "emit [ECall \<lparr>sq_to = env_Recipient env, sq_channel = env_Channel env, sq_content = env_Content env\<rparr>
                    (env_CorrelationID env)] w'"
  have world: "w_db w' = w_db w0" "w_pub w' = w_pub w0" using gate_world[OF g] by (simp_all add: same_world_def)
  have "handle_locked dp p e d env (sending_row e r) w0 =
      (case Send (json_of dp) (time_ok dp) (http_time dp) (he_clock e) out of
        Inl se \<Rightarrow> handle_failure dp p e d env (sending_row e r) se ?w1
      | Inr resp \<Rightarrow> handle_success dp p e env (sending_row e r) resp ?w1)"
    using g assms(3) by (simp add: handle_locked_def handle_send_def Let_def)
  then show thesis using that[of ?w1] w0 world h by simp
qed

text \<open>The steps that put the row back without an attempt.\<close>

lemma exec_NoAttempt_row:
  assumes "db_wf (w_db w)" "row_of nid (w_db w) = Some r" "n_status r = StatusSending"
  shows "row_of nid (w_db (exec NoFault (RevertToQueuedNoAttempt now nid err) w)) =
         Some (r\<lparr>n_status := StatusQueued, n_last_error := err, n_updated_at := now\<rparr>)"
proof -
  obtain d' where q: "RevertToQueuedNoAttempt now nid err (w_db w) = Inr ((), d')"
    and rs: "row_set (w_db w) nid (r\<lparr>n_status := StatusQueued, n_last_error := err, n_updated_at := now\<rparr>) d'"
    using RevertToQueuedNoAttempt_ok[OF assms] by blast
  show ?thesis using exec_NoFault[of "RevertToQueuedNoAttempt now nid err", OF q] row_setD(1)[OF rs] by simp
qed

lemma via_tier_row:
  "row_of nid (w_db (snd (via_tier (routeToRetryTier p out a b env w)))) = row_of nid (w_db w)"
  by (simp add: via_tier_route_db)

subsection \<open>Guards and accounting\<close>

lemma handle_trace:
  assumes "handle dp p e d w = (r, w')"
  shows "\<exists>es. w_trace w' = w_trace w @ es \<and>
    (es = [] \<or> (\<exists>k. es = [ESetNX k False]) \<or>
     (\<exists>env nid row d' cs qs. unmarshal_envelope (m_body d) = (env, True) \<and>
        uuid_parse dp (env_NotificationID env) = Some nid \<and>
        MarkSendingCAS (he_cas_now e) nid (w_db w) = Inr (row, d') \<and>
        es = ESetNX (inflightKey dp nid) True # cs @ qs @ [EDel (inflightKey dp nid)] \<and> list_all (settling p row) qs \<and>
        (if call_made e w
         then cs = [ECall \<lparr>sq_to = env_Recipient env, sq_channel = env_Channel env, sq_content = env_Content env\<rparr>
                          (env_CorrelationID env)]
         else cs = [])))"
  using assms
proof (cases rule: handle_cases)
  case (decoded env nid)
  from decoded(3) show ?thesis
  proof (cases rule: handle_cas_cases)
    case (locked row d' w2)
    let ?w = "emit [ESetNX (inflightKey dp nid) True] (w\<lparr>w_db := d'\<rparr>)"
    have "call_made e ?w = call_made e w"
      using gate_cong[of ?w w e] by (simp add: call_made_def same_tokens_def)
    then show ?thesis
      using handle_locked_trace[of dp p e d env row ?w] locked decoded(1,2) by fastforce
  qed auto
qed auto

lemma requeue_None:
  assumes "requeueViaWaitTier out d prev w = (None, w')"
  shows "\<exists>m. w_trace w' = w_trace w @ [EAccepted m] \<and> w_db w' = w_db w \<and> m_body m = m_body d \<and>
    m_exchange m = ExchangeMain \<and>
    m_routing_key m = WaitRoutingKey (env_Channel (fst (unmarshal_envelope (m_body d)))) ''5s'' \<and>
    header (m_headers m) ''x-redeliveries'' = Some (HInt32 (i32 (prev + 1)))"
  using assms
  by (auto simp: requeueViaWaitTier_def publish_wait_def PublishToWait_def Let_def header_def
      split: prod.splits dest!: publish_None)

lemma requeue_trace:
  assumes "requeueViaWaitTier out d prev w = (x, w')"
  shows "\<exists>ms. w_trace w' = w_trace w @ map EAccepted ms"
  using assms by (auto simp: requeueViaWaitTier_def Let_def dest: publish_wait_trace)

lemma route_HNil:
  assumes "via_tier (routeToRetryTier p out a b env w) = (HNil, w')"
  shows "\<exists>m. w_trace w' = w_trace w @ [EAccepted m] \<and> m_body m = b \<and> m_exchange m = ExchangeMain \<and>
    m_routing_key m = WaitRoutingKey (env_Channel env) (WaitTierForAttempt a)"
  using assms
  by (auto simp: via_tier_def routeToRetryTier_def publish_wait_def PublishToWait_def
      split: prod.splits if_splits option.splits dest!: publish_None)

lemma update_row_after:
  assumes "db_wf d" "update_notification g f nid d = Inr (x, d')" "\<And>r. n_id (f r) = n_id r"
  shows "\<exists>r. row_of nid d = Some r \<and> g r \<and> x = f r \<and> row_of nid d' = Some x"
proof -
  obtain r where r: "r \<in> set (notifications d)" "n_id r = nid" "g r" "x = f r" "notif_check (f r)"
    using update_notification_Inr[OF assms(2)] by blast
  then have "row_of nid d = Some r"
    using assms(1) sel_distinct[of n_id "notifications d" r] by (simp add: db_wf_def row_of_def)
  moreover from this update_row_set[of d nid r g f] have "row_of nid d' = Some x"
    using assms r by (auto dest: row_setD)
  ultimately show ?thesis using r by blast
qed

lemma handle_success_HNil:
  assumes "db_wf (w_db w)" "handle_success dp p e env row resp w = (HNil, w')"
  shows "\<exists>r. row_of (n_id row) (w_db w') = Some r \<and> n_status r = StatusSent"
proof -
  define w1 where "w1 = exec (he_attempt_fault e)
      (InsertDeliveryAttempt (n_id row) (i32 (n_attempt_count row + 1)) (he_clock e - 100 * millisecond)
         (Some (he_clock e)) True (Some (sp_message_id resp)) (Some (i32 (sp_http_status resp))) None
         (Some (sp_raw_body resp))) w"
  have wf: "db_wf (w_db w1)" unfolding w1_def by (intro exec_wf wf_intros assms)
  obtain x d' where run: "run_stmt (he_sent_fault e) (MarkSent (he_db_now e) (n_id row)) (w_db w1) = (Inr x, d')"
    and d': "w_db w' = d'"
    using assms(2) unfolding handle_success_def Let_def w1_def[symmetric]
    by (auto split: prod.splits sum.splits)
  show ?thesis
    using update_row_after[OF wf run_stmt_Inr[OF run, unfolded MarkSent_def]] d' by auto
qed

lemma handle_locked_HNil:
  assumes "db_wf (w_db w)" "handle_locked dp p e d env row w = (HNil, w')"
  shows "(\<exists>m. EAccepted m \<in> set (drop (length (w_trace w)) (w_trace w')) \<and> m_body m = m_body d \<and> m_exchange m = ExchangeMain \<and>
           (\<exists>a. m_routing_key m = WaitRoutingKey (env_Channel env) (WaitTierForAttempt a))) \<or>
         (\<exists>r. row_of (n_id row) (w_db w') = Some r \<and> n_status r = StatusSent)"
proof -
  obtain g w1 where g: "gate e w = (g, w1)" by fastforce
  have world: "w_db w1 = w_db w" "w_trace w1 = w_trace w" using gate_world[OF g] by (simp_all add: same_world_def)
  have route: ?thesis if "via_tier (routeToRetryTier p out a (m_body d) env w2) = (HNil, w')"
    and "\<exists>es. w_trace w2 = w_trace w @ es" for out a w2
    using route_HNil[OF that(1)] that(2) by fastforce
  show ?thesis
  proof (cases g)
    case GateSustained
    then show ?thesis using assms(2) g world
      by (intro route[of "he_amqp e" 1]) (auto simp: handle_locked_def)
  next
    case GatePass
    then have h: "handle_send dp p e d env row w1 = (HNil, w')" using assms(2) g by (simp add: handle_locked_def)
    show ?thesis
    proof (cases "he_breaker e")
      case (BreakerCall out)
      let ?w = "emit [ECall \<lparr>sq_to = env_Recipient env, sq_channel = env_Channel env, sq_content = env_Content env\<rparr>
                  (env_CorrelationID env)] w1"
      show ?thesis
      proof (cases "Send (json_of dp) (time_ok dp) (http_time dp) (he_clock e) out")
        case (Inl se)
        then have "handle_failure dp p e d env row se ?w = (HNil, w')"
          using h BreakerCall by (simp add: handle_send_def Let_def)
        then show ?thesis using world
          by (intro route) (auto simp: handle_failure_def Let_def split: if_splits)
      next
        case (Inr resp)
        then have "handle_success dp p e env row resp ?w = (HNil, w')"
          using h BreakerCall by (simp add: handle_send_def Let_def)
        then show ?thesis using handle_success_HNil[of ?w] assms(1) world by simp
      qed
    next
      case BreakerOpen
      then show ?thesis using h world
        by (intro route) (auto simp: handle_send_def breaker_open_def)
    next
      case BreakerTooMany
      then show ?thesis using h world
        by (intro route) (auto simp: handle_send_def breaker_open_def)
    qed
  qed (use assms(2) g in \<open>auto simp: handle_locked_def\<close>)
qed

lemma Handle_appends:
  assumes "Handle dp p e d w = (res, w')" "\<not> over_cap d" "handle dp p e d w = (x, w1)"
  obtains ms where "w_trace w' = w_trace w1 @ map EAccepted ms"
  using assms
  by (cases x) (auto simp: Handle_def split: if_splits prod.splits option.splits dest: requeue_trace intro: that[of "[]"])

lemma Handle_calls:
  assumes "Handle dp p e d w = (res, w')"
  shows "\<exists>es. w_trace w' = w_trace w @ es \<and> length (filter is_call es) \<le> 1 \<and>
    (\<forall>req corr. ECall req corr \<in> set es \<longrightarrow>
       (\<exists>env nid row d' qs rs.
          unmarshal_envelope (m_body d) = (env, True) \<and> uuid_parse dp (env_NotificationID env) = Some nid \<and>
          corr = env_CorrelationID env \<and>
          req = \<lparr>sq_to = env_Recipient env, sq_channel = env_Channel env, sq_content = env_Content env\<rparr> \<and>
          MarkSendingCAS (he_cas_now e) nid (w_db w) = Inr (row, d') \<and> call_made e w \<and>
          es = ESetNX (inflightKey dp nid) True # ECall req corr # qs @ EDel (inflightKey dp nid) # rs \<and>
          list_all quiet (qs @ rs)))"
proof (cases "over_cap d")
  case True
  then show ?thesis using assms by (auto simp: Handle_def)
next
  case False
  obtain x w1 where h: "handle dp p e d w = (x, w1)" by fastforce
  obtain ms where ms: "w_trace w' = w_trace w1 @ map EAccepted ms" using Handle_appends[OF assms False h] .
  have nocall: "filter is_call qs = []" if "list_all quiet qs" for qs
    using that by (induction qs) (auto simp: quiet_def is_call_def split: effect.splits)
  have notin: "ECall req corr \<notin> set qs" if "list_all quiet qs" for req corr qs
    using that by (auto simp: list_all_iff quiet_def)
  from handle_trace[OF h] obtain es where es: "w_trace w1 = w_trace w @ es" and
    cs: "es = [] \<or> (\<exists>k. es = [ESetNX k False]) \<or>
     (\<exists>env nid row d' cs qs. unmarshal_envelope (m_body d) = (env, True) \<and>
        uuid_parse dp (env_NotificationID env) = Some nid \<and>
        MarkSendingCAS (he_cas_now e) nid (w_db w) = Inr (row, d') \<and>
        es = ESetNX (inflightKey dp nid) True # cs @ qs @ [EDel (inflightKey dp nid)] \<and> list_all (settling p row) qs \<and>
        (if call_made e w
         then cs = [ECall \<lparr>sq_to = env_Recipient env, sq_channel = env_Channel env, sq_content = env_Content env\<rparr>
                          (env_CorrelationID env)]
         else cs = []))" by blast
  have tr: "w_trace w' = w_trace w @ (es @ map EAccepted ms)" using ms es by simp
  have qm: "list_all quiet (map EAccepted ms)" by simp
  show ?thesis
  proof (cases "es = [] \<or> (\<exists>k. es = [ESetNX k False])")
    case True
    then show ?thesis using tr nocall[OF qm] notin[OF qm] by (intro exI[of _ "es @ map EAccepted ms"]) (auto simp: is_call_def)
  next
    case no: False
    then obtain env nid row d' cs qs where c: "unmarshal_envelope (m_body d) = (env, True)"
      and u: "uuid_parse dp (env_NotificationID env) = Some nid" and c': "MarkSendingCAS (he_cas_now e) nid (w_db w) = Inr (row, d')"
      and c'': "es = ESetNX (inflightKey dp nid) True # cs @ qs @ [EDel (inflightKey dp nid)]" "list_all quiet qs"
      "if call_made e w then cs = [ECall \<lparr>sq_to = env_Recipient env, sq_channel = env_Channel env, sq_content = env_Content env\<rparr> (env_CorrelationID env)] else cs = []"
      using cs settling_quiet[of p] by metis
    have len: "length (filter is_call (es @ map EAccepted ms)) \<le> 1"
      using c''(1,3) nocall[OF c''(2)] nocall[OF qm] by (auto simp: is_call_def split: if_splits)
    have "\<exists>env nid row d' qs rs.
          unmarshal_envelope (m_body d) = (env, True) \<and> uuid_parse dp (env_NotificationID env) = Some nid \<and>
          corr = env_CorrelationID env \<and>
          req = \<lparr>sq_to = env_Recipient env, sq_channel = env_Channel env, sq_content = env_Content env\<rparr> \<and>
          MarkSendingCAS (he_cas_now e) nid (w_db w) = Inr (row, d') \<and> call_made e w \<and>
          es @ map EAccepted ms = ESetNX (inflightKey dp nid) True # ECall req corr # qs @ EDel (inflightKey dp nid) # rs \<and>
          list_all quiet (qs @ rs)"
      if inn: "ECall req corr \<in> set (es @ map EAccepted ms)" for req corr
    proof -
      have "ECall req corr \<in> set cs" using inn c''(1) notin[OF c''(2)] notin[OF qm] by auto
      then have cm: "call_made e w" and eq: "cs = [ECall req corr]" "corr = env_CorrelationID env"
        "req = \<lparr>sq_to = env_Recipient env, sq_channel = env_Channel env, sq_content = env_Content env\<rparr>"
        using c''(3) by (auto split: if_splits)
      then show ?thesis using c c' c'' u qm
        by (intro exI[of _ env] exI[of _ nid] exI[of _ row] exI[of _ d'] exI[of _ qs] exI[of _ "map EAccepted ms"]) simp
    qed
    then show ?thesis using tr len by (intro exI[of _ "es @ map EAccepted ms"]) blast
  qed
qed

text \<open>Every event of a delivery is one of the row that the compare-and-set took.\<close>

lemma Handle_events:
  assumes "Handle dp p e d w = (res, w')" "EEvent ev \<in> set (drop (length (w_trace w)) (w_trace w'))"
  obtains nid row d' where "MarkSendingCAS (he_cas_now e) nid (w_db w) = Inr (row, d')" "event_of p row ev"
proof -
  have cap: "\<not> over_cap d" using assms by (auto simp: Handle_def)
  obtain x w1 where h: "handle dp p e d w = (x, w1)" by fastforce
  obtain ms where ms: "w_trace w' = w_trace w1 @ map EAccepted ms" using Handle_appends[OF assms(1) cap h] .
  obtain es where es: "w_trace w1 = w_trace w @ es" "es = [] \<or> (\<exists>k. es = [ESetNX k False]) \<or>
     (\<exists>nid row d' cs qs. MarkSendingCAS (he_cas_now e) nid (w_db w) = Inr (row, d') \<and>
        es = ESetNX (inflightKey dp nid) True # cs @ qs @ [EDel (inflightKey dp nid)] \<and> list_all (settling p row) qs \<and>
        (\<forall>ev. EEvent ev \<notin> set cs))"
    using handle_trace[OF h] by (fastforce split: if_splits)
  have "EEvent ev \<in> set es" using assms(2) ms es(1) by auto
  then obtain nid row d' cs qs where "MarkSendingCAS (he_cas_now e) nid (w_db w) = Inr (row, d')"
    "list_all (settling p row) qs" "EEvent ev \<in> set qs" using es(2) by auto
  then show thesis using that by (auto simp: list_all_iff settling_def)
qed

lemma handle_cas_HNil:
  assumes "handle_cas dp p e d env nid w = (HNil, w')" "db_wf (w_db w)"
  shows "(case row_of nid (w_db w) of None \<Rightarrow> True | Some r \<Rightarrow> n_status r \<noteq> StatusPending \<and> n_status r \<noteq> StatusQueued) \<or>
     he_setnx e = Some False \<or>
     (\<exists>m. EAccepted m \<in> set (drop (length (w_trace w)) (w_trace w')) \<and> m_body m = m_body d \<and>
          m_exchange m = ExchangeMain \<and> (\<exists>a. m_routing_key m = WaitRoutingKey (env_Channel env) (WaitTierForAttempt a))) \<or>
     (\<exists>r. row_of nid (w_db w') = Some r \<and> n_status r = StatusSent)"
  using assms(1)
proof (cases rule: handle_cas_cases)
  case gone
  then show ?thesis using update_NoRows_row[OF assms(2)] by (auto simp: MarkSendingCAS_def split: option.splits)
next
  case (locked row d' w2)
  let ?w = "emit [ESetNX (inflightKey dp nid) True] (w\<lparr>w_db := d'\<rparr>)"
  have "\<exists>r. row_of nid (w_db w) = Some r \<and> row = r\<lparr>n_status := StatusSending, n_updated_at := he_cas_now e\<rparr>"
    using update_row_after[OF assms(2) locked(1)[unfolded MarkSendingCAS_def]] by auto
  then have nid: "n_id row = nid" using row_of_check[OF assms(2)] by auto
  have "db_wf (w_db ?w)"
    using keeps_wfD[of "MarkSendingCAS (he_cas_now e) nid", OF _ assms(2) locked(1)] by (simp add: wf_intros)
  from handle_locked_HNil[OF this locked(3)] show ?thesis
  proof (elim disjE)
    assume "\<exists>m. EAccepted m \<in> set (drop (length (w_trace ?w)) (w_trace w2)) \<and> m_body m = m_body d \<and>
        m_exchange m = ExchangeMain \<and> (\<exists>a. m_routing_key m = WaitRoutingKey (env_Channel env) (WaitTierForAttempt a))"
    then obtain m where m: "EAccepted m \<in> set (drop (length (w_trace ?w)) (w_trace w2))" "m_body m = m_body d"
        "m_exchange m = ExchangeMain" "\<exists>a. m_routing_key m = WaitRoutingKey (env_Channel env) (WaitTierForAttempt a)" by blast
    have "set (drop (length (w_trace ?w)) (w_trace w2)) \<subseteq> set (drop (length (w_trace w)) (w_trace w2))"
      by (intro set_drop_subset_set_drop) simp
    then have "EAccepted m \<in> set (drop (length (w_trace w)) (w_trace w'))" using m(1) locked(4) by auto
    then show ?thesis using m by blast
  next
    assume "\<exists>r. row_of (n_id row) (w_db w2) = Some r \<and> n_status r = StatusSent"
    then show ?thesis using locked(4) nid by auto
  qed
qed auto

lemma picked_delivered:
  assumes "picked dp e d w env r" "fst (gate e w) = GatePass" "he_breaker e = BreakerCall out"
    and "Send (json_of dp) (time_ok dp) (http_time dp) (he_clock e) out = Inr resp"
    and "he_sent_fault e = NoFault"
  shows "fst (Handle dp p e d w) = HNil \<and>
    row_of (n_id r) (w_db (snd (Handle dp p e d w))) =
      Some (r\<lparr>n_status := StatusSent, n_sent_at := Some (he_db_now e), n_updated_at := he_db_now e\<rparr>)"
proof -
  obtain w1 where rs: "row_set (w_db w) (n_id r) (sending_row e r) (w_db w1)"
    and h: "\<And>x w2. handle_success dp p e env (sending_row e r) resp w1 = (x, w2) \<Longrightarrow>
      handle dp p e d w = (x, emit [EDel (inflightKey dp (n_id r))] w2)"
    using picked_send[OF assms(1-3), of p] assms(4) by (metis sum.simps(6))
  obtain w2 where s: "handle_success dp p e env (sending_row e r) resp w1 = (HNil, w2)"
    and row: "row_of (n_id r) (w_db w2) =
      Some (r\<lparr>n_status := StatusSent, n_sent_at := Some (he_db_now e), n_updated_at := he_db_now e\<rparr>)"
    using handle_success_row[of w1 "sending_row e r" "sending_row e r" e dp p env resp] row_setD[OF rs] assms(5)
    by (cases "handle_success dp p e env (sending_row e r) resp w1") auto
  have "Handle dp p e d w = (HNil, emit [EDel (inflightKey dp (n_id r))] w2)"
    using Handle_not_err[OF _ h[OF s]] assms(1) by (simp add: picked_def)
  then show ?thesis using row by simp
qed

lemma picked_called:
  assumes "picked dp e d w env r" "fst (gate e w) = GatePass" "he_breaker e = BreakerCall out"
  shows "ECall \<lparr>sq_to = env_Recipient env, sq_channel = env_Channel env, sq_content = env_Content env\<rparr> (env_CorrelationID env)
    \<in> set (drop (length (w_trace w)) (w_trace (snd (Handle dp p e d w))))"
proof -
  obtain w1 where w1: "w_trace w1 = w_trace w @ [ESetNX (inflightKey dp (n_id r)) True]" "same_tokens w1 w"
    and h: "handle dp p e d w =
      (fst (handle_locked dp p e d env (sending_row e r) w1),
       emit [EDel (inflightKey dp (n_id r))] (snd (handle_locked dp p e d env (sending_row e r) w1)))"
    using picked_locked[OF assms(1), of p] by metis
  have "\<not> over_cap d" using assms(1) by (simp add: picked_def)
  from Handle_appends[OF prod.collapse[symmetric] this h] obtain ms where
    "w_trace (snd (Handle dp p e d w)) =
       w_trace (emit [EDel (inflightKey dp (n_id r))] (snd (handle_locked dp p e d env (sending_row e r) w1))) @ map EAccepted ms" .
  moreover have "call_made e w1" using gate_cong[OF w1(2), of e] assms(2,3) by (simp add: call_made_def)
  ultimately show ?thesis using handle_locked_trace[of dp p e d env "sending_row e r" w1] w1(1) by auto
qed

subsection \<open>A concrete delivery\<close>

text \<open>Library functions, a row, its message and an environment to evaluate the model on.\<close>

definition ex_deps :: deps where
  "ex_deps = \<lparr>uuid_str = (\<lambda>u. replicate (unat u) CHR ''a''), uuid_parse = (\<lambda>s. Some (of_nat (length s))),
              fmt_q = (\<lambda>s. s), json_of = (\<lambda>_. NotJson), time_ok = (\<lambda>_. True), http_time = (\<lambda>_. None),
              err_open_state = ''circuit breaker is open'', err_too_many = ''too many requests'',
              db_err_text = (\<lambda>_. ''db'')\<rparr>"

definition ex_row :: "status \<Rightarrow> int \<Rightarrow> notification" where
  "ex_row st n = \<lparr>n_id = 1, n_batch_id = None, n_channel = ''sms'', n_recipient = ''+15550100'', n_content = ''hi'',
            n_priority = 5, n_status = st, n_idempotency_key = None, n_attempt_count = n,
            n_last_error = None, n_scheduled_at = None, n_created_at = 0, n_updated_at = 0, n_sent_at = None,
            n_correlation_id = ''c'', n_template_id = None, n_template_version = None, n_created_by = None\<rparr>"

definition ex_envelope :: envelope where
  "ex_envelope = \<lparr>env_NotificationID = ''a'', env_Channel = ''sms'', env_Recipient = ''+15550100'',
                  env_Content = ''hi'', env_Priority = ''normal'', env_CorrelationID = ''c''\<rparr>"

definition ex_msg :: message where
  "ex_msg = \<lparr>m_exchange = ExchangeMain, m_routing_key = RoutingKey ''sms'',
             m_body = Json (envelope_json ''a'' ''sms'' ''+15550100'' ''hi'' ''normal'' ''c''),
             m_headers = [], m_priority = 5\<rparr>"

definition ex_take :: take_env where
  "ex_take = \<lparr>tk_now_ms = 0, tk_batch_fails = None, tk_single_now_ms = 0, tk_single_fails = None, tk_others = (\<lambda>r. r)\<rparr>"

definition ex_henv :: "breaker_out \<Rightarrow> handle_env" where
  "ex_henv out = \<lparr>he_cas_fault = NoFault, he_cas_now = 1, he_setnx = Some True, he_take = ex_take,
                  he_loop_start = 2, he_iters = (\<lambda>_. \<lparr>it_ctx_done = False, it_delay = 0, it_take = ex_take\<rparr>),
                  he_breaker = out, he_clock = 3, he_db_now = 4, he_revert_fault = NoFault,
                  he_attempt_fault = NoFault, he_dead_fault = NoFault, he_dlrow_fault = NoFault,
                  he_sent_fault = NoFault, he_amqp = Acked, he_requeue_amqp = Acked\<rparr>"

definition ex_world :: "notification \<Rightarrow> wstate" where
  "ex_world r = \<lparr>w_db = empty_db\<lparr>notifications := [r]\<rparr>, w_res = NewReservoir ratePerSec capacity batchSize,
                 w_bucket = None,
                 w_pub = \<lparr>pub_chans = [0], pub_round_robin = 0, pub_conn_open = True, pub_stopped = False\<rparr>,
                 w_trace = []\<rparr>"

definition ex_pipe :: pipeline where "ex_pipe = new_pipeline ''sms'' True True"

lemma ex_row_check: "st \<noteq> StatusSent \<Longrightarrow> 0 \<le> n \<Longrightarrow> n < 100 \<Longrightarrow> notif_check (ex_row st n)"
  by (simp add: notif_check_def ex_row_def Channel_Valid_def pg_length_def utf8_cont_def priority_check_def
      int4_def i32_range_def)

lemma ex_world_wf: "notif_check r \<Longrightarrow> db_wf (w_db (ex_world r))"
  by (simp add: ex_world_def db_wf_def empty_db_def)

lemma ex_picked:
  assumes "st = StatusPending \<or> st = StatusQueued" "0 \<le> n" "n < 100"
  shows "picked ex_deps (ex_henv out) ex_msg (ex_world (ex_row st n)) ex_envelope (ex_row st n)"
proof -
  have "db_wf (w_db (ex_world (ex_row st n)))" using assms by (intro ex_world_wf ex_row_check) auto
  moreover have "unmarshal_envelope (m_body ex_msg) = (ex_envelope, True)"
    by (simp add: ex_msg_def ex_envelope_def unmarshal_envelope_json)
  ultimately show ?thesis
    using assms(1)
    by (simp add: picked_def over_cap_def header_def ex_msg_def ex_deps_def ex_envelope_def ex_world_def ex_row_def
        ex_henv_def row_of_def)
qed

lemma ex_gate: "fst (gate (ex_henv out) (ex_world r)) = GatePass"
  by (simp add: gate_def do_take_def Take_def take_local_def AllowN_def luaTokenBucket_def bucket_level_def
      ex_henv_def ex_take_def ex_world_def NewReservoir_def rl_params)

subsection \<open>Properties\<close>

text \<open>
  A delivery of a pending or queued notification that passes lock and rate limit and that
  the provider answers with 2xx is acknowledged and leaves the row sent, with its delivery time
  set and its attempt counter untouched, even if the audit row of the attempt cannot be written.
\<close>

theorem Handle_delivers:
  assumes "picked dp e d w env r" "fst (gate e w) = GatePass" "he_breaker e = BreakerCall out"
    and "Send (json_of dp) (time_ok dp) (http_time dp) (he_clock e) out = Inr resp"
    and "he_sent_fault e = NoFault"
  shows "fst (Handle dp p e d w) = HNil \<and>
    row_of (n_id r) (w_db (snd (Handle dp p e d w))) =
      Some (r\<lparr>n_status := StatusSent, n_sent_at := Some (he_db_now e), n_updated_at := he_db_now e\<rparr>)"
  using assms by (rule picked_delivered)

theorem Handle_delivers_witness:
  "fst (Handle ex_deps ex_pipe (ex_henv (BreakerCall (Responds 202 [] []))) ex_msg (ex_world (ex_row StatusQueued 0))) = HNil"
proof -
  let ?e = "ex_henv (BreakerCall (Responds 202 [] []))"
  have "Send (json_of ex_deps) (time_ok ex_deps) (http_time ex_deps) (he_clock ?e) (Responds 202 [] []) =
        Inr \<lparr>sp_message_id = [], sp_status = ''accepted'', sp_http_status = 202, sp_raw_body = []\<rparr>"
    by (simp add: Send_def ex_deps_def decode_response_def)
  then show ?thesis
    using Handle_delivers[OF ex_picked[of StatusQueued 0] ex_gate, of _ "Responds 202 [] []"] by (simp add: ex_henv_def)
qed

text \<open>
  C25: A retryable failure of an attempt below the tenth puts the row back to queued with its
  counter one higher and the error recorded, and hands the same body to the wait tier of that
  attempt; once the broker confirms it, the original message is acknowledged.
\<close>

theorem Handle_retries:
  assumes "picked dp e d w env r" "fst (gate e w) = GatePass" "he_breaker e = BreakerCall out"
    and "Send (json_of dp) (time_ok dp) (http_time dp) (he_clock e) out = Inl se"
    and "IsRetryable (se_kind se)" "n_attempt_count r + 1 < 10" "pl_max_attempts p = 10"
    and "he_revert_fault e = NoFault" "he_amqp e = Acked" "pl_has_pub p" "pub_chans (w_pub w) \<noteq> []"
  shows "fst (Handle dp p e d w) = HNil \<and>
    row_of (n_id r) (w_db (snd (Handle dp p e d w))) =
      Some (r\<lparr>n_status := StatusQueued, n_attempt_count := n_attempt_count r + 1,
              n_last_error := Some (SendError_Error (fmt_q dp) se), n_updated_at := he_db_now e\<rparr>) \<and>
    (\<exists>hs pr. EAccepted \<lparr>m_exchange = ExchangeMain,
        m_routing_key = WaitRoutingKey (env_Channel env) (WaitTierForAttempt (n_attempt_count r + 1)),
        m_body = m_body d, m_headers = hs, m_priority = pr\<rparr> \<in> set (w_trace (snd (Handle dp p e d w))))"
proof -
  let ?a = "n_attempt_count r + 1"
  obtain w1 where rs: "row_set (w_db w) (n_id r) (sending_row e r) (w_db w1)" and pub: "w_pub w1 = w_pub w"
    and h: "\<And>x w2. handle_failure dp p e d env (sending_row e r) se w1 = (x, w2) \<Longrightarrow>
      handle dp p e d w = (x, emit [EDel (inflightKey dp (n_id r))] w2)"
    using picked_send[OF assms(1-3), of p] assms(4) by (metis sum.simps(5))
  have "notif_check r" using assms(1) row_of_check[of "w_db w" "n_id r" r] by (simp add: picked_def)
  then have nn: "0 \<le> n_attempt_count r" by (simp add: notif_check_def)
  obtain w2 where f: "handle_failure dp p e d env (sending_row e r) se w1 =
      via_tier (routeToRetryTier p Acked ?a (m_body d) env w2)" and pub2: "w_pub w2 = w_pub w1"
    and row: "row_of (n_id r) (w_db w2) =
      Some (r\<lparr>n_status := StatusQueued, n_attempt_count := n_attempt_count r + 1,
              n_last_error := Some (SendError_Error (fmt_q dp) se), n_updated_at := he_db_now e\<rparr>)"
    using handle_failure_retry[of w1 "sending_row e r" "sending_row e r" se p e dp d env] row_setD[OF rs] assms(5-9) nn
    by auto
  have "pub_chans (w_pub w2) \<noteq> []" using pub pub2 assms(11) by simp
  note acked = routeToRetryTier_acked[OF assms(10) this, of ?a "m_body d" env]
  show ?thesis
    using Handle_not_err[OF _ h[OF f[unfolded acked]]] assms(1) row by (auto simp: picked_def)
qed

theorem Handle_retries_witness:
  "\<exists>r'. row_of 1 (w_db (snd (Handle ex_deps ex_pipe (ex_henv (BreakerCall (Responds 503 [] []))) ex_msg
           (ex_world (ex_row StatusQueued 1))))) = Some r' \<and> n_status r' = StatusQueued \<and> n_attempt_count r' = 2"
proof -
  let ?e = "ex_henv (BreakerCall (Responds 503 [] []))"
  obtain se where "Send (json_of ex_deps) (time_ok ex_deps) (http_time ex_deps) (he_clock ?e) (Responds 503 [] []) = Inl se"
    and "IsRetryable (se_kind se)"
    by (simp add: Send_def IsRetryable_def)
  then show ?thesis
    using Handle_retries[OF ex_picked[of StatusQueued 1] ex_gate, of _ "Responds 503 [] []" se ex_pipe]
    by (simp add: ex_henv_def ex_row_def ex_pipe_def new_pipeline_def ex_world_def)
qed



text \<open>
  An open breaker or a sustained throttle costs the notification nothing: the row goes back
  to queued with its attempt counter unchanged and no provider call is made.
\<close>

theorem Handle_throttled_keeps_attempts:
  assumes "picked dp e d w env r"
    and "fst (gate e w) = GateSustained \<or> fst (gate e w) = GatePass \<and> (he_breaker e = BreakerOpen \<or> he_breaker e = BreakerTooMany)"
    and "he_revert_fault e = NoFault" "he_amqp e = Acked" "pl_has_pub p" "pub_chans (w_pub w) \<noteq> []"
  shows "fst (Handle dp p e d w) = HNil \<and>
    (\<exists>err. row_of (n_id r) (w_db (snd (Handle dp p e d w))) =
       Some (r\<lparr>n_status := StatusQueued, n_last_error := err, n_updated_at := he_db_now e\<rparr>))"
proof -
  obtain w0 where w0: "row_set (w_db w) (n_id r) (sending_row e r) (w_db w0)" "w_pub w0 = w_pub w" "same_tokens w0 w"
    and h: "handle dp p e d w =
      (fst (handle_locked dp p e d env (sending_row e r) w0),
       emit [EDel (inflightKey dp (n_id r))] (snd (handle_locked dp p e d env (sending_row e r) w0)))"
    using picked_locked[OF assms(1), of p] by metis
  obtain g w' where g: "gate e w0 = (g, w')" "g = fst (gate e w)" using gate_cong[OF w0(3), of e] by (cases "gate e w0") auto
  have world: "w_db w' = w_db w0" "w_pub w' = w_pub w" using gate_world[OF g(1)] w0(2) by (simp_all add: same_world_def)
  have "\<exists>a err. handle_locked dp p e d env (sending_row e r) w0 =
      via_tier (routeToRetryTier p Acked a (m_body d) env
        (exec NoFault (RevertToQueuedNoAttempt (he_db_now e) (n_id r) err) w'))"
    using assms(2)
    by (elim disjE conjE)
       (simp add: g[symmetric] g(1) assms(3,4) handle_locked_def handle_send_def breaker_open_def, intro exI, rule refl)+
  then obtain a err where hl: "handle_locked dp p e d env (sending_row e r) w0 =
      via_tier (routeToRetryTier p Acked a (m_body d) env
        (exec NoFault (RevertToQueuedNoAttempt (he_db_now e) (n_id r) err) w'))" by blast
  have row: "row_of (n_id r) (w_db (exec NoFault (RevertToQueuedNoAttempt (he_db_now e) (n_id r) err) w')) =
      Some (r\<lparr>n_status := StatusQueued, n_last_error := err, n_updated_at := he_db_now e\<rparr>)"
    using exec_NoAttempt_row[of w' "n_id r" "sending_row e r" "he_db_now e" err] row_setD[OF w0(1)] world by simp
  have "fst (handle_locked dp p e d env (sending_row e r) w0) = HNil"
    unfolding hl using assms(5,6) world by (subst routeToRetryTier_acked) simp_all
  then have "Handle dp p e d w = (HNil, emit [EDel (inflightKey dp (n_id r))] (snd (handle_locked dp p e d env (sending_row e r) w0)))"
    using Handle_not_err[of d dp p e w] h assms(1) by (simp add: picked_def)
  then show ?thesis using row by (auto simp: hl via_tier_row)
qed

theorem Handle_throttled_keeps_attempts_witness:
  "fst (Handle ex_deps ex_pipe (ex_henv BreakerOpen) ex_msg (ex_world (ex_row StatusPending 3))) = HNil"
  using Handle_throttled_keeps_attempts[OF ex_picked[of StatusPending 3], of BreakerOpen ex_pipe] ex_gate[of BreakerOpen "ex_row StatusPending 3"]
  by (simp add: ex_henv_def ex_pipe_def new_pipeline_def ex_world_def)

text \<open>
  C6: A delivery calls the provider at most once, and only after the compare-and-set to
  \<open>sending\<close> won the row, the in-flight lock was taken, the rate limiter granted a token and the
  breaker let the call through; the call carries what the envelope says, and the lock is
  released after it on every path.
\<close>

theorem provider_call_guarded:
  assumes "Handle dp p e d w = (res, w')"
  shows "\<exists>es. w_trace w' = w_trace w @ es \<and> length (filter is_call es) \<le> 1 \<and>
    (\<forall>req corr. ECall req corr \<in> set es \<longrightarrow>
       (\<exists>env nid row d' qs rs.
          unmarshal_envelope (m_body d) = (env, True) \<and> uuid_parse dp (env_NotificationID env) = Some nid \<and>
          corr = env_CorrelationID env \<and>
          req = \<lparr>sq_to = env_Recipient env, sq_channel = env_Channel env, sq_content = env_Content env\<rparr> \<and>
          MarkSendingCAS (he_cas_now e) nid (w_db w) = Inr (row, d') \<and> call_made e w \<and>
          es = ESetNX (inflightKey dp nid) True # ECall req corr # qs @ EDel (inflightKey dp nid) # rs \<and>
          list_all quiet (qs @ rs)))"
  using assms by (rule Handle_calls)

theorem provider_call_guarded_witness:
  "length (filter is_call (w_trace (snd (Handle ex_deps ex_pipe (ex_henv (BreakerCall (Responds 202 [] []))) ex_msg
     (ex_world (ex_row StatusQueued 0)))))) \<le> 1"
proof -
  let ?w = "ex_world (ex_row StatusQueued 0)"
  obtain res w' where h: "Handle ex_deps ex_pipe (ex_henv (BreakerCall (Responds 202 [] []))) ex_msg ?w = (res, w')" by fastforce
  have "w_trace ?w = []" by (simp add: ex_world_def)
  then show ?thesis using provider_call_guarded[OF h] h by auto
qed

text \<open>
  C10: No acknowledgement loses a notification silently. When \<open>Handle\<close> acknowledges a message,
  the notification was not pending or queued any more (another copy, a cancellation or a final
  state took it), or its in-flight lock was held by another worker, or the broker has accepted
  the same body for a wait tier of the channel, or the row is sent.
\<close>

theorem ack_accounted:
  assumes "Handle dp p e d w = (HNil, w')" "db_wf (w_db w)"
  shows "\<exists>env nid. unmarshal_envelope (m_body d) = (env, True) \<and> uuid_parse dp (env_NotificationID env) = Some nid \<and>
    ((case row_of nid (w_db w) of None \<Rightarrow> True | Some r \<Rightarrow> n_status r \<noteq> StatusPending \<and> n_status r \<noteq> StatusQueued) \<or>
     he_setnx e = Some False \<or>
     (\<exists>m. EAccepted m \<in> set (drop (length (w_trace w)) (w_trace w')) \<and> m_body m = m_body d \<and>
          m_exchange m = ExchangeMain \<and> (\<exists>a. m_routing_key m = WaitRoutingKey (env_Channel env) (WaitTierForAttempt a))) \<or>
     (\<exists>r. row_of nid (w_db w') = Some r \<and> n_status r = StatusSent))"
proof -
  have cap: "\<not> over_cap d" using assms(1) by (auto simp: Handle_def)
  obtain x w1 where h: "handle dp p e d w = (x, w1)" by fastforce
  then have x: "x = HNil \<and> w' = w1 \<or>
      x = HErr \<and> requeueViaWaitTier (he_requeue_amqp e) d (currentRedeliveries (m_headers d)) w1 = (None, w')"
    using assms(1) cap by (cases x) (auto simp: Handle_def split: if_splits prod.splits option.splits)
  from h show ?thesis
  proof (cases rule: handle_cases)
    case malformed
    then show ?thesis using x by simp
  next
    case (decoded env nid)
    show ?thesis
    proof (cases "x = HErr")
      case True
      then obtain m where m: "w_trace w' = w_trace w1 @ [EAccepted m]" "m_body m = m_body d" "m_exchange m = ExchangeMain"
        "m_routing_key m = WaitRoutingKey (env_Channel env) ''5s''"
        using requeue_None x decoded(1) by fastforce
      obtain es where "w_trace w1 = w_trace w @ es" using handle_trace[OF h] by blast
      then have "EAccepted m \<in> set (drop (length (w_trace w)) (w_trace w'))" using m by simp
      moreover have "m_routing_key m = WaitRoutingKey (env_Channel env) (WaitTierForAttempt 1)"
        using m by (simp add: WaitTierForAttempt_def)
      ultimately show ?thesis using decoded(1,2) m by blast
    next
      case False
      then have hn: "x = HNil" "w' = w1" using x by auto
      have "handle_cas dp p e d env nid w = (HNil, w')" using decoded(3) hn by simp
      from handle_cas_HNil[OF this assms(2)] show ?thesis using decoded(1,2) by blast
    qed
  qed
qed

theorem ack_accounted_witness:
  "Handle ex_deps ex_pipe (ex_henv BreakerOpen) ex_msg (ex_world (ex_row StatusCancelled 0)) =
     (HNil, ex_world (ex_row StatusCancelled 0)) \<and>
   (\<exists>env nid. unmarshal_envelope (m_body ex_msg) = (env, True) \<and> uuid_parse ex_deps (env_NotificationID env) = Some nid)"
proof -
  let ?e = "ex_henv BreakerOpen" and ?w = "ex_world (ex_row StatusCancelled 0)"
  have c: "MarkSendingCAS (he_cas_now ?e) 1 (w_db ?w) = Inl ErrNoRows"
    by (simp add: MarkSendingCAS_def update_notification_def ex_world_def ex_row_def)
  have h: "Handle ex_deps ex_pipe ?e ex_msg ?w = (HNil, ?w)"
    by (simp add: Handle_def handle_def handle_cas_def run_stmt_def c over_cap_def header_def ex_msg_def
        unmarshal_envelope_json ex_deps_def ex_henv_def[of BreakerOpen] c[unfolded ex_henv_def, simplified])
  have wf: "db_wf (w_db ?w)" by (intro ex_world_wf ex_row_check) simp_all
  show ?thesis using ack_accounted[OF h wf] h by blast
qed

text \<open>The message a timed requeue of a message publishes.\<close>

definition requeued_message :: "message \<Rightarrow> message" where
  "requeued_message d =
     (case unmarshal_envelope (m_body d) of (env, ok) \<Rightarrow>
        \<lparr>m_exchange = ExchangeMain, m_routing_key = WaitRoutingKey (env_Channel env) ''5s'', m_body = m_body d,
         m_headers = [(''x-redeliveries'', HInt32 (i32 (currentRedeliveries (m_headers d) + 1))),
                      (''correlation_id'', HStr (env_CorrelationID env)),
                      (''notification_id'', HStr (env_NotificationID env))],
         m_priority = priorityToAMQP (env_Priority env)\<rparr>)"

lemma requeue_publishes:
  assumes "requeueViaWaitTier out d (currentRedeliveries (m_headers d)) w = (None, w')"
  shows "w_trace w' = w_trace w @ [EAccepted (requeued_message d)]"
  using assms
  by (auto simp: requeueViaWaitTier_def publish_wait_def PublishToWait_def requeued_message_def Let_def
      split: prod.splits dest!: publish_None)

lemma requeued_counter:
  "n \<le> 20 \<Longrightarrow> header (m_headers d) ''x-redeliveries'' = None \<Longrightarrow>
   currentRedeliveries (m_headers ((requeued_message ^^ n) d)) = int n"
proof (induction n)
  case (Suc n)
  then have "i32 (currentRedeliveries (m_headers ((requeued_message ^^ n) d)) + 1) = int (Suc n)"
    by (simp add: i32_def)
  then show ?case
    by (simp add: requeued_message_def[of "(requeued_message ^^ n) d"] currentRedeliveries_def header_def split: prod.splits)
qed (simp add: currentRedeliveries_def)



text \<open>
  The inline wait of the rate-limit gate ends: whatever the limiter answers, the loop takes
  at most 1001 turns before it passes, gives up or fails, since a turn costs at least five
  milliseconds of its five-second budget.
\<close>

theorem inline_wait_bounded:
  "fst (snd (rl_loop it 0 (start + totalInlineBudget) start wait w)) \<le> 1001"
proof -
  obtain g k w' where "rl_loop it 0 (start + totalInlineBudget) start wait w = (g, k, w')" by (metis prod_cases3)
  then show ?thesis
    using rl_loop_turns[of it 0 "start + totalInlineBudget" start wait w g k w']
    by (simp add: totalInlineBudget_def second_def millisecond_def)
qed

subsection \<open>Where the recovery is incomplete\<close>

text \<open>
  When the in-flight lock is found taken, the handler puts the row back to queued and
  acknowledges the message without publishing anything: if the holder of the lock has crashed,
  no copy of the message is left and the sweeper, which looks for \<open>sending\<close> rows only, does not
  see the row.
\<close>

lemma busy_lock_strands:
  assumes "picked dp e d w env r" "he_revert_fault e = NoFault"
  shows "\<exists>w'. Handle dp p (e\<lparr>he_setnx := Some False\<rparr>) d w = (HNil, w') \<and>
    row_of (n_id r) (w_db w') = Some (r\<lparr>n_status := StatusQueued, n_last_error := None, n_updated_at := he_db_now e\<rparr>) \<and>
    w_trace w' = w_trace w @ [ESetNX (inflightKey dp (n_id r)) False]"
proof -
  let ?e = "e\<lparr>he_setnx := Some False\<rparr>"
  obtain d' where q: "MarkSendingCAS (he_cas_now e) (n_id r) (w_db w) = Inr (sending_row e r, d')"
    and rs: "row_set (w_db w) (n_id r) (sending_row e r) d'"
    using MarkSendingCAS_ok[of "w_db w" "n_id r" r "he_cas_now e"] assms(1) by (auto simp: picked_def)
  let ?w1 = "emit [ESetNX (inflightKey dp (n_id r)) False] (w\<lparr>w_db := d'\<rparr>)"
  let ?w2 = "exec NoFault (RevertToQueuedNoAttempt (he_db_now e) (n_id r) None) ?w1"
  have "handle dp p ?e d w = (HNil, ?w2)"
    using assms run_stmt_NoFault_Inr[of "MarkSendingCAS (he_cas_now e) (n_id r)", OF q]
    by (simp add: handle_def handle_cas_def picked_def Let_def)
  then have "Handle dp p ?e d w = (HNil, ?w2)" using assms(1) by (intro Handle_not_err) (auto simp: picked_def)
  moreover have "row_of (n_id r) (w_db ?w2) = Some (r\<lparr>n_status := StatusQueued, n_last_error := None, n_updated_at := he_db_now e\<rparr>)"
    using exec_NoAttempt_row[of ?w1 "n_id r" "sending_row e r" "he_db_now e" None] row_setD[OF rs] by simp
  ultimately show ?thesis by (intro exI[of _ ?w2]) simp
qed

text \<open>
  When the lock call itself fails, the row stays in \<open>sending\<close>: the requeued message is
  acknowledged and dropped on its next delivery, so that only the sweeper brings it back.
\<close>

lemma setnx_error_then_dropped:
  assumes "picked dp e d w env r" "handle dp p (e\<lparr>he_setnx := None\<rparr>) d w = (x, w')"
  shows "x = HErr \<and> handle dp p e' d w' = (HNil, w') \<or> he_cas_fault e' \<noteq> NoFault"
proof (cases "he_cas_fault e' = NoFault")
  case True
  obtain d' where q: "MarkSendingCAS (he_cas_now e) (n_id r) (w_db w) = Inr (sending_row e r, d')"
    and rs: "row_set (w_db w) (n_id r) (sending_row e r) d'"
    using MarkSendingCAS_ok[of "w_db w" "n_id r" r "he_cas_now e"] assms(1) by (auto simp: picked_def)
  have h: "(x, w') = (HErr, w\<lparr>w_db := d'\<rparr>)"
    using assms run_stmt_NoFault_Inr[of "MarkSendingCAS (he_cas_now e) (n_id r)", OF q]
    by (simp add: handle_def handle_cas_def picked_def Let_def)
  have "MarkSendingCAS (he_cas_now e') (n_id r) d' = Inl ErrNoRows"
    using update_NoRows_row[OF row_setD(4)[OF rs]] row_setD(1)[OF rs] by (simp add: MarkSendingCAS_def)
  then have "handle dp p e' d (w\<lparr>w_db := d'\<rparr>) = (HNil, w\<lparr>w_db := d'\<rparr>)"
    using assms(1) True by (simp add: handle_def handle_cas_def picked_def run_stmt_def)
  then show ?thesis using h by simp
qed simp

end
