(* ===== verification/Outbox.thy ===== *)
theory Outbox
  imports Delivery
begin

text \<open>
  The outbox dispatcher of \<open>internal/outbox\<close>: one tick claims a batch, publishes each row and
  records success or failure. Every statement can be lost before or after the server ran it, and
  every publish can fail with or without the broker having taken the message.
\<close>

record outbox_config =
  oc_poll_interval :: time
  oc_batch_size :: int
  oc_claim_ttl :: time
  oc_max_attempts :: int
  oc_dispatcher_id :: string

definition Outbox_Default :: "string \<Rightarrow> outbox_config" where
  "Outbox_Default dispatcherID =
     \<lparr>oc_poll_interval = 250 * millisecond, oc_batch_size = 50, oc_claim_ttl = 60 * second, oc_max_attempts = 10, oc_dispatcher_id = dispatcherID\<rparr>"

record ostate =
  os_db :: db
  os_pub :: publisher
  os_accepted :: "message list"

record dispatch_env =
  de_now :: time
  de_amqp :: amqp_out
  de_published_fault :: fault
  de_queued_fault :: fault
  de_failed_fault :: fault
  de_dead_fault :: fault
  de_dlrow_fault :: fault

definition oexec :: "fault \<Rightarrow> 'a stmt \<Rightarrow> ostate \<Rightarrow> ostate" where
  "oexec f q s = s\<lparr>os_db := snd (run_stmt f q (os_db s))\<rparr>"

text \<open>\<open>json.Unmarshal\<close> of the headers column into a map; anything but an object gives no headers.\<close>

definition headers_of_json :: "json \<Rightarrow> headers" where
  "headers_of_json j =
     (case j of JObj ms \<Rightarrow> map (\<lambda>(k, v). (k, case v of JStr s \<Rightarrow> HStr s | _ \<Rightarrow> HJson v)) ms | _ \<Rightarrow> [])"

definition outbox_priority :: "int \<Rightarrow> int" where
  "outbox_priority p = (let u = p mod 256 in if u > 9 then 9 else u)"

definition row_message :: "outbox_row \<Rightarrow> publish_message" where
  "row_message row =
     \<lparr>pm_routing_key = o_routing_key row, pm_payload = Json (o_payload row),
      pm_headers = headers_of_json (o_headers row), pm_priority = outbox_priority (o_priority row)\<rparr>"

definition markFailure ::
  "deps \<Rightarrow> outbox_config \<Rightarrow> dispatch_env \<Rightarrow> outbox_row \<Rightarrow> string \<Rightarrow> ostate \<Rightarrow> ostate" where
  "markFailure dp cfg e row pubErr s =
     (let attempts = i32 (o_attempt_count row + 1) in
      if attempts \<ge> oc_max_attempts cfg then
        (let s' = (case uuid_parse dp (extractNotificationID (o_payload row)) of
                     None \<Rightarrow> s
                   | Some nid \<Rightarrow>
                       oexec (de_dlrow_fault e)
                         (InsertDeadLetter (de_now e) nid (truncate_str pubErr 500) (o_payload row))
                         (oexec (de_dead_fault e) (MarkDeadLetter (de_now e) nid pubErr) s))
         in oexec (de_published_fault e) (MarkOutboxPublished (de_now e) (o_id row)) s')
      else
        oexec (de_failed_fault e) (MarkOutboxFailed (o_id row) (truncate_str pubErr 1024)) s)"

definition publishRow ::
  "deps \<Rightarrow> outbox_config \<Rightarrow> dispatch_env \<Rightarrow> outbox_row \<Rightarrow> ostate \<Rightarrow> ostate" where
  "publishRow dp cfg e row s =
     (let (err, p', ms) = Publish (os_pub s) (de_amqp e) (row_message row);
          s1 = s\<lparr>os_pub := p', os_accepted := os_accepted s @ ms\<rparr> in
      case err of
        Some pubErr \<Rightarrow> markFailure dp cfg e row pubErr s1
      | None \<Rightarrow>
          (case run_stmt (de_published_fault e) (MarkOutboxPublished (de_now e) (o_id row)) (os_db s1) of
             (Inl _, d') \<Rightarrow> s1\<lparr>os_db := d'\<rparr>
           | (Inr _, d') \<Rightarrow>
               (case uuid_parse dp (extractNotificationID (o_payload row)) of
                  None \<Rightarrow> s1\<lparr>os_db := d'\<rparr>
                | Some nid \<Rightarrow> oexec (de_queued_fault e) (MarkQueued (de_now e) nid) (s1\<lparr>os_db := d'\<rparr>))))"

text \<open>One tick; \<open>es\<close> gives the environment of each claimed row.\<close>

fun publish_rows ::
  "deps \<Rightarrow> outbox_config \<Rightarrow> (nat \<Rightarrow> dispatch_env) \<Rightarrow> nat \<Rightarrow> outbox_row list \<Rightarrow> ostate \<Rightarrow> ostate" where
  "publish_rows dp cfg es k [] s = s"
| "publish_rows dp cfg es k (row # rows) s =
     publish_rows dp cfg es (Suc k) rows (publishRow dp cfg (es k) row s)"

definition outbox_tick ::
  "deps \<Rightarrow> outbox_config \<Rightarrow> fault \<Rightarrow> time \<Rightarrow> uuid list \<Rightarrow> (nat \<Rightarrow> dispatch_env) \<Rightarrow> ostate \<Rightarrow> ostate" where
  "outbox_tick dp cfg f now locked es s =
     (case run_stmt f (ClaimOutboxBatch now (oc_dispatcher_id cfg) (i32 (oc_claim_ttl cfg div second))
                         (i32 (oc_batch_size cfg)) locked) (os_db s) of
        (Inl _, d') \<Rightarrow> s\<lparr>os_db := d'\<rparr>
      | (Inr rows, d') \<Rightarrow> publish_rows dp cfg es 0 rows (s\<lparr>os_db := d'\<rparr>))"

subsection \<open>Lemmas\<close>

lemma oexec_simps [simp]: "os_accepted (oexec f q s) = os_accepted s" "os_pub (oexec f q s) = os_pub s"
  by (simp_all add: oexec_def)

lemma markFailure_accepted [simp]: "os_accepted (markFailure dp cfg e row err s) = os_accepted s"
  by (auto simp: markFailure_def Let_def split: option.splits)

text \<open>What the statements of the dispatcher keep, a tick keeps.\<close>

locale publishing_invariant =
  fixes P :: "db \<Rightarrow> bool"
  assumes kp_claim: "keeps P (ClaimOutboxBatch now did ttl n locked)"
    and kp_published: "keeps P (MarkOutboxPublished now oid)"
    and kp_failed: "keeps P (MarkOutboxFailed oid err)"
    and kp_queued: "keeps P (MarkQueued now nid)"
    and kp_dead: "keeps P (MarkDeadLetter now nid err)"
    and kp_dead_row: "keeps P (InsertDeadLetter now nid reason j)"
begin

lemma oexec_keeps: "keeps P q \<Longrightarrow> P (os_db s) \<Longrightarrow> P (os_db (oexec f q s))"
  by (simp add: oexec_def keeps_run)

lemmas kp = oexec_keeps kp_published kp_failed kp_queued kp_dead kp_dead_row

lemma failure_keeps: "P (os_db s) \<Longrightarrow> P (os_db (markFailure dp cfg e row err s))"
  by (auto simp: markFailure_def Let_def kp split: option.splits)

lemma publish_keeps:
  assumes "P (os_db s)"
  shows "P (os_db (publishRow dp cfg e row s))"
proof -
  have "P (snd (run_stmt (de_published_fault e) (MarkOutboxPublished (de_now e) (o_id row)) (os_db s)))"
    by (rule keeps_run[OF kp_published assms])
  then show ?thesis
    using assms
    by (auto simp: publishRow_def Let_def split: prod.splits option.splits sum.splits intro!: failure_keeps kp)
qed

lemma rows_keep: "P (os_db s) \<Longrightarrow> P (os_db (publish_rows dp cfg es k rows s))"
  by (induction rows arbitrary: k s) (auto intro: publish_keeps)

lemma tick_keeps:
  assumes "P (os_db s)"
  shows "P (os_db (outbox_tick dp cfg f now locked es s))"
proof -
  have "P (snd (run_stmt f (ClaimOutboxBatch now (oc_dispatcher_id cfg) (i32 (oc_claim_ttl cfg div second))
            (i32 (oc_batch_size cfg)) locked) (os_db s)))"
    by (rule keeps_run[OF kp_claim assms])
  then show ?thesis
    by (auto simp: outbox_tick_def split: prod.splits sum.splits intro: rows_keep)
qed

end

interpretation publishing_wf: publishing_invariant db_wf
  by unfold_locales (auto simp: keeps_wf_keeps intro: wf_intros)

text \<open>Which statements touch \<open>published_at\<close> of a row.\<close>

definition orow :: "uuid \<Rightarrow> db \<Rightarrow> outbox_row option" where
  "orow oid d = sel o_id oid (outbox d)"

definition published :: "uuid \<Rightarrow> db \<Rightarrow> bool" where
  "published oid d = (case orow oid d of None \<Rightarrow> False | Some r \<Rightarrow> o_published_at r \<noteq> None)"

definition keeps_outbox :: "'a stmt \<Rightarrow> bool" where
  "keeps_outbox q \<longleftrightarrow> (\<forall>d a d'. q d = Inr (a, d') \<longrightarrow> outbox d' = outbox d)"

lemma keeps_outbox_run: "keeps_outbox q \<Longrightarrow> outbox (snd (run_stmt f q d)) = outbox d"
  using run_stmt_cases[of f q d] by (auto simp: keeps_outbox_def)

lemma keeps_outbox_intros:
  "keeps_outbox (MarkDeadLetter now nid err)" "keeps_outbox (MarkQueued now nid)"
  "keeps_outbox (InsertDeadLetter now nid reason payload)"
proof -
  have dl: "MarkDeadLetter now nid err d = Inr (a, d') \<Longrightarrow> outbox d' = outbox d" for d a d'
    using dead_letter.others[of "(now, nid, err)" d a d'] same_other_tablesD(1) by simp
  show "keeps_outbox (MarkDeadLetter now nid err)" using dl by (auto simp: keeps_outbox_def)
  have mq: "MarkQueued now nid d = Inr (a, d') \<Longrightarrow> outbox d' = outbox d" for d a d'
    using queued.others[of "(now, nid)" d a d'] same_other_tablesD(1) by simp
  show "keeps_outbox (MarkQueued now nid)" using mq by (auto simp: keeps_outbox_def)
qed (auto simp: keeps_outbox_def InsertDeadLetter_def Let_def split: if_splits)

lemma orow_published:
  "orow oid (snd (run_stmt f (MarkOutboxPublished now k) d)) =
     (if f \<noteq> FaultBefore \<and> oid = k then map_option (\<lambda>r. r\<lparr>o_published_at := Some now\<rparr>) (orow oid d) else orow oid d)"
  by (cases f; cases "orow oid d")
     (auto simp: run_stmt_def MarkOutboxPublished_def orow_def sel_upd dest: sel_key)

lemma MarkOutboxFailed_Inr:
  "MarkOutboxFailed k err d = Inr (a, d') \<Longrightarrow>
   d' = d\<lparr>outbox := upd (\<lambda>r. o_id r = k) (\<lambda>r. r\<lparr>o_attempt_count := o_attempt_count r + 1, o_last_error := Some err,
            o_claimed_at := None, o_claimed_by := None\<rparr>) (outbox d)\<rparr>"
  by (simp add: MarkOutboxFailed_def Let_def split: if_splits)

lemma published_failed:
  "published oid (snd (run_stmt f (MarkOutboxFailed k err) d)) = published oid d"
proof -
  consider "snd (run_stmt f (MarkOutboxFailed k err) d) = d" |
    a where "MarkOutboxFailed k err d = Inr (a, snd (run_stmt f (MarkOutboxFailed k err) d))"
    using run_stmt_cases[of f "MarkOutboxFailed k err" d] by blast
  then show ?thesis
  proof cases
    case 2
    show ?thesis
      unfolding MarkOutboxFailed_Inr[OF 2] by (auto simp: published_def orow_def sel_upd split: option.splits)
  qed simp
qed

lemma published_same: "outbox d' = outbox d \<Longrightarrow> published oid d' = published oid d"
  by (simp add: published_def orow_def)

lemma published_published:
  "published oid (snd (run_stmt f (MarkOutboxPublished now k) d)) \<Longrightarrow> published oid d \<or> oid = k"
  using orow_published[of oid f now k d] by (auto simp: published_def split: if_splits option.splits)

lemma Publish_None:
  "Publish p out m = (None, p', ms) \<Longrightarrow>
   ms = [\<lparr>m_exchange = ExchangeMain, m_routing_key = pm_routing_key m, m_body = pm_payload m,
          m_headers = pm_headers m, m_priority = pm_priority m\<rparr>]"
  by (auto simp: Publish_def dest: publish_None)

lemma markFailure_published:
  assumes "published oid (os_db (markFailure dp cfg e row err s))" "\<not> published oid (os_db s)"
  shows "oid = o_id row \<and> oc_max_attempts cfg \<le> i32 (o_attempt_count row + 1)"
proof (cases "oc_max_attempts cfg \<le> i32 (o_attempt_count row + 1)")
  case True
  let ?s = "case uuid_parse dp (extractNotificationID (o_payload row)) of
                     None \<Rightarrow> s
                   | Some nid \<Rightarrow>
                       oexec (de_dlrow_fault e)
                         (InsertDeadLetter (de_now e) nid (truncate_str err 500) (o_payload row))
                         (oexec (de_dead_fault e) (MarkDeadLetter (de_now e) nid err) s)"
  have "outbox (os_db ?s) = outbox (os_db s)"
    by (auto simp: oexec_def keeps_outbox_run keeps_outbox_intros split: option.splits)
  then have "\<not> published oid (os_db ?s)" using assms(2) published_same by blast
  moreover have "published oid (snd (run_stmt (de_published_fault e) (MarkOutboxPublished (de_now e) (o_id row)) (os_db ?s)))"
    using assms(1) True by (simp add: markFailure_def Let_def oexec_def)
  ultimately show ?thesis using published_published True by blast
next
  case False
  then show ?thesis using assms by (simp add: markFailure_def Let_def oexec_def published_failed)
qed

lemma publishRow_acked:
  assumes "de_amqp e = Acked" "pub_chans (os_pub s) \<noteq> []" "de_published_fault e = NoFault"
  obtains p' m d' where "m_exchange m = ExchangeMain" "m_routing_key m = o_routing_key row"
    "m_body m = Json (o_payload row)" "m_priority m = outbox_priority (o_priority row)" "m_headers m = headers_of_json (o_headers row)"
    "MarkOutboxPublished (de_now e) (o_id row) (os_db s) = Inr ((), d')"
    "publishRow dp cfg e row s =
       (case uuid_parse dp (extractNotificationID (o_payload row)) of
          None \<Rightarrow> s\<lparr>os_pub := p', os_accepted := os_accepted s @ [m], os_db := d'\<rparr>
        | Some nid \<Rightarrow> oexec (de_queued_fault e) (MarkQueued (de_now e) nid)
                        (s\<lparr>os_pub := p', os_accepted := os_accepted s @ [m], os_db := d'\<rparr>))"
proof -
  obtain d' where q: "MarkOutboxPublished (de_now e) (o_id row) (os_db s) = Inr ((), d')"
    by (simp add: MarkOutboxPublished_def)
  show thesis
    using assms q
    by (intro that[OF _ _ _ _ _ q])
       (simp_all add: publishRow_def Publish_def publish_Acked row_message_def Let_def run_stmt_def split: option.splits)
qed

lemma MarkOutboxPublished_Inr:
  "MarkOutboxPublished now oid d = Inr (a, d') \<Longrightarrow>
   d' = d\<lparr>outbox := upd (\<lambda>r. o_id r = oid) (\<lambda>r. r\<lparr>o_published_at := Some now\<rparr>) (outbox d)\<rparr>"
  by (simp add: MarkOutboxPublished_def)

lemma Publish_error: "out \<noteq> Acked \<or> pub_chans p = [] \<Longrightarrow> fst (Publish p out m) \<noteq> None"
  by (cases "pub_chans p = []"; cases out) (simp_all add: Publish_def publish_def pickChannel_def Let_def)

lemma publishRow_error:
  assumes "de_amqp e \<noteq> Acked \<or> pub_chans (os_pub s) = []"
  obtains err p' ms where "publishRow dp cfg e row s = markFailure dp cfg e row err (s\<lparr>os_pub := p', os_accepted := os_accepted s @ ms\<rparr>)"
    "1 \<le> pg_length (truncate_str err 500)"
proof -
  obtain err p' ms where pb: "Publish (os_pub s) (de_amqp e) (row_message row) = (err, p', ms)"
    by (metis prod_cases3)
  obtain pe where pe: "err = Some pe"
    using Publish_error[OF assms, of "row_message row"] pb by auto
  have "\<not> utf8_cont CHR ''p''" "\<not> utf8_cont CHR ''c''" by (simp_all add: utf8_cont_def)
  then obtain c t where "pe = c # t" "\<not> utf8_cont c"
    using publish_Some_nonempty[OF pb[unfolded pe Publish_def]] by blast
  then have "1 \<le> pg_length (truncate_str pe 500)" by (simp add: truncate_take take_Cons' pg_length_def)
  moreover have "publishRow dp cfg e row s = markFailure dp cfg e row pe (s\<lparr>os_pub := p', os_accepted := os_accepted s @ ms\<rparr>)"
    using pb pe by (simp add: publishRow_def)
  ultimately show thesis using that by blast
qed

lemma InsertOutbox_Inr:
  assumes "InsertOutbox now oid nid rk pl h pr d = Inr (o1, d')"
  shows "notifications d' = notifications d" "outbox d' = outbox d @ [o1]" "o_notification_id o1 = nid"
    "o_payload o1 = pl" "o_published_at o1 = None" "o_routing_key o1 = rk" "o_claimed_at o1 = None" "o_id o1 = oid"
  using assms by (auto simp: InsertOutbox_def Let_def split: if_splits)

text \<open>An outbox row that carries a notification: unpublished, unclaimed, on the key of its channel, and a worker decodes its payload to the notification.\<close>

definition carries :: "deps \<Rightarrow> notification \<Rightarrow> outbox_row \<Rightarrow> bool" where
  "carries dp r o1 \<longleftrightarrow>
     o_notification_id o1 = n_id r \<and> o_published_at o1 = None \<and> o_claimed_at o1 = None \<and>
     o_routing_key o1 = RoutingKey (n_channel r) \<and>
     unmarshal_envelope (Json (o_payload o1)) =
       (\<lparr>env_NotificationID = uuid_str dp (n_id r), env_Channel = n_channel r, env_Recipient = n_recipient r,
         env_Content = n_content r, env_Priority = PriorityFromInt (n_priority r), env_CorrelationID = n_correlation_id r\<rparr>, True)"

lemma publishRow_published:
  assumes "db_wf (os_db s)" "orow (o_id row) (os_db s) \<noteq> None"
    and "de_amqp e = Acked" "pub_chans (os_pub s) \<noteq> []" "de_published_fault e = NoFault" "de_queued_fault e = NoFault"
    and "uuid_parse dp (extractNotificationID (o_payload row)) = Some nid" "row_of nid (os_db s) = Some r"
    and "n_status r = StatusPending"
  shows "published (o_id row) (os_db (publishRow dp cfg e row s)) \<and>
    row_of nid (os_db (publishRow dp cfg e row s)) = Some (r\<lparr>n_status := StatusQueued, n_updated_at := de_now e\<rparr>) \<and>
    (\<exists>m. os_accepted (publishRow dp cfg e row s) = os_accepted s @ [m] \<and> m_body m = Json (o_payload row) \<and>
         m_routing_key m = o_routing_key row \<and> m_priority m = outbox_priority (o_priority row) \<and>
         m_headers m = headers_of_json (o_headers row))"
proof -
  obtain p' m d' where m: "m_routing_key m = o_routing_key row" "m_body m = Json (o_payload row)"
      "m_priority m = outbox_priority (o_priority row)" "m_headers m = headers_of_json (o_headers row)"
    and q: "MarkOutboxPublished (de_now e) (o_id row) (os_db s) = Inr ((), d')"
    and p: "publishRow dp cfg e row s = oexec NoFault (MarkQueued (de_now e) nid)
              (s\<lparr>os_pub := p', os_accepted := os_accepted s @ [m], os_db := d'\<rparr>)"
    using publishRow_acked[OF assms(3-5), of row dp cfg] unfolding assms(6,7) option.simps(5) by metis
  note d' = MarkOutboxPublished_Inr[OF q]
  have wf: "db_wf d'" using keeps_wfD[OF MarkOutboxPublished_wf assms(1) q] .
  have row: "row_of nid d' = Some r" using assms(8) unfolding d' by simp
  have pub: "published (o_id row) d'"
    using assms(2) unfolding d' by (auto simp: published_def orow_def sel_upd dest: sel_key split: option.splits)
  obtain d'' where mq: "MarkQueued (de_now e) nid d' = Inr (r\<lparr>n_status := StatusQueued, n_updated_at := de_now e\<rparr>, d'')"
    and rs: "row_set d' nid (r\<lparr>n_status := StatusQueued, n_updated_at := de_now e\<rparr>) d''"
    using MarkQueued_ok[OF wf row assms(9)] by blast
  have "outbox d'' = outbox d'" using same_other_tablesD(1)[OF row_setD(3)[OF rs]] .
  then have "published (o_id row) d''" using pub published_same by blast
  then show ?thesis
    using p m row_setD(1)[OF rs] run_stmt_NoFault_Inr[of "MarkQueued (de_now e) nid", OF mq] by (simp add: oexec_def)
qed

subsection \<open>A concrete outbox row\<close>

definition ex_orow :: "int \<Rightarrow> outbox_row" where
  "ex_orow n = \<lparr>o_id = 7, o_notification_id = 1, o_routing_key = RoutingKey ''sms'',
               o_payload = envelope_json ''a'' ''sms'' ''+15550100'' ''hi'' ''normal'' ''c'', o_headers = JObj [],
               o_priority = 5, o_created_at = 0, o_claimed_at = Some 0, o_claimed_by = Some ''d'',
               o_published_at = None, o_attempt_count = n, o_last_error = None\<rparr>"

definition ex_denv :: "amqp_out \<Rightarrow> dispatch_env" where
  "ex_denv out = \<lparr>de_now = 5, de_amqp = out, de_published_fault = NoFault, de_queued_fault = NoFault,
                  de_failed_fault = NoFault, de_dead_fault = NoFault, de_dlrow_fault = NoFault\<rparr>"

definition ex_ostate :: "status \<Rightarrow> int \<Rightarrow> ostate" where
  "ex_ostate st n = \<lparr>os_db = empty_db\<lparr>notifications := [ex_row st 0], outbox := [ex_orow n]\<rparr>,
                     os_pub = \<lparr>pub_chans = [0], pub_round_robin = 0, pub_conn_open = True, pub_stopped = False\<rparr>,
                     os_accepted = []\<rparr>"

lemma ex_ostate_wf:
  assumes "st \<noteq> StatusSent" "0 \<le> n" "n < 100"
  shows "db_wf (os_db (ex_ostate st n))"
proof -
  have "notif_check (ex_row st 0)" using assms(1) by (intro ex_row_check) simp_all
  moreover have "outbox_check (ex_orow n)" using assms(2,3)
    by (simp add: ex_orow_def outbox_check_def priority_check_def int4_def i32_range_def)
  moreover have "o_notification_id (ex_orow n) = n_id (ex_row st 0)" by (simp add: ex_orow_def ex_row_def)
  ultimately show ?thesis by (simp add: ex_ostate_def db_wf_def empty_db_def)
qed

lemma ex_parse [simp]: "uuid_parse ex_deps (extractNotificationID (o_payload (ex_orow n))) = Some 1"
  by (simp add: ex_deps_def ex_orow_def extractNotificationID_envelope)

subsection \<open>Properties\<close>

text \<open>
  When the broker confirms, the row is published and its notification, if still pending,
  becomes queued; the confirmed message carries the row's payload, routing key, priority and headers.
\<close>

theorem publishRow_success:
  assumes "db_wf (os_db s)" "orow (o_id row) (os_db s) \<noteq> None"
    and "de_amqp e = Acked" "pub_chans (os_pub s) \<noteq> []" "de_published_fault e = NoFault" "de_queued_fault e = NoFault"
    and "uuid_parse dp (extractNotificationID (o_payload row)) = Some nid" "row_of nid (os_db s) = Some r"
    and "n_status r = StatusPending"
  shows "published (o_id row) (os_db (publishRow dp cfg e row s)) \<and>
    row_of nid (os_db (publishRow dp cfg e row s)) = Some (r\<lparr>n_status := StatusQueued, n_updated_at := de_now e\<rparr>) \<and>
    (\<exists>m. os_accepted (publishRow dp cfg e row s) = os_accepted s @ [m] \<and> m_body m = Json (o_payload row) \<and>
         m_routing_key m = o_routing_key row \<and> m_priority m = outbox_priority (o_priority row) \<and>
         m_headers m = headers_of_json (o_headers row))"
  using assms by (rule publishRow_published)

theorem publishRow_success_witness:
  "published 7 (os_db (publishRow ex_deps (Outbox_Default ''d'') (ex_denv Acked) (ex_orow 0) (ex_ostate StatusPending 0)))"
proof -
  let ?s = "ex_ostate StatusPending 0" and ?e = "ex_denv Acked"
  have wf: "db_wf (os_db ?s)" by (rule ex_ostate_wf) simp_all
  have o: "orow (o_id (ex_orow 0)) (os_db ?s) \<noteq> None" by (simp add: orow_def ex_ostate_def)
  have c: "de_amqp ?e = Acked" "pub_chans (os_pub ?s) \<noteq> []" "de_published_fault ?e = NoFault" "de_queued_fault ?e = NoFault"
    by (simp_all add: ex_denv_def ex_ostate_def)
  have r: "row_of 1 (os_db ?s) = Some (ex_row StatusPending 0)" by (simp add: row_of_def ex_ostate_def ex_row_def)
  have st: "n_status (ex_row StatusPending 0) = StatusPending" "o_id (ex_orow 0) = 7" by (simp_all add: ex_row_def ex_orow_def)
  show ?thesis using publishRow_success[OF wf o c ex_parse r st(1)] st(2) by simp
qed

text \<open>
  C9: A row leaves the outbox only for a reason. When \<open>publishRow\<close> makes a row published that
  was not, it is the row it was called for, and either the broker has confirmed the row's
  payload under the row's routing key, or the row had used up its ten attempts.
\<close>

theorem published_accounted:
  assumes "published oid (os_db (publishRow dp cfg e row s))" "\<not> published oid (os_db s)"
  shows "oid = o_id row \<and>
    ((\<exists>m. os_accepted (publishRow dp cfg e row s) = os_accepted s @ [m] \<and> m_exchange m = ExchangeMain \<and>
          m_routing_key m = o_routing_key row \<and> m_body m = Json (o_payload row)) \<or>
     oc_max_attempts cfg \<le> i32 (o_attempt_count row + 1))"
proof -
  obtain err p' ms where pb: "Publish (os_pub s) (de_amqp e) (row_message row) = (err, p', ms)"
    by (metis prod_cases3)
  let ?s1 = "s\<lparr>os_pub := p', os_accepted := os_accepted s @ ms\<rparr>"
  show ?thesis
  proof (cases err)
    case (Some pe)
    then have "publishRow dp cfg e row s = markFailure dp cfg e row pe ?s1" using pb by (simp add: publishRow_def)
    then show ?thesis using markFailure_published[of oid dp cfg e row pe ?s1] assms by simp
  next
    case None
    obtain x d' where run: "run_stmt (de_published_fault e) (MarkOutboxPublished (de_now e) (o_id row)) (os_db s) = (x, d')"
      by fastforce
    have mq: "outbox (snd (run_stmt f (MarkQueued now nid) d)) = outbox d" for f now nid d
      by (rule keeps_outbox_run) (rule keeps_outbox_intros)
    have ob: "outbox (os_db (publishRow dp cfg e row s)) = outbox d'"
      and acc: "os_accepted (publishRow dp cfg e row s) = os_accepted s @ ms"
      using pb None run
      by (cases x; cases "uuid_parse dp (extractNotificationID (o_payload row))";
          simp add: publishRow_def oexec_def mq)+
    have "published oid d'" using assms(1) published_same[OF ob] by simp
    then have "oid = o_id row"
      using published_published[of oid "de_published_fault e" "de_now e" "o_id row" "os_db s"] run assms(2) by simp
    then show ?thesis using acc Publish_None[OF pb[unfolded None]] by (simp add: row_message_def)
  qed
qed

theorem published_accounted_witness:
  "\<exists>m. os_accepted (publishRow ex_deps (Outbox_Default ''d'') (ex_denv Acked) (ex_orow 0) (ex_ostate StatusPending 0)) = [m]"
proof -
  let ?s = "ex_ostate StatusPending 0" and ?e = "ex_denv Acked"
  have np: "\<not> published 7 (os_db ?s)" by (simp add: published_def orow_def ex_ostate_def ex_orow_def)
  have c: "de_amqp ?e = Acked" "pub_chans (os_pub ?s) \<noteq> []" "de_published_fault ?e = NoFault"
    by (simp_all add: ex_denv_def ex_ostate_def)
  obtain p' m d' where q: "MarkOutboxPublished (de_now ?e) (o_id (ex_orow 0)) (os_db ?s) = Inr ((), d')"
    and p: "publishRow ex_deps (Outbox_Default ''d'') ?e (ex_orow 0) ?s = oexec (de_queued_fault ?e) (MarkQueued (de_now ?e) 1)
              (?s\<lparr>os_pub := p', os_accepted := os_accepted ?s @ [m], os_db := d'\<rparr>)"
    using publishRow_acked[OF c, of "ex_orow 0" ex_deps "Outbox_Default ''d''"] unfolding ex_parse option.simps(5) by metis
  have "published 7 d'"
    unfolding MarkOutboxPublished_Inr[OF q] by (simp add: published_def orow_def ex_ostate_def ex_orow_def)
  then have "published 7 (os_db (publishRow ex_deps (Outbox_Default ''d'') ?e (ex_orow 0) ?s))"
    using published_same[OF keeps_outbox_run[OF keeps_outbox_intros(2)]] by (simp add: p oexec_def)
  note acc = published_accounted[OF this np]
  have "\<not> oc_max_attempts (Outbox_Default ''d'') \<le> i32 (o_attempt_count (ex_orow 0) + 1)"
    by (simp add: Outbox_Default_def ex_orow_def i32_def)
  moreover have "os_accepted ?s = []" by (simp add: ex_ostate_def)
  ultimately show ?thesis using acc by auto
qed

text \<open>
  A failed publish loses nothing. Below the attempt limit the row stays unpublished with one
  more attempt on its count and its claim released, so the next tick of any dispatcher can claim
  it; its payload, routing key and notification are untouched.
\<close>

theorem publishRow_failure_retries:
  assumes "db_wf (os_db s)" "orow (o_id row) (os_db s) = Some row" "o_published_at row = None"
    and "de_amqp e \<noteq> Acked \<or> pub_chans (os_pub s) = []" "de_failed_fault e = NoFault"
    and "o_attempt_count row + 1 < oc_max_attempts cfg" "oc_max_attempts cfg < 2 ^ 31"
  shows "notifications (os_db (publishRow dp cfg e row s)) = notifications (os_db s) \<and>
    (\<exists>err. let r' = row\<lparr>o_attempt_count := o_attempt_count row + 1, o_last_error := Some err,
                         o_claimed_at := None, o_claimed_by := None\<rparr> in
       orow (o_id row) (os_db (publishRow dp cfg e row s)) = Some r' \<and> outbox_claimable now ttl r')"
proof -
  obtain err p' ms where p: "publishRow dp cfg e row s =
      markFailure dp cfg e row err (s\<lparr>os_pub := p', os_accepted := os_accepted s @ ms\<rparr>)"
    using publishRow_error[OF assms(4)] by blast
  let ?f = "\<lambda>r. r\<lparr>o_attempt_count := o_attempt_count r + 1, o_last_error := Some (truncate_str err 1024),
                     o_claimed_at := None, o_claimed_by := None\<rparr>"
  have chk: "outbox_check row" "distinct (map o_id (outbox (os_db s)))"
    using assms(1,2) by (auto simp: db_wf_def orow_def list_all_iff dest: sel_in_set)
  then have rng: "i32 (o_attempt_count row + 1) = o_attempt_count row + 1"
    using assms(6,7) by (intro i32_id) (simp add: outbox_check_def i32_range_def)
  have fc: "outbox_check (?f row)" using chk(1) assms(6,7) by (auto simp: outbox_check_def int4_def i32_range_def)
  have only: "r \<in> set (outbox (os_db s)) \<Longrightarrow> o_id r = o_id row \<Longrightarrow> r = row" for r
    using sel_distinct[OF chk(2), of r] assms(2) by (simp add: orow_def)
  have "MarkOutboxFailed (o_id row) (truncate_str err 1024) (os_db s) =
      Inr ((), (os_db s)\<lparr>outbox := upd (\<lambda>r. o_id r = o_id row) ?f (outbox (os_db s))\<rparr>)"
    using only fc by (auto simp: MarkOutboxFailed_def Let_def list_all_iff)
  then have "os_db (publishRow dp cfg e row s) =
      (os_db s)\<lparr>outbox := upd (\<lambda>r. o_id r = o_id row) ?f (outbox (os_db s))\<rparr>"
    using assms(5,6) rng by (simp add: p markFailure_def oexec_def run_stmt_def)
  then show ?thesis
    using assms(2,3) by (auto simp: orow_def sel_upd outbox_claimable_def Let_def)
qed

theorem publishRow_failure_retries_witness:
  "\<exists>r'. orow 7 (os_db (publishRow ex_deps (Outbox_Default ''d'') (ex_denv Nacked) (ex_orow 0) (ex_ostate StatusPending 0))) = Some r' \<and>
        outbox_claimable 6 60 r'"
proof -
  let ?s = "ex_ostate StatusPending 0" and ?e = "ex_denv Nacked"
  have wf: "db_wf (os_db ?s)" by (rule ex_ostate_wf) simp_all
  have o: "orow (o_id (ex_orow 0)) (os_db ?s) = Some (ex_orow 0)" by (simp add: orow_def ex_ostate_def)
  have c: "o_published_at (ex_orow 0) = None" "de_amqp ?e \<noteq> Acked \<or> pub_chans (os_pub ?s) = []" "de_failed_fault ?e = NoFault"
    "o_attempt_count (ex_orow 0) + 1 < oc_max_attempts (Outbox_Default ''d'')" "oc_max_attempts (Outbox_Default ''d'') < 2 ^ 31"
    by (simp_all add: ex_denv_def ex_orow_def Outbox_Default_def)
  have "o_id (ex_orow 0) = 7" by (simp add: ex_orow_def)
  then show ?thesis using publishRow_failure_retries[OF wf o c, of ex_deps 6 60] by (auto simp: Let_def)
qed

text \<open>
  C27: At the attempt limit a row that cannot be published is given up visibly: its notification
  becomes dead_letter with the publish error, a dead letter with the row's payload is on file, and
  the outbox row is closed.
\<close>

theorem publishRow_exhausted:
  assumes "db_wf (os_db s)" "orow (o_id row) (os_db s) = Some row"
    and "de_amqp e \<noteq> Acked \<or> pub_chans (os_pub s) = []"
    and "de_dead_fault e = NoFault" "de_dlrow_fault e = NoFault" "de_published_fault e = NoFault"
    and "oc_max_attempts cfg \<le> i32 (o_attempt_count row + 1)"
    and "uuid_parse dp (extractNotificationID (o_payload row)) = Some nid"
    and "row_of nid (os_db s) = Some r" "n_status r \<noteq> StatusSent"
  shows "(\<exists>err. row_of nid (os_db (publishRow dp cfg e row s)) =
               Some (r\<lparr>n_status := StatusDeadLetter, n_last_error := Some err, n_updated_at := de_now e\<rparr>)) \<and>
    sel dl_notification_id nid (dead_letters (os_db (publishRow dp cfg e row s))) \<noteq> None \<and>
    published (o_id row) (os_db (publishRow dp cfg e row s))"
proof -
  obtain err p' ms where p: "publishRow dp cfg e row s =
      markFailure dp cfg e row err (s\<lparr>os_pub := p', os_accepted := os_accepted s @ ms\<rparr>)"
    and ne: "1 \<le> pg_length (truncate_str err 500)"
    using publishRow_error[OF assms(3)] by blast
  let ?r = "r\<lparr>n_status := StatusDeadLetter, n_last_error := Some err, n_updated_at := de_now e\<rparr>"
  obtain d1 where m: "MarkDeadLetter (de_now e) nid err (os_db s) = Inr (?r, d1)" and rs: "row_set (os_db s) nid ?r d1"
    using MarkDeadLetter_ok[OF assms(1,9,10)] by blast
  define d2 where "d2 = snd (run_stmt NoFault (InsertDeadLetter (de_now e) nid (truncate_str err 500) (o_payload row)) d1)"
  have n1: "sel n_id nid (notifications d1) = Some ?r" using row_setD(1)[OF rs] by (simp add: row_of_def)
  have d2: "notifications d2 = notifications d1 \<and> outbox d2 = outbox d1 \<and> sel dl_notification_id nid (dead_letters d2) \<noteq> None"
    using n1 ne pg_length_truncate[of err 500]
    by (auto simp: d2_def run_stmt_def InsertDeadLetter_def Let_def dead_letter_check_def sel_append)
  have ob: "outbox d1 = outbox (os_db s)" using same_other_tablesD(1)[OF row_setD(3)[OF rs]] .
  have "os_db (publishRow dp cfg e row s) =
      d2\<lparr>outbox := upd (\<lambda>r. o_id r = o_id row) (\<lambda>r. r\<lparr>o_published_at := Some (de_now e)\<rparr>) (outbox d2)\<rparr>"
    using assms(4-8) m unfolding p markFailure_def d2_def by (simp add: oexec_def run_stmt_def MarkOutboxPublished_def)
  then show ?thesis
    using d2 n1 ob assms(2) by (auto simp: row_of_def published_def orow_def sel_upd)
qed

theorem publishRow_exhausted_witness:
  "sel dl_notification_id 1 (dead_letters (os_db
     (publishRow ex_deps (Outbox_Default ''d'') (ex_denv Nacked) (ex_orow 9) (ex_ostate StatusPending 9)))) \<noteq> None"
proof -
  let ?s = "ex_ostate StatusPending 9" and ?e = "ex_denv Nacked"
  have wf: "db_wf (os_db ?s)" by (rule ex_ostate_wf) simp_all
  have o: "orow (o_id (ex_orow 9)) (os_db ?s) = Some (ex_orow 9)" by (simp add: orow_def ex_ostate_def)
  have c: "de_amqp ?e \<noteq> Acked \<or> pub_chans (os_pub ?s) = []"
    "de_dead_fault ?e = NoFault" "de_dlrow_fault ?e = NoFault" "de_published_fault ?e = NoFault"
    "oc_max_attempts (Outbox_Default ''d'') \<le> i32 (o_attempt_count (ex_orow 9) + 1)"
    by (simp_all add: ex_denv_def ex_orow_def Outbox_Default_def i32_def)
  have r: "row_of 1 (os_db ?s) = Some (ex_row StatusPending 0)" by (simp add: row_of_def ex_ostate_def ex_row_def)
  have st: "n_status (ex_row StatusPending 0) \<noteq> StatusSent" by (simp add: ex_row_def)
  show ?thesis using publishRow_exhausted[OF wf o c ex_parse r st] by blast
qed

text \<open>
  A row at its limit whose notification was meanwhile delivered: the CHECK constraint keeps the
  notification sent, but the dead letter is filed all the same.
\<close>

lemma MarkDeadLetter_sent:
  assumes "db_wf d" "row_of nid d = Some r" "n_status r = StatusSent"
  shows "run_stmt f (MarkDeadLetter now nid err) d = (Inl (if f = FaultBefore then ErrInfra else ErrConstraint ''notifications''), d)"
proof -
  have "\<not> notif_check (r\<lparr>n_status := StatusDeadLetter, n_last_error := Some err, n_updated_at := now\<rparr>)"
    using row_of_check[OF assms(1,2)] assms(3) by (auto simp: notif_check_def)
  moreover have "find (\<lambda>r. n_id r = nid \<and> True) (notifications d) = Some r"
    using find_guard[of "notifications d" nid r "\<lambda>_. True"] assms(1,2) by (simp add: db_wf_def row_of_def)
  ultimately show ?thesis by (cases f) (simp_all add: run_stmt_def MarkDeadLetter_def update_notification_def)
qed

lemma sent_notification_dead_lettered:
  assumes "db_wf (os_db s)" "de_amqp e \<noteq> Acked \<or> pub_chans (os_pub s) = []" "de_dlrow_fault e = NoFault"
    and "oc_max_attempts cfg \<le> i32 (o_attempt_count row + 1)"
    and "uuid_parse dp (extractNotificationID (o_payload row)) = Some nid"
    and "row_of nid (os_db s) = Some r" "n_status r = StatusSent"
  shows "row_of nid (os_db (publishRow dp cfg e row s)) = Some r \<and>
    sel dl_notification_id nid (dead_letters (os_db (publishRow dp cfg e row s))) \<noteq> None"
proof -
  obtain err p' ms where p: "publishRow dp cfg e row s =
      markFailure dp cfg e row err (s\<lparr>os_pub := p', os_accepted := os_accepted s @ ms\<rparr>)"
    and ne: "1 \<le> pg_length (truncate_str err 500)"
    using publishRow_error[OF assms(2)] by blast
  define d2 where "d2 = snd (run_stmt NoFault (InsertDeadLetter (de_now e) nid (truncate_str err 500) (o_payload row)) (os_db s))"
  have d2: "notifications d2 = notifications (os_db s) \<and> sel dl_notification_id nid (dead_letters d2) \<noteq> None"
    using assms(6) ne pg_length_truncate[of err 500]
    by (auto simp: d2_def run_stmt_def InsertDeadLetter_def Let_def dead_letter_check_def sel_append row_of_def)
  have db: "os_db (publishRow dp cfg e row s) = snd (run_stmt (de_published_fault e) (MarkOutboxPublished (de_now e) (o_id row)) d2)"
    using assms(3-5) MarkDeadLetter_sent[OF assms(1,6,7)] unfolding p markFailure_def d2_def by (simp add: oexec_def)
  show ?thesis
    using d2 assms(6) unfolding db
    by (cases "de_published_fault e") (simp_all add: run_stmt_def MarkOutboxPublished_def row_of_def)
qed

end
