(* ===== verification/Scheduler.thy ===== *)
theory Scheduler
  imports Outbox
begin

text \<open>
  The scheduler of \<open>internal/scheduler\<close>: one tick claims the due rows of the sidecar table and
  dispatches each in a transaction of its own. A transaction is one atomic statement; each call of
  it can be lost, which abandons it, and the commit can fail before or after taking effect. The
  columns that the first read of the transaction hands to the envelope are never updated by any
  statement, so reading them earlier than the compare-and-set makes no difference.
\<close>

record scheduler_config =
  sc_poll_interval :: time
  sc_batch_size :: int
  sc_scheduler_id :: string
  sc_claim_ttl :: time

definition Scheduler_Default :: "string \<Rightarrow> scheduler_config" where
  "Scheduler_Default schedulerID =
     \<lparr>sc_poll_interval = second, sc_batch_size = 50, sc_scheduler_id = schedulerID, sc_claim_ttl = 60 * second\<rparr>"

record sched_env =
  se_now :: time
  se_outbox_id :: uuid
  se_begin_lost :: bool
  se_get_lost :: bool
  se_mark_lost :: bool
  se_insert_lost :: bool
  se_delete_lost :: bool
  se_commit :: fault

definition scheduled_payload :: "deps \<Rightarrow> uuid \<Rightarrow> notification \<Rightarrow> json" where
  "scheduled_payload dp nid r =
     envelope_json (uuid_str dp nid) (n_channel r) (n_recipient r) (n_content r) (priorityLabel (n_priority r)) (n_correlation_id r)"

definition dispatchOne_tx :: "deps \<Rightarrow> sched_env \<Rightarrow> uuid \<Rightarrow> unit stmt" where
  "dispatchOne_tx dp e nid =
     bind_stmt (guard_stmt (se_get_lost e) (GetNotificationByID nid)) (\<lambda>notif d.
       case guard_stmt (se_mark_lost e) (MarkScheduledPending (se_now e) nid) d of
         Inl ErrNoRows \<Rightarrow> guard_stmt (se_delete_lost e) (DeleteScheduled nid) d
       | Inl err \<Rightarrow> Inl err
       | Inr (_, d1) \<Rightarrow>
           bind_stmt
             (guard_stmt (se_insert_lost e)
               (InsertOutbox (se_now e) (se_outbox_id e) nid (RoutingKey (n_channel notif)) (scheduled_payload dp nid notif)
                 (JObj [(''x-correlation-id'', JStr (n_correlation_id notif))]) (n_priority notif)))
             (\<lambda>_. guard_stmt (se_delete_lost e) (DeleteScheduled nid)) d1)"

definition dispatchOne :: "deps \<Rightarrow> sched_env \<Rightarrow> uuid \<Rightarrow> db \<Rightarrow> db" where
  "dispatchOne dp e nid d =
     (if se_begin_lost e then d else snd (run_stmt (se_commit e) (dispatchOne_tx dp e nid) d))"

fun dispatch_rows :: "deps \<Rightarrow> (nat \<Rightarrow> sched_env) \<Rightarrow> nat \<Rightarrow> scheduled_row list \<Rightarrow> db \<Rightarrow> db" where
  "dispatch_rows dp es k [] d = d"
| "dispatch_rows dp es k (row # rows) d = dispatch_rows dp es (Suc k) rows (dispatchOne dp (es k) (s_id row) d)"

definition scheduler_tick ::
  "deps \<Rightarrow> scheduler_config \<Rightarrow> fault \<Rightarrow> time \<Rightarrow> uuid list \<Rightarrow> (nat \<Rightarrow> sched_env) \<Rightarrow> db \<Rightarrow> db" where
  "scheduler_tick dp cfg f now locked es d =
     (case run_stmt f (ClaimDueScheduled now (sc_scheduler_id cfg) (i32 (sc_claim_ttl cfg div second))
                         (i32 (sc_batch_size cfg)) locked) d of
        (Inl _, d') \<Rightarrow> d'
      | (Inr rows, d') \<Rightarrow> dispatch_rows dp es 0 rows d')"

subsection \<open>Lemmas\<close>

text \<open>The three things a dispatch transaction can do.\<close>

lemma dispatchOne_tx_cases:
  assumes "dispatchOne_tx dp e nid d = Inr ((), d')"
  obtains (dropped) "MarkScheduledPending (se_now e) nid d = Inl ErrNoRows" "DeleteScheduled nid d = Inr ((), d')"
  | (sent) n r d1 o1 d2 where "row_of nid d = Some n" "MarkScheduledPending (se_now e) nid d = Inr (r, d1)"
      "InsertOutbox (se_now e) (se_outbox_id e) nid (RoutingKey (n_channel n)) (scheduled_payload dp nid n)
         (JObj [(''x-correlation-id'', JStr (n_correlation_id n))]) (n_priority n) d1 = Inr (o1, d2)"
      "DeleteScheduled nid d2 = Inr ((), d')"
  using assms
  by (auto simp: dispatchOne_tx_def bind_stmt_def guard_stmt_def GetNotificationByID_def row_of_def
      split: if_splits option.splits sum.splits prod.splits db_error.splits)

lemma dispatchOne_tx_wf: "keeps_wf (dispatchOne_tx dp e nid)"
proof (rule keeps_wfI)
  fix d a d' assume wf: "db_wf d" and "dispatchOne_tx dp e nid d = Inr (a, d')"
  then have "dispatchOne_tx dp e nid d = Inr ((), d')" by simp
  then show "db_wf d'"
  proof (cases rule: dispatchOne_tx_cases)
    case dropped
    then show ?thesis using keeps_wfD[of "DeleteScheduled nid"] wf scheduled_wf(2) by blast
  next
    case (sent n r d1 o1 d2)
    have "keeps_wf (MarkScheduledPending (se_now e) nid)" by (intro wf_intros)
    then have "db_wf d1" using wf sent(2) by (rule keeps_wfD)
    then have "db_wf d2" using keeps_wfD[OF InsertOutbox_wf _ sent(3)] by blast
    then show ?thesis using keeps_wfD[OF scheduled_wf(2) _ sent(4)] by blast
  qed
qed

lemma dispatchOne_wf: "db_wf d \<Longrightarrow> db_wf (dispatchOne dp e nid d)"
  by (simp add: dispatchOne_def keeps_wf_run_stmt[OF dispatchOne_tx_wf])

lemma DeleteScheduled_simps:
  assumes "DeleteScheduled nid d = Inr (a, d')"
  shows "row_of k d' = row_of k d" "outbox d' = outbox d"
    "sel s_id nid (scheduled_notifications d') = None" "notifications d' = notifications d"
  using assms by (auto simp: DeleteScheduled_def row_of_def sel_None_iff)

lemma dispatchOne_other_row:
  assumes "k \<noteq> nid"
  shows "row_of k (dispatchOne dp e nid d) = row_of k d"
proof -
  have "row_of k d' = row_of k d" if "dispatchOne_tx dp e nid d = Inr ((), d')" for d'
    using that
  proof (cases rule: dispatchOne_tx_cases)
    case dropped
    then show ?thesis by (simp add: DeleteScheduled_simps(1))
  next
    case (sent n r d1 o1 d2)
    have "row_of k d1 = row_of k d"
      using scheduled_pending.lookup[of "(se_now e, nid)" d r d1 k] sent(2) assms by (auto simp: row_of_def split: option.splits)
    then show ?thesis using InsertOutbox_Inr(1)[OF sent(3)] DeleteScheduled_simps(1)[OF sent(4)] by (simp add: row_of_def)
  qed
  then show ?thesis using run_stmt_cases[of "se_commit e" "dispatchOne_tx dp e nid" d] by (auto simp: dispatchOne_def)
qed

lemma dispatch_rows_other:
  "k \<notin> s_id ` set rows \<Longrightarrow> row_of k (dispatch_rows dp es j rows d) = row_of k d"
  by (induction rows arbitrary: j d) (auto simp: dispatchOne_other_row)

lemma MarkScheduledPending_NoRows_iff:
  assumes "db_wf d" "row_of nid d = Some r"
  shows "MarkScheduledPending now nid d = Inl ErrNoRows \<longleftrightarrow> n_status r \<noteq> StatusScheduled"
  unfolding MarkScheduledPending_def update_NoRows_row[OF assms(1)] using assms(2) by simp

lemma MarkScheduledPending_Inr:
  assumes "db_wf d" "row_of nid d = Some r" "MarkScheduledPending now nid d = Inr (a, d')"
  shows "n_status r = StatusScheduled" "row_of nid d' = Some (r\<lparr>n_status := StatusPending, n_updated_at := now\<rparr>)"
    "outbox d' = outbox d"
proof -
  show st: "n_status r = StatusScheduled"
    using MarkScheduledPending_NoRows_iff[OF assms(1,2), of now] assms(3) update_notification_Inr[of _ _ nid d a d']
      row_of_check[OF assms(1,2)] sel_distinct[of n_id "notifications d"] assms(1,2)
    by (auto simp: MarkScheduledPending_def row_of_def db_wf_def)
  show "row_of nid d' = Some (r\<lparr>n_status := StatusPending, n_updated_at := now\<rparr>)"
    using scheduled_pending.lookup[of "(now, nid)" d a d' nid] assms(2,3) st by (simp add: row_of_def)
  show "outbox d' = outbox d"
    using same_other_tablesD(1)[OF scheduled_pending.others[of "(now, nid)" d a d']] assms(3) by simp
qed

lemma dispatchOne_tx_effect:
  assumes "db_wf d" "row_of nid d = Some r" "dispatchOne_tx dp e nid d = Inr ((), d')"
  shows "sel s_id nid (scheduled_notifications d') = None \<and>
    (if n_status r = StatusScheduled
     then row_of nid d' = Some (r\<lparr>n_status := StatusPending, n_updated_at := se_now e\<rparr>) \<and>
          (\<exists>o1. outbox d' = outbox d @ [o1] \<and> carries dp r o1)
     else notifications d' = notifications d \<and> outbox d' = outbox d)"
  using assms(3)
proof (cases rule: dispatchOne_tx_cases)
  case dropped
  have "n_status r \<noteq> StatusScheduled"
    using MarkScheduledPending_NoRows_iff[OF assms(1,2)] dropped(1) by blast
  then show ?thesis using DeleteScheduled_simps[OF dropped(2)] by simp
next
  case (sent n r' d1 o1 d2)
  have n: "n = r" "n_id r = nid" using sent(1) assms(2) row_of_check[OF assms(1,2)] by simp_all
  note m = MarkScheduledPending_Inr[OF assms(1,2) sent(2)] and i = InsertOutbox_Inr[OF sent(3)]
    and del = DeleteScheduled_simps[OF sent(4)]
  have "carries dp r o1"
    using i n by (simp add: carries_def scheduled_payload_def unmarshal_envelope_json priorityLabel_eq)
  moreover have "row_of nid d' = Some (r\<lparr>n_status := StatusPending, n_updated_at := se_now e\<rparr>)"
    using m(2) i(1) del(1)[of nid] by (simp add: row_of_def)
  ultimately show ?thesis using m(1,3) i(2) del(2,3) by auto
qed

lemma dispatchOne_tx_ok:
  assumes "db_wf d" "row_of nid d = Some r" "n_status r = StatusScheduled" "sel o_id (se_outbox_id e) (outbox d) = None"
    and "\<not> se_get_lost e" "\<not> se_mark_lost e" "\<not> se_insert_lost e" "\<not> se_delete_lost e"
  shows "\<exists>d'. dispatchOne_tx dp e nid d = Inr ((), d')"
proof -
  let ?r = "r\<lparr>n_status := StatusPending, n_updated_at := se_now e\<rparr>"
  obtain d1 where m: "MarkScheduledPending (se_now e) nid d = Inr (?r, d1)" and rs: "row_set d nid ?r d1"
    using MarkScheduledPending_ok[OF assms(1-3)] by blast
  have "outbox d1 = outbox d" "sel n_id nid (notifications d1) \<noteq> None"
    using same_other_tablesD(1)[OF row_setD(3)[OF rs]] row_setD(1)[OF rs] by (simp_all add: row_of_def)
  moreover have "priority_check (n_priority r)" using row_of_check[OF assms(1,2)] by (simp add: notif_check_def)
  ultimately show ?thesis
    using assms(2,4-8) m
    by (auto simp: dispatchOne_tx_def bind_stmt_def guard_stmt_def GetNotificationByID_def row_of_def InsertOutbox_def
        Let_def outbox_check_def int4_def i32_range_def DeleteScheduled_def)
qed

subsection \<open>A concrete scheduled row\<close>

definition ex_sched :: db where
  "ex_sched = empty_db\<lparr>notifications := [ex_row StatusScheduled 0],
                 scheduled_notifications := [\<lparr>s_id = 1, s_due_at = 3, s_claimed_at = None, s_claimed_by = None\<rparr>]\<rparr>"

definition ex_senv :: "fault \<Rightarrow> sched_env" where
  "ex_senv f = \<lparr>se_now = 5, se_outbox_id = 9, se_begin_lost = False, se_get_lost = False, se_mark_lost = False,
                se_insert_lost = False, se_delete_lost = False, se_commit = f\<rparr>"

lemma ex_sched_wf: "db_wf ex_sched"
proof -
  have "notif_check (ex_row StatusScheduled 0)" by (rule ex_row_check) simp_all
  moreover have "n_id (ex_row StatusScheduled 0) = 1" by (simp add: ex_row_def)
  ultimately show ?thesis by (simp add: ex_sched_def db_wf_def empty_db_def)
qed

lemma ex_sched_row: "row_of 1 ex_sched = Some (ex_row StatusScheduled 0)"
  by (simp add: ex_sched_def row_of_def ex_row_def)

subsection \<open>Properties\<close>

text \<open>
  C16: A dispatch is all or nothing, whatever call is lost and however the commit ends. Either the
  database is unchanged; or the notification was scheduled and is now pending, with exactly one new
  outbox row that the worker decodes to it, and its sidecar row is gone; or the notification was no
  longer scheduled (cancelled meanwhile) and only the sidecar row is gone.
\<close>

theorem dispatchOne_atomic:
  assumes "db_wf d" "row_of nid d = Some r"
  shows "dispatchOne dp e nid d = d \<or>
    sel s_id nid (scheduled_notifications (dispatchOne dp e nid d)) = None \<and>
    (if n_status r = StatusScheduled
     then row_of nid (dispatchOne dp e nid d) = Some (r\<lparr>n_status := StatusPending, n_updated_at := se_now e\<rparr>) \<and>
          (\<exists>o1. outbox (dispatchOne dp e nid d) = outbox d @ [o1] \<and> carries dp r o1)
     else notifications (dispatchOne dp e nid d) = notifications d \<and> outbox (dispatchOne dp e nid d) = outbox d)"
proof -
  consider "dispatchOne dp e nid d = d" | "dispatchOne_tx dp e nid d = Inr ((), dispatchOne dp e nid d)"
    using run_stmt_cases[of "se_commit e" "dispatchOne_tx dp e nid" d]
    by (cases "se_begin_lost e") (auto simp: dispatchOne_def)
  then show ?thesis
  proof cases
    case 2
    show ?thesis by (rule disjI2, rule dispatchOne_tx_effect[OF assms 2])
  qed blast
qed

theorem dispatchOne_atomic_witness:
  "dispatchOne ex_deps (ex_senv FaultAfter) 1 ex_sched = ex_sched \<or>
   length (outbox (dispatchOne ex_deps (ex_senv FaultAfter) 1 ex_sched)) = 1"
proof -
  have "n_status (ex_row StatusScheduled 0) = StatusScheduled" "outbox ex_sched = []"
    by (simp_all add: ex_row_def ex_sched_def empty_db_def)
  then show ?thesis using dispatchOne_atomic[OF ex_sched_wf ex_sched_row, of ex_deps "ex_senv FaultAfter"] by auto
qed

text \<open>
  When no call is lost a scheduled notification is dispatched: it becomes pending, its outbox
  row is inserted and its sidecar row deleted.
\<close>

theorem dispatchOne_dispatches:
  assumes "db_wf d" "row_of nid d = Some r" "n_status r = StatusScheduled" "sel o_id (se_outbox_id e) (outbox d) = None"
    and "\<not> se_begin_lost e" "\<not> se_get_lost e" "\<not> se_mark_lost e" "\<not> se_insert_lost e" "\<not> se_delete_lost e"
    and "se_commit e = NoFault"
  shows "row_of nid (dispatchOne dp e nid d) = Some (r\<lparr>n_status := StatusPending, n_updated_at := se_now e\<rparr>) \<and>
    (\<exists>o1. outbox (dispatchOne dp e nid d) = outbox d @ [o1] \<and> carries dp r o1) \<and>
    sel s_id nid (scheduled_notifications (dispatchOne dp e nid d)) = None"
proof -
  obtain d' where t: "dispatchOne_tx dp e nid d = Inr ((), d')"
    using dispatchOne_tx_ok[OF assms(1-4,6-9)] by blast
  have "dispatchOne dp e nid d = d'" using t assms(5,10) by (simp add: dispatchOne_def run_stmt_def)
  then show ?thesis using dispatchOne_tx_effect[OF assms(1,2) t] assms(3) by simp
qed

theorem dispatchOne_dispatches_witness:
  "row_of 1 (dispatchOne ex_deps (ex_senv NoFault) 1 ex_sched) =
   Some ((ex_row StatusScheduled 0)\<lparr>n_status := StatusPending, n_updated_at := 5\<rparr>)"
proof -
  have "n_status (ex_row StatusScheduled 0) = StatusScheduled" by (simp add: ex_row_def)
  moreover have "sel o_id (se_outbox_id (ex_senv NoFault)) (outbox ex_sched) = None" by (simp add: ex_sched_def empty_db_def)
  ultimately show ?thesis
    using dispatchOne_dispatches[OF ex_sched_wf ex_sched_row, of "ex_senv NoFault" ex_deps] by (simp add: ex_senv_def)
qed

text \<open>
  C39: The scheduler never acts early. If a tick at time \<open>now\<close> changes a scheduled notification,
  its sidecar row was due by then.
\<close>

theorem scheduler_never_early:
  assumes "db_wf d" "row_of nid (scheduler_tick dp cfg f now locked es d) \<noteq> row_of nid d"
  shows "\<exists>sr \<in> set (scheduled_notifications d). s_id sr = nid \<and> s_due_at sr \<le> now"
proof -
  let ?ttl = "i32 (sc_claim_ttl cfg div second)"
  let ?q = "ClaimDueScheduled now (sc_scheduler_id cfg) ?ttl (i32 (sc_batch_size cfg)) locked"
  have rows: "row_of nid (snd (run_stmt f ?q d)) = row_of nid d"
    by (cases f) (simp_all add: run_stmt_def ClaimDueScheduled_def Let_def)
  obtain out d' where run: "run_stmt f ?q d = (Inr out, d')"
    using assms(2) rows by (auto simp: scheduler_tick_def split: sum.splits prod.splits)
  have "nid \<in> s_id ` set out"
  proof (rule ccontr)
    assume "nid \<notin> s_id ` set out"
    then show False using assms(2) rows run dispatch_rows_other by (simp add: scheduler_tick_def)
  qed
  then obtain o1 where o1: "o1 \<in> set out" "s_id o1 = nid" by auto
  have "distinct (map s_id (scheduled_notifications d))" using assms(1) by (simp add: db_wf_def)
  from scheduled_claim.returned[OF run_stmt_Inr[OF run] this o1(1)] obtain r where
    "r \<in> set (scheduled_notifications d)" "scheduled_claimable now ?ttl r"
    "o1 = r\<lparr>s_claimed_at := Some now, s_claimed_by := Some (sc_scheduler_id cfg)\<rparr>" by auto
  then show ?thesis using o1(2) by (intro bexI[of _ r]) (auto simp: scheduled_claimable_def)
qed

theorem scheduler_never_early_witness:
  "\<exists>sr \<in> set (scheduled_notifications ex_sched). s_id sr = 1 \<and> s_due_at sr \<le> 4"
proof -
  let ?d = "scheduler_tick ex_deps (Scheduler_Default ''s'') NoFault 4 [] (\<lambda>_. ex_senv NoFault) ex_sched"
  let ?q = "ClaimDueScheduled 4 ''s'' 60 50 []"
  define c where "c = \<lparr>s_id = 1, s_due_at = 3, s_claimed_at = Some 4, s_claimed_by = Some ''s''\<rparr>"
  define d1 where "d1 = ex_sched\<lparr>scheduled_notifications := [c]\<rparr>"
  have q: "?q ex_sched = Inr ([c], d1)"
    by (simp add: ClaimDueScheduled_def scheduled_claim_ids_def scheduled_claimable_def ex_sched_def Let_def c_def d1_def)
  have tick: "?d = dispatchOne ex_deps (ex_senv NoFault) 1 d1"
    using q by (simp add: scheduler_tick_def Scheduler_Default_def run_stmt_def i32_def second_def c_def)
  have wf: "db_wf d1" using keeps_wfD[OF scheduled_wf(1) ex_sched_wf q] .
  have r: "row_of 1 d1 = Some (ex_row StatusScheduled 0)" using ex_sched_row by (simp add: d1_def)
  have st: "n_status (ex_row StatusScheduled 0) = StatusScheduled" by (simp add: ex_row_def)
  have "sel o_id (se_outbox_id (ex_senv NoFault)) (outbox d1) = None" by (simp add: d1_def ex_sched_def empty_db_def)
  then obtain d' where tx: "dispatchOne_tx ex_deps (ex_senv NoFault) 1 d1 = Inr ((), d')"
    using dispatchOne_tx_ok[OF wf r st, of "ex_senv NoFault" ex_deps] by (auto simp: ex_senv_def)
  have "row_of 1 d' \<noteq> row_of 1 ex_sched"
    using dispatchOne_tx_effect[OF wf r tx] st ex_sched_row by (simp add: ex_row_def)
  moreover have "?d = d'" using tx unfolding tick by (simp add: dispatchOne_def run_stmt_def ex_senv_def)
  ultimately have "row_of 1 ?d \<noteq> row_of 1 ex_sched" by simp
  then show ?thesis by (rule scheduler_never_early[OF ex_sched_wf])
qed

end
