(* ===== verification/Sweeper.thy ===== *)
theory Sweeper
  imports Outbox
begin

text \<open>
  The sweeper of \<open>internal/sweeper\<close>: it reclaims notifications that a crashed worker left in
  \<open>sending\<close>. One tick is one transaction: the sweep statement and, for every reclaimed row, a
  fresh outbox row. Each call can be lost, which abandons the transaction, and the commit can fail
  before or after taking effect.
\<close>

record sweeper_config =
  sw_poll_interval :: time
  sw_stuck_after :: time

definition Sweeper_Default :: sweeper_config where
  "Sweeper_Default = \<lparr>sw_poll_interval = 30 * second, sw_stuck_after = 300 * second\<rparr>"

record sweep_env =
  we_now :: time
  we_outbox_id :: "nat \<Rightarrow> uuid"
  we_begin_lost :: bool
  we_sweep_lost :: bool
  we_insert_lost :: "nat \<Rightarrow> bool"
  we_commit :: fault

definition reclaim_payload :: "deps \<Rightarrow> notification \<Rightarrow> json" where
  "reclaim_payload dp r =
     envelope_json (uuid_str dp (n_id r)) (n_channel r) (n_recipient r) (n_content r) (PriorityFromInt (n_priority r))
       (n_correlation_id r)"

definition reclaim_headers :: "notification \<Rightarrow> json" where
  "reclaim_headers r =
     JObj [(''x-correlation-id'', JStr (n_correlation_id r)), (''x-reclaim-source'', JStr ''sending-sweeper'')]"

fun reclaim_rows :: "deps \<Rightarrow> sweep_env \<Rightarrow> nat \<Rightarrow> notification list \<Rightarrow> unit stmt" where
  "reclaim_rows dp e k [] = (\<lambda>d. Inr ((), d))"
| "reclaim_rows dp e k (row # rows) =
     bind_stmt
       (guard_stmt (we_insert_lost e k)
         (InsertOutbox (we_now e) (we_outbox_id e k) (n_id row) (RoutingKey (n_channel row)) (reclaim_payload dp row)
           (reclaim_headers row) (n_priority row)))
       (\<lambda>_. reclaim_rows dp e (Suc k) rows)"

definition sweeper_tx :: "deps \<Rightarrow> sweeper_config \<Rightarrow> sweep_env \<Rightarrow> unit stmt" where
  "sweeper_tx dp cfg e =
     bind_stmt (guard_stmt (we_sweep_lost e) (SweepStuckSending (we_now e) (i32 (sw_stuck_after cfg div second))))
       (\<lambda>rows. reclaim_rows dp e 0 rows)"

definition sweeper_tick :: "deps \<Rightarrow> sweeper_config \<Rightarrow> sweep_env \<Rightarrow> db \<Rightarrow> db" where
  "sweeper_tick dp cfg e d =
     (if we_begin_lost e then d else snd (run_stmt (we_commit e) (sweeper_tx dp cfg e) d))"

subsection \<open>Lemmas\<close>

lemma reclaim_rows_wf: "keeps_wf (reclaim_rows dp e k rows)"
  by (induction rows arbitrary: k) (auto simp: keeps_wf_def[of "\<lambda>d. Inr ((), d)"] intro!: wf_intros)

lemma sweeper_tick_wf: "db_wf d \<Longrightarrow> db_wf (sweeper_tick dp cfg e d)"
proof -
  have "keeps_wf (sweeper_tx dp cfg e)" unfolding sweeper_tx_def by (intro wf_intros reclaim_rows_wf)
  then show "db_wf d \<Longrightarrow> ?thesis" by (simp add: sweeper_tick_def keeps_wf_run_stmt)
qed

text \<open>The outbox rows the loop appends, one per reclaimed notification and in its order.\<close>

lemma reclaim_rows_Inr:
  "reclaim_rows dp e k rows d = Inr (a, d') \<Longrightarrow>
   \<exists>os. d' = d\<lparr>outbox := outbox d @ os\<rparr> \<and> list_all2 (carries dp) rows os"
proof (induction rows arbitrary: k d)
  case (Cons r rows)
  obtain o1 d1 where ins: "InsertOutbox (we_now e) (we_outbox_id e k) (n_id r) (RoutingKey (n_channel r))
      (reclaim_payload dp r) (reclaim_headers r) (n_priority r) d = Inr (o1, d1)"
    and rec: "reclaim_rows dp e (Suc k) rows d1 = Inr (a, d')"
    using Cons.prems by (auto simp: bind_stmt_def guard_stmt_def split: if_splits sum.splits)
  have d1: "d1 = d\<lparr>outbox := outbox d @ [o1]\<rparr>" using ins by (auto simp: InsertOutbox_def Let_def split: if_splits)
  have "carries dp r o1"
    using InsertOutbox_Inr[OF ins] by (simp add: carries_def reclaim_payload_def unmarshal_envelope_json)
  moreover obtain os where "d' = d1\<lparr>outbox := outbox d1 @ os\<rparr>" "list_all2 (carries dp) rows os"
    using Cons.IH[OF rec] by blast
  ultimately show ?case unfolding d1 by (intro exI[of _ "o1 # os"]) simp
qed simp

lemma reclaim_rows_ok:
  assumes "\<And>r. r \<in> set rows \<Longrightarrow> sel n_id (n_id r) (notifications d) \<noteq> None \<and> priority_check (n_priority r)"
    and "\<And>i. \<not> we_insert_lost e i" "inj_on (we_outbox_id e) {k..<k + length rows}"
    and "\<And>i. k \<le> i \<Longrightarrow> i < k + length rows \<Longrightarrow> sel o_id (we_outbox_id e i) (outbox d) = None"
  shows "\<exists>d'. reclaim_rows dp e k rows d = Inr ((), d')"
  using assms
proof (induction rows arbitrary: k d)
  case (Cons r rows)
  obtain o1 where ins: "InsertOutbox (we_now e) (we_outbox_id e k) (n_id r) (RoutingKey (n_channel r))
      (reclaim_payload dp r) (reclaim_headers r) (n_priority r) d = Inr (o1, d\<lparr>outbox := outbox d @ [o1]\<rparr>)"
    and oid: "o_id o1 = we_outbox_id e k"
    using Cons.prems(1)[of r] Cons.prems(4)[of k] by (auto simp: InsertOutbox_def Let_def outbox_check_def int4_def i32_range_def)
  have "\<exists>d'. reclaim_rows dp e (Suc k) rows (d\<lparr>outbox := outbox d @ [o1]\<rparr>) = Inr ((), d')"
  proof (rule Cons.IH)
    fix i assume i: "Suc k \<le> i" "i < Suc k + length rows"
    then have "we_outbox_id e i \<noteq> we_outbox_id e k" using Cons.prems(3) by (auto dest: inj_onD)
    then show "sel o_id (we_outbox_id e i) (outbox (d\<lparr>outbox := outbox d @ [o1]\<rparr>)) = None"
      using Cons.prems(4)[of i] i oid by (simp add: sel_append)
  qed (use Cons.prems in \<open>auto intro: inj_on_subset\<close>)
  then show ?case using ins Cons.prems(2) by (simp add: bind_stmt_def guard_stmt_def)
qed simp

lemma list_all2_member: "list_all2 R xs ys \<Longrightarrow> x \<in> set xs \<Longrightarrow> \<exists>y \<in> set ys. R x y"
  by (induction rule: list_all2_induct) auto

lemma sweep_row_payload [simp]:
  "carries dp (sweep_row now r) = carries dp r"
  by (rule ext) (simp add: carries_def sweep_row_def)

lemma sweeper_tx_effect:
  assumes "sweeper_tx dp cfg e d = Inr (a, d')"
  defines "stuck \<equiv> stuck_sending (we_now e) (i32 (sw_stuck_after cfg div second))"
  shows "notifications d' = upd stuck (sweep_row (we_now e)) (notifications d)"
    "\<exists>os. outbox d' = outbox d @ os \<and> list_all2 (carries dp) (filter stuck (notifications d)) os"
proof -
  obtain rows d1 where sw: "SweepStuckSending (we_now e) (i32 (sw_stuck_after cfg div second)) d = Inr (rows, d1)"
    and rec: "reclaim_rows dp e 0 rows d1 = Inr (a, d')"
    using assms(1) by (auto simp: sweeper_tx_def bind_stmt_def guard_stmt_def split: if_splits sum.splits)
  note s = SweepStuckSending_Inr[OF sw]
  obtain os where os: "d' = d1\<lparr>outbox := outbox d1 @ os\<rparr>" "list_all2 (carries dp) rows os"
    using reclaim_rows_Inr[OF rec] by blast
  show "notifications d' = upd stuck (sweep_row (we_now e)) (notifications d)" using os(1) s by (simp add: stuck_def)
  have "list_all2 (carries dp) (filter stuck (notifications d)) os"
    using os(2) s by (simp add: stuck_def list.rel_map)
  then show "\<exists>os. outbox d' = outbox d @ os \<and> list_all2 (carries dp) (filter stuck (notifications d)) os"
    using os(1) s by auto
qed

lemma sweeper_tick_cases:
  "sweeper_tick dp cfg e d = d \<or> sweeper_tx dp cfg e d = Inr ((), sweeper_tick dp cfg e d)"
  using run_stmt_cases[of "we_commit e" "sweeper_tx dp cfg e" d]
  by (cases "we_begin_lost e") (auto simp: sweeper_tick_def)

lemma sweeper_tx_ok:
  assumes "db_wf d" "\<not> we_sweep_lost e" "\<And>i. \<not> we_insert_lost e i"
    and "inj_on (we_outbox_id e) {..<length (notifications d)}"
    and "\<And>i. i < length (notifications d) \<Longrightarrow> sel o_id (we_outbox_id e i) (outbox d) = None"
    and "\<And>r. r \<in> set (notifications d) \<Longrightarrow> n_attempt_count r < 2 ^ 31 - 1"
  shows "\<exists>d'. sweeper_tx dp cfg e d = Inr ((), d')"
proof -
  let ?stuck = "stuck_sending (we_now e) (i32 (sw_stuck_after cfg div second))"
  have chk: "notif_check r" if "r \<in> set (notifications d)" for r
    using assms(1) that by (simp add: db_wf_def list_all_iff)
  have "notif_check (sweep_row (we_now e) r)" if "r \<in> set (notifications d)" "?stuck r" for r
    unfolding sweep_row_def using chk[OF that(1)] that(2) assms(6)[OF that(1)]
    by (intro check_attempt) (simp_all add: stuck_sending_def)
  then obtain d1 where sw: "SweepStuckSending (we_now e) (i32 (sw_stuck_after cfg div second)) d =
      Inr (map (sweep_row (we_now e)) (filter ?stuck (notifications d)), d1)"
    and d1: "d1 = d\<lparr>notifications := upd ?stuck (sweep_row (we_now e)) (notifications d)\<rparr>"
    by (auto simp: SweepStuckSending_def Let_def list_all_iff)
  have "\<exists>d'. reclaim_rows dp e 0 (map (sweep_row (we_now e)) (filter ?stuck (notifications d))) d1 = Inr ((), d')"
  proof (rule reclaim_rows_ok[OF _ assms(3)])
    show "inj_on (we_outbox_id e) {0..<0 + length (map (sweep_row (we_now e)) (filter ?stuck (notifications d)))}"
      by (intro inj_on_subset[OF assms(4)]) (auto dest: order.strict_trans2[OF _ length_filter_le])
    show "sel o_id (we_outbox_id e i) (outbox d1) = None"
      if "i < 0 + length (map (sweep_row (we_now e)) (filter ?stuck (notifications d)))" for i
      using that assms(5)[of i] by (auto simp: d1 dest: order.strict_trans2[OF _ length_filter_le])
    fix r assume "r \<in> set (map (sweep_row (we_now e)) (filter ?stuck (notifications d)))"
    then obtain r0 where r0: "r = sweep_row (we_now e) r0" "r0 \<in> set (notifications d)" by auto
    have "sel n_id (n_id r0) (notifications d) \<noteq> None" using r0(2) by (auto simp: sel_None_iff)
    then show "sel n_id (n_id r) (notifications d1) \<noteq> None \<and> priority_check (n_priority r)"
      using r0 chk by (auto simp: d1 sel_upd notif_check_def sweep_row_def)
  qed
  then show ?thesis using sw assms(2) by (simp add: sweeper_tx_def bind_stmt_def guard_stmt_def)
qed

subsection \<open>A concrete stuck row\<close>

definition ex_stuck :: db where
  "ex_stuck = empty_db\<lparr>notifications := [ex_row StatusSending 2]\<rparr>"

definition ex_sweep :: sweep_env where
  "ex_sweep = \<lparr>we_now = 301 * second, we_outbox_id = (\<lambda>_. 9), we_begin_lost = False, we_sweep_lost = False,
               we_insert_lost = (\<lambda>_. False), we_commit = NoFault\<rparr>"

lemma ex_stuck_wf: "db_wf ex_stuck"
proof -
  have "notif_check (ex_row StatusSending 2)" by (rule ex_row_check) simp_all
  then show ?thesis by (simp add: ex_stuck_def db_wf_def empty_db_def)
qed

lemma ex_sweep_facts:
  "\<not> we_begin_lost ex_sweep" "\<not> we_sweep_lost ex_sweep" "\<not> we_insert_lost ex_sweep i" "we_commit ex_sweep = NoFault"
  "inj_on (we_outbox_id ex_sweep) {..<length (notifications ex_stuck)}"
  "i < length (notifications ex_stuck) \<Longrightarrow> sel o_id (we_outbox_id ex_sweep i) (outbox ex_stuck) = None"
  "r \<in> set (notifications ex_stuck) \<Longrightarrow> n_attempt_count r < 2 ^ 31 - 1"
  by (auto simp: ex_sweep_def ex_stuck_def ex_row_def empty_db_def inj_on_def)

lemma ex_sweep_tx: "\<exists>d'. sweeper_tx ex_deps Sweeper_Default ex_sweep ex_stuck = Inr ((), d')"
  by (rule sweeper_tx_ok[OF ex_stuck_wf ex_sweep_facts(2,3,5,6,7)])

lemma ex_stuck_stuck: "stuck_sending (we_now ex_sweep) (i32 (sw_stuck_after Sweeper_Default div second)) (ex_row StatusSending 2)"
  by (simp add: ex_sweep_def Sweeper_Default_def i32_def stuck_sending_def ex_row_def second_def)

lemma ex_stuck_row: "row_of 1 ex_stuck = Some (ex_row StatusSending 2)"
  by (simp add: ex_stuck_def row_of_def ex_row_def)

subsection \<open>Properties\<close>

text \<open>
  C17: A sweep is all or nothing, whatever call is lost and however the commit ends. Either the
  database is unchanged, or every notification that was \<open>sending\<close> for longer than the threshold is
  queued again with its attempt counted, all others are untouched, and the outbox has gained exactly
  one row per reclaimed notification, in order, which a worker decodes to it.
\<close>

theorem sweeper_atomic:
  "sweeper_tick dp cfg e d = d \<or>
   notifications (sweeper_tick dp cfg e d) =
     upd (stuck_sending (we_now e) (i32 (sw_stuck_after cfg div second))) (sweep_row (we_now e)) (notifications d) \<and>
   (\<exists>os. outbox (sweeper_tick dp cfg e d) = outbox d @ os \<and>
     list_all2 (carries dp) (filter (stuck_sending (we_now e) (i32 (sw_stuck_after cfg div second))) (notifications d)) os)"
proof (cases "sweeper_tick dp cfg e d = d")
  case False
  then have "sweeper_tx dp cfg e d = Inr ((), sweeper_tick dp cfg e d)" using sweeper_tick_cases by blast
  then show ?thesis using sweeper_tx_effect by blast
qed blast

text \<open>
  The sweeper cannot take a row from a worker that is still on it. With the default
  configuration a tick changes a notification only if it has been \<open>sending\<close>, untouched, for more
  than the worker's handler timeout and the life of its in-flight lock together.
\<close>

theorem sweeper_spares_active:
  assumes "db_wf d" "row_of nid d = Some r" "row_of nid (sweeper_tick dp Sweeper_Default e d) \<noteq> Some r"
  shows "n_status r = StatusSending \<and> n_updated_at r + handleTimeout + inflightTTL < we_now e"
proof -
  have "sweeper_tick dp Sweeper_Default e d \<noteq> d" using assms(2,3) by auto
  then have "sweeper_tx dp Sweeper_Default e d = Inr ((), sweeper_tick dp Sweeper_Default e d)"
    using sweeper_tick_cases by blast
  from sweeper_tx_effect(1)[OF this] assms(2,3)
  have "stuck_sending (we_now e) (i32 (sw_stuck_after Sweeper_Default div second)) r"
    by (auto simp: row_of_def sel_upd split: if_splits)
  moreover have "i32 (sw_stuck_after Sweeper_Default div second) = 300" by (simp add: Sweeper_Default_def i32_def second_def)
  ultimately show ?thesis by (simp add: stuck_sending_def handleTimeout_def inflightTTL_def second_def)
qed

theorem sweeper_spares_active_witness:
  "n_status (ex_row StatusSending 2) = StatusSending \<and> (0::int) + handleTimeout + inflightTTL < 301 * second"
proof -
  obtain d' where tx: "sweeper_tx ex_deps Sweeper_Default ex_sweep ex_stuck = Inr ((), d')" using ex_sweep_tx by blast
  then have tick: "sweeper_tick ex_deps Sweeper_Default ex_sweep ex_stuck = d'"
    by (simp add: sweeper_tick_def run_stmt_def ex_sweep_def)
  have "row_of 1 d' = Some (sweep_row (we_now ex_sweep) (ex_row StatusSending 2))"
    using sweeper_tx_effect(1)[OF tx] ex_stuck_row ex_stuck_stuck by (simp add: row_of_def sel_upd)
  then have "row_of 1 (sweeper_tick ex_deps Sweeper_Default ex_sweep ex_stuck) \<noteq> Some (ex_row StatusSending 2)"
    unfolding tick by (simp add: sweep_row_def ex_row_def)
  from sweeper_spares_active[OF ex_stuck_wf ex_stuck_row this] show ?thesis by (simp add: ex_row_def ex_sweep_def)
qed

text \<open>
  C37: A notification stranded by a crash is recovered: when no call is lost, a tick puts every row
  that has been \<open>sending\<close> beyond the threshold back to queued, with an unpublished outbox row that
  a worker decodes to it.
\<close>

theorem sweeper_recovers:
  assumes "db_wf d" "\<not> we_begin_lost e" "\<not> we_sweep_lost e" "\<And>i. \<not> we_insert_lost e i" "we_commit e = NoFault"
    and "inj_on (we_outbox_id e) {..<length (notifications d)}"
    and "\<And>i. i < length (notifications d) \<Longrightarrow> sel o_id (we_outbox_id e i) (outbox d) = None"
    and "\<And>r. r \<in> set (notifications d) \<Longrightarrow> n_attempt_count r < 2 ^ 31 - 1"
    and "r \<in> set (notifications d)" "stuck_sending (we_now e) (i32 (sw_stuck_after cfg div second)) r"
  shows "row_of (n_id r) (sweeper_tick dp cfg e d) = Some (sweep_row (we_now e) r) \<and>
    (\<exists>o1 \<in> set (outbox (sweeper_tick dp cfg e d)). o1 \<notin> set (outbox d) \<and> carries dp r o1)"
proof -
  obtain d' where tx: "sweeper_tx dp cfg e d = Inr ((), d')" using sweeper_tx_ok[OF assms(1,3,4,6,7,8)] by blast
  have tick: "sweeper_tick dp cfg e d = d'" using tx assms(2,5) by (simp add: sweeper_tick_def run_stmt_def)
  note eff = sweeper_tx_effect[OF tx]
  have "row_of (n_id r) d = Some r"
    using assms(1,9) sel_distinct[of n_id "notifications d" r] by (simp add: db_wf_def row_of_def)
  then have "row_of (n_id r) d' = Some (sweep_row (we_now e) r)" using eff(1) assms(10) by (simp add: row_of_def sel_upd)
  moreover obtain os where os: "outbox d' = outbox d @ os"
    "list_all2 (carries dp) (filter (stuck_sending (we_now e) (i32 (sw_stuck_after cfg div second))) (notifications d)) os"
    using eff(2) by blast
  then obtain o1 where o1: "o1 \<in> set os" "carries dp r o1"
    using assms(9,10) list_all2_member[OF os(2)] by auto
  have "db_wf d'" using sweeper_tick_wf[OF assms(1), of dp cfg e] by (simp add: tick)
  then have "o1 \<notin> set (outbox d)" using os(1) o1(1) by (auto simp: db_wf_def)
  ultimately show ?thesis unfolding tick using os(1) o1 by auto
qed

theorem sweeper_recovers_witness:
  "\<exists>o1 \<in> set (outbox (sweeper_tick ex_deps Sweeper_Default ex_sweep ex_stuck)). carries ex_deps (ex_row StatusSending 2) o1"
proof -
  have "ex_row StatusSending 2 \<in> set (notifications ex_stuck)" by (simp add: ex_stuck_def)
  from sweeper_recovers[OF ex_stuck_wf ex_sweep_facts this ex_stuck_stuck, of ex_deps] show ?thesis by blast
qed

end
