(* ===== verification/Redis.thy ===== *)
theory Redis
  imports Store
begin

text \<open>
  The key-value store the service keeps its idempotency records, verified bearers and failure
  counters in. A key holds a value until its expiry; the commands take the server's clock. A call
  can be lost before or after the server ran it, as in \<open>run_stmt\<close>.
\<close>

type_synonym 'v redis = "string \<rightharpoonup> 'v \<times> time"

definition rget :: "time \<Rightarrow> string \<Rightarrow> 'v redis \<Rightarrow> 'v option" where
  "rget now k s = (case s k of None \<Rightarrow> None | Some (v, e) \<Rightarrow> if now < e then Some v else None)"

definition rset :: "time \<Rightarrow> string \<Rightarrow> 'v \<Rightarrow> time \<Rightarrow> 'v redis \<Rightarrow> 'v redis" where
  "rset now k v ttl s = s(k \<mapsto> (v, now + ttl))"

definition rsetnx :: "time \<Rightarrow> string \<Rightarrow> 'v \<Rightarrow> time \<Rightarrow> 'v redis \<Rightarrow> bool \<times> 'v redis" where
  "rsetnx now k v ttl s = (case rget now k s of None \<Rightarrow> (True, rset now k v ttl s) | Some _ \<Rightarrow> (False, s))"

definition rdel :: "string \<Rightarrow> 'v redis \<Rightarrow> 'v redis" where
  "rdel k s = s(k := None)"

definition rexec :: "fault \<Rightarrow> ('v redis \<Rightarrow> 'v redis) \<Rightarrow> 'v redis \<Rightarrow> 'v redis" where
  "rexec f g s = (if f = FaultBefore then s else g s)"

text \<open>
  The laws clients rely on: what a key reads as after each command, at any later instant, and that
  a value once gone by expiry stays gone.
\<close>

locale ttl_store =
  fixes get :: "time \<Rightarrow> string \<Rightarrow> 's \<Rightarrow> 'v option"
    and put :: "time \<Rightarrow> string \<Rightarrow> 'v \<Rightarrow> time \<Rightarrow> 's \<Rightarrow> 's"
    and put_new :: "time \<Rightarrow> string \<Rightarrow> 'v \<Rightarrow> time \<Rightarrow> 's \<Rightarrow> bool \<times> 's"
    and remove :: "string \<Rightarrow> 's \<Rightarrow> 's"
  assumes get_put: "get t k' (put now k v ttl s) = (if k' = k then if t < now + ttl then Some v else None else get t k' s)"
    and put_new_fresh: "get now k s = None \<Longrightarrow> put_new now k v ttl s = (True, put now k v ttl s)"
    and put_new_taken: "get now k s = Some u \<Longrightarrow> put_new now k v ttl s = (False, s)"
    and get_remove: "get t k' (remove k s) = (if k' = k then None else get t k' s)"
    and expired: "get t k s = None \<Longrightarrow> t \<le> t' \<Longrightarrow> get t' k s = None"
    and stable: "get t' k s = Some v \<Longrightarrow> t \<le> t' \<Longrightarrow> get t k s = Some v"
begin

lemma put_new_other: "k' \<noteq> k \<Longrightarrow> get t k' (snd (put_new now k v ttl s)) = get t k' s"
  by (cases "get now k s") (simp_all add: put_new_fresh put_new_taken get_put)

text \<open>A claim holds until it expires: nobody else can take it over meanwhile.\<close>

lemma claim_holds:
  assumes "put_new now k v ttl s = (True, s')" "t < now + ttl"
  shows "get t k s' = Some v"
  using assms by (cases "get now k s") (auto simp: put_new_fresh put_new_taken get_put)

lemma claim_excludes:
  assumes "put_new now k v ttl s = (True, s')" "get t k s'' = get t k s'" "t < now + ttl"
  shows "put_new t k v' ttl' s'' = (False, s'')"
  using put_new_taken[of t k s'' v] claim_holds[OF assms(1,3)] assms(2) by simp

end

interpretation redis_store: ttl_store rget rset rsetnx rdel
  by unfold_locales
     (auto simp: rget_def rset_def rsetnx_def rdel_def split: option.splits if_splits)

end
