(* ===== verification/Idempotency.thy ===== *)
theory Idempotency
  imports Redis "HOL-Library.List_Lexorder" "HOL-Library.Char_ord"
begin

text \<open>
  The idempotency cache of \<open>internal/idempotency\<close>: the canonical hash of a request body and the
  claim, replay, finalize and release protocol on the slot of a key. The JSON text and SHA-256 are
  parameters; a record is stored as such, its JSON round trip being exact.
\<close>

definition DefaultTTL :: time where "DefaultTTL = 24 * 3600 * second"
definition InFlightTTL :: time where "InFlightTTL = 10 * second"

record idem_record =
  ir_body_hash :: string
  ir_status_code :: int
  ir_body :: string
  ir_in_flight :: bool

definition NewStore :: "time \<Rightarrow> time" where
  "NewStore ttl = (if ttl \<le> 0 then DefaultTTL else ttl)"

subsection \<open>The canonical hash\<close>

text \<open>Decoding an object into a Go map: a later member replaces an earlier one of the same name.\<close>

definition to_map :: "(string \<times> 'a) list \<Rightarrow> string \<rightharpoonup> 'a" where
  "to_map ms = map_of (rev ms)"

definition sorted_entries :: "(string \<times> 'a) list \<Rightarrow> (string \<times> 'a) list" where
  "sorted_entries ms = map (\<lambda>k. (k, the (to_map ms k))) (sort (remdups (map fst ms)))"

fun canonicalize :: "json \<Rightarrow> json" where
  "canonicalize (JObj ms) =
     JArr (map (\<lambda>(k, v). JArr [JStr k, v]) (sorted_entries (map (\<lambda>(k, v). (k, canonicalize v)) ms)))"
| "canonicalize (JArr xs) = JArr (map canonicalize xs)"
| "canonicalize x = x"

definition CanonicalHash :: "(json \<Rightarrow> string) \<Rightarrow> (string \<Rightarrow> string) \<Rightarrow> json \<Rightarrow> string" where
  "CanonicalHash marshal sha256_hex v = sha256_hex (marshal (canonicalize v))"

text \<open>
  The Go value a JSON text decodes to: objects are maps, so neither the order of members nor a
  replaced duplicate is visible.
\<close>

datatype gval = GNull | GBool bool | GNum rat | GStr string | GArr "gval list" | GObj "string \<Rightarrow> gval option"

fun denote :: "json \<Rightarrow> gval" where
  "denote JNull = GNull"
| "denote (JBool b) = GBool b"
| "denote (JNum q) = GNum q"
| "denote (JStr s) = GStr s"
| "denote (JArr xs) = GArr (map denote xs)"
| "denote (JObj ms) = GObj (to_map (map (\<lambda>(k, v). (k, denote v)) ms))"

subsection \<open>The slot\<close>

definition idem_key :: "string \<Rightarrow> string \<Rightarrow> string" where
  "idem_key ownerID k = (if ownerID = [] then ''idem:'' @ k else ''idem:'' @ ownerID @ '':'' @ k)"

datatype idem_result = Begin | Replay idem_record | IdemConflict | IdemInFlight | IdemErr

text \<open>What the two calls of a claim meet: their instants, their faults and what others do in between.\<close>

record claim_env =
  ce_now :: time
  ce_setnx :: fault
  ce_between :: "idem_record redis \<Rightarrow> idem_record redis"
  ce_get_now :: time
  ce_get_lost :: bool

definition BeginOrReplay ::
  "claim_env \<Rightarrow> string \<Rightarrow> string \<Rightarrow> string \<Rightarrow> idem_record redis \<Rightarrow> idem_result \<times> idem_record redis" where
  "BeginOrReplay e ownerID idemKey bodyHash s =
     (if idemKey = [] then (IdemErr, s)
      else
        let k = idem_key ownerID idemKey;
            rec = \<lparr>ir_body_hash = bodyHash, ir_status_code = 0, ir_body = [], ir_in_flight = True\<rparr> in
        case ce_setnx e of
          FaultBefore \<Rightarrow> (IdemErr, s)
        | FaultAfter \<Rightarrow> (IdemErr, snd (rsetnx (ce_now e) k rec InFlightTTL s))
        | NoFault \<Rightarrow>
            (case rsetnx (ce_now e) k rec InFlightTTL s of
               (True, s1) \<Rightarrow> (Begin, s1)
             | (False, s1) \<Rightarrow>
                 (let s2 = ce_between e s1 in
                  if ce_get_lost e then (IdemErr, s2)
                  else
                    (case rget (ce_get_now e) k s2 of
                       None \<Rightarrow> (IdemInFlight, s2)
                     | Some r \<Rightarrow>
                         if ir_body_hash r \<noteq> bodyHash then (IdemConflict, s2)
                         else if ir_in_flight r then (IdemInFlight, s2)
                         else (Replay r, s2)))))"

definition Finalize :: "fault \<Rightarrow> time \<Rightarrow> time \<Rightarrow> string \<Rightarrow> string \<Rightarrow> idem_record \<Rightarrow> idem_record redis \<Rightarrow> idem_record redis" where
  "Finalize f ttl now ownerID idemKey r = rexec f (rset now (idem_key ownerID idemKey) (r\<lparr>ir_in_flight := False\<rparr>) ttl)"

definition Release :: "fault \<Rightarrow> string \<Rightarrow> string \<Rightarrow> idem_record redis \<Rightarrow> idem_record redis" where
  "Release f ownerID idemKey = rexec f (rdel (idem_key ownerID idemKey))"

subsection \<open>Lemmas\<close>

lemma to_map_map: "to_map (map (\<lambda>(k, v). (k, f v)) ms) = map_option f \<circ> to_map ms"
  unfolding to_map_def rev_map by (rule map_of_map)

lemma sorted_entries_cong:
  assumes "to_map ms = to_map ms'"
  shows "sorted_entries ms = sorted_entries ms'"
proof -
  have dom: "set (map fst ms) = dom (to_map ms)" for ms :: "(string \<times> 'a) list"
    by (simp add: to_map_def dom_map_of_conv_image_fst)
  have "set (remdups (map fst ms)) = set (remdups (map fst ms'))" using dom[of ms] dom[of ms'] assms by simp
  then have "sort (remdups (map fst ms)) = sort (remdups (map fst ms'))"
    by (metis distinct_remdups sorted_list_of_set_sort_remdups remdups_id_iff_distinct)
  then show ?thesis using assms by (simp add: sorted_entries_def)
qed

lemma to_map_in: "to_map ms k = Some v \<Longrightarrow> (k, v) \<in> set ms"
  using map_of_SomeD[of "rev ms" k v] by (simp add: to_map_def)

lemma denote_eq_canonicalize: "denote a = denote b \<Longrightarrow> canonicalize a = canonicalize b"
proof (induction a arbitrary: b)
  case (JArr xs)
  then obtain ys where b: "b = JArr ys" and ys: "map denote xs = map denote ys" by (cases b) auto
  have "canonicalize (xs ! i) = canonicalize (ys ! i)" if "i < length xs" for i
  proof -
    have "denote (xs ! i) = denote (ys ! i)"
      using arg_cong[OF ys, of "\<lambda>l. l ! i"] that map_eq_imp_length_eq[OF ys] by simp
    then show ?thesis using JArr.IH[of "xs ! i"] that by simp
  qed
  then show ?case using b map_eq_imp_length_eq[OF ys] by (simp add: list_eq_iff_nth_eq)
next
  case (JObj ms)
  then obtain ns where b: "b = JObj ns" by (cases b) auto
  have eq: "map_option denote (to_map ms k) = map_option denote (to_map ns k)" for k
    using JObj.prems b by (auto simp: to_map_map dest: fun_cong[of _ _ k])
  have "map_option canonicalize (to_map ms k) = map_option canonicalize (to_map ns k)" for k
  proof (cases "to_map ms k")
    case (Some v)
    then obtain w where w: "to_map ns k = Some w" "denote v = denote w" using eq[of k] by (cases "to_map ns k") auto
    have "canonicalize v = canonicalize w" using JObj.IH[OF to_map_in[OF Some] _ w(2)] by simp
    then show ?thesis using Some w(1) by simp
  qed (use eq[of k] in auto)
  then show ?case unfolding b canonicalize.simps
    by (intro arg_cong[where f = JArr] arg_cong2[where f = map] refl sorted_entries_cong) (auto simp: to_map_map)
qed (case_tac b; auto)+

text \<open>
  The canonical form is not injective: an object and the list of its pairs coincide.
\<close>

lemma canonicalize_collision:
  "canonicalize (JObj [(''a'', JNum 1)]) = canonicalize (JArr [JArr [JStr ''a'', JNum 1]])"
  by (simp add: sorted_entries_def to_map_def)

subsection \<open>Properties\<close>

text \<open>
  The body hash depends only on the value the body decodes to. Bodies that differ in the order
  of members, at any depth, or in a duplicate that decoding replaces, have the same hash.
\<close>

theorem CanonicalHash_order:
  assumes "denote a = denote b"
  shows "CanonicalHash marshal sha256_hex a = CanonicalHash marshal sha256_hex b"
  using denote_eq_canonicalize[OF assms] by (simp add: CanonicalHash_def)

theorem CanonicalHash_order_witness:
  "CanonicalHash (\<lambda>_. []) id (JObj [(''a'', JNum 1), (''b'', JObj [(''x'', JNull), (''y'', JNull)])]) =
   CanonicalHash (\<lambda>_. []) id (JObj [(''b'', JObj [(''y'', JNull), (''x'', JNull)]), (''a'', JNum 1)])"
  by (rule CanonicalHash_order) (auto simp: to_map_def fun_eq_iff)

text \<open>
  Replay semantics. After a finalized response, every request with the same key and owner
  within the window gets that response back verbatim if its body hash is the same, and a conflict
  otherwise; it never proceeds, and the cache is left as it is.
\<close>

theorem finalized_replays:
  assumes "idemKey \<noteq> []" "ce_setnx e = NoFault" "\<not> ce_get_lost e" "ce_between e = id"
    and "ce_now e < now + ttl" "ce_get_now e < now + ttl"
  shows "BeginOrReplay e owner idemKey h (Finalize NoFault ttl now owner idemKey r s) =
    (if h = ir_body_hash r then Replay (r\<lparr>ir_in_flight := False\<rparr>) else IdemConflict,
     Finalize NoFault ttl now owner idemKey r s)"
proof -
  let ?k = "idem_key owner idemKey" and ?s = "Finalize NoFault ttl now owner idemKey r s"
  have g: "rget t ?k ?s = Some (r\<lparr>ir_in_flight := False\<rparr>)" if "t < now + ttl" for t
    using that by (simp add: Finalize_def rexec_def redis_store.get_put)
  show ?thesis
    using assms redis_store.put_new_taken[OF g[OF assms(5)]] g[OF assms(6)]
    by (auto simp: BeginOrReplay_def Let_def)
qed

text \<open>While a claim lives and nobody touches its slot, no other request proceeds.\<close>

lemma claim_exclusive:
  assumes "BeginOrReplay e owner k h s = (Begin, s1)" "s2 (idem_key owner k) = s1 (idem_key owner k)"
    and "ce_now e' < ce_now e + InFlightTTL"
  shows "fst (BeginOrReplay e' owner k h' s2) \<noteq> Begin"
proof -
  let ?k = "idem_key owner k"
  obtain rec where "rsetnx (ce_now e) ?k rec InFlightTTL s = (True, s1)"
    using assms(1) by (auto simp: BeginOrReplay_def Let_def split: if_splits fault.splits prod.splits bool.splits option.splits)
  moreover have "rget t ?k s2 = rget t ?k s1" for t using assms(2) by (simp add: rget_def)
  ultimately have "rsetnx (ce_now e') ?k rec' InFlightTTL s2 = (False, s2)" for rec' :: idem_record
    by (rule redis_store.claim_excludes[OF _ _ assms(3)])
  then show ?thesis
    by (auto simp: BeginOrReplay_def Let_def split: fault.splits option.splits)
qed

definition ex_claim :: "time \<Rightarrow> claim_env" where
  "ex_claim t = \<lparr>ce_now = t, ce_setnx = NoFault, ce_between = id, ce_get_now = t, ce_get_lost = False\<rparr>"

definition ex_record :: idem_record where
  "ex_record = \<lparr>ir_body_hash = ''h'', ir_status_code = 201, ir_body = ''{}'', ir_in_flight = False\<rparr>"

theorem finalized_replays_witness:
  "fst (BeginOrReplay (ex_claim (5 * second)) ''o'' ''k'' ''h'' (Finalize NoFault DefaultTTL 0 ''o'' ''k'' ex_record Map.empty)) =
   Replay ex_record"
  using finalized_replays[of "''k''" "ex_claim (5 * second)" 0 DefaultTTL "''o''" "''h''" ex_record Map.empty]
  by (simp add: ex_claim_def ex_record_def DefaultTTL_def second_def)

end
