(* ===== verification/Problem.thy ===== *)
theory Problem
  imports Idempotency
begin

text \<open>
  The error boundary of the HTTP API (\<open>internal/api/errors.go\<close>, \<open>util.go\<close>): RFC 7807 problems and
  the mapping from errors to them. A handler's reply is a status with a body, or a problem with an
  optional Retry-After header.
\<close>

record field_error =
  fe_field :: string
  fe_message :: string

abbreviation field_err :: "string \<Rightarrow> string \<Rightarrow> field_error" where
  "field_err f m \<equiv> \<lparr>fe_field = f, fe_message = m\<rparr>"

record problem =
  pr_type :: string
  pr_title :: string
  pr_status :: int
  pr_detail :: string
  pr_instance :: string
  pr_extra :: "(string \<times> json) list"

datatype 'a reply = Done int 'a | Refused problem "string option"

fun reply_status :: "'a reply \<Rightarrow> int" where
  "reply_status (Done st _) = st"
| "reply_status (Refused p _) = pr_status p"

definition problem_json :: "problem \<Rightarrow> json" where
  "problem_json p =
     JObj (sorted_entries
       ([(''type'', JStr (pr_type p)), (''title'', JStr (pr_title p)), (''status'', JNum (of_int (pr_status p)))] @
        (if pr_detail p = [] then [] else [(''detail'', JStr (pr_detail p))]) @
        (if pr_instance p = [] then [] else [(''instance'', JStr (pr_instance p))]) @
        pr_extra p))"

definition WriteProblemFull :: "string \<Rightarrow> string option \<Rightarrow> problem \<Rightarrow> 'a reply" where
  "WriteProblemFull cid retry p =
     Refused (if pr_instance p = [] \<and> cid \<noteq> [] then p\<lparr>pr_instance := ''/requests/'' @ cid\<rparr> else p) retry"

definition mk_problem :: "string \<Rightarrow> string \<Rightarrow> int \<Rightarrow> string \<Rightarrow> problem" where
  "mk_problem typ title st detail =
     \<lparr>pr_type = typ, pr_title = title, pr_status = st, pr_detail = detail, pr_instance = [], pr_extra = []\<rparr>"

definition WriteProblem :: "string \<Rightarrow> int \<Rightarrow> string \<Rightarrow> string \<Rightarrow> string \<Rightarrow> 'a reply" where
  "WriteProblem cid st typ title detail = WriteProblemFull cid None (mk_problem typ title st detail)"

definition field_error_json :: "field_error \<Rightarrow> json" where
  "field_error_json e = JObj [(''field'', JStr (fe_field e)), (''message'', JStr (fe_message e))]"

definition WriteValidationProblem :: "string \<Rightarrow> field_error list \<Rightarrow> 'a reply" where
  "WriteValidationProblem cid es =
     WriteProblemFull cid None
       ((mk_problem ''/problems/validation'' ''Validation Failed'' 400 ''one or more fields failed validation'')
          \<lparr>pr_extra := [(''errors'', JArr (map field_error_json es))]\<rparr>)"

text \<open>
  An error as \<open>errors.Is\<close> sees it: a sentinel, with the text of what wraps it; a context error, with
  its text; or anything else, with its text.
\<close>

datatype api_err = Sentinel domain_error string | CtxErr string | OtherErr string

definition WriteErrorAsProblem :: "string \<Rightarrow> api_err option \<Rightarrow> 'a reply" where
  "WriteErrorAsProblem cid err =
     (case err of
        None \<Rightarrow> WriteProblem cid 500 ''about:blank'' ''Internal Server Error'' ''nil error reached mapper''
      | Some (Sentinel e txt) \<Rightarrow>
          (if e = ErrNotFound \<or> e = ErrTemplateNotFound then
             WriteProblem cid 404 ''/problems/not-found'' ''Not Found'' txt
           else if e = ErrIdempotencyConflict then
             WriteProblem cid 409 ''/problems/idempotency-conflict'' ''Idempotency-Key Conflict''
               ''Idempotency-Key reused with a different request body''
           else if e = ErrIdempotencyInFlight then
             WriteProblemFull cid (Some ''1'')
               (mk_problem ''/problems/idempotency-in-flight'' ''Idempotent Request In Flight'' 409
                  ''an earlier request with this Idempotency-Key is still being processed'')
           else if e = ErrInvalidState then
             WriteProblem cid 409 ''/problems/invalid-state'' ''Invalid State Transition'' txt
           else if e = ErrValidation \<or> e = ErrUnknownChannel \<or> e = ErrTemplateRender then
             WriteProblem cid 400 ''/problems/validation'' ''Validation Failed'' txt
           else
             WriteProblemFull cid (Some ''1'') (mk_problem ''/problems/rate-limited'' ''Too Many Requests'' 429 txt))
      | Some (CtxErr txt) \<Rightarrow> WriteProblem cid 504 ''/problems/timeout'' ''Request Timeout'' txt
      | Some (OtherErr txt) \<Rightarrow>
          WriteProblem cid 500 ''about:blank'' ''Internal Server Error'' ''an unexpected error occurred'')"

definition sentinel_text :: "domain_error \<Rightarrow> string" where
  "sentinel_text e =
     (case e of
        ErrNotFound \<Rightarrow> ''notification: not found''
      | ErrIdempotencyConflict \<Rightarrow> ''notification: idempotency key conflict''
      | ErrIdempotencyInFlight \<Rightarrow> ''notification: idempotency request in flight''
      | ErrInvalidState \<Rightarrow> ''notification: invalid state transition''
      | ErrValidation \<Rightarrow> ''notification: validation failed''
      | ErrUnknownChannel \<Rightarrow> ''notification: unknown channel''
      | ErrTemplateNotFound \<Rightarrow> ''notification: template not found''
      | ErrTemplateRender \<Rightarrow> ''notification: template render failed''
      | ErrRateLimited \<Rightarrow> ''notification: rate limited'')"

abbreviation sentinel :: "domain_error \<Rightarrow> api_err" where
  "sentinel e \<equiv> Sentinel e (sentinel_text e)"

text \<open>
  A database error wrapped by \<open>fmt.Errorf\<close>. \<open>ctx\<close> is the text of the context error when that is what
  the infrastructure failed with.
\<close>

definition wrap_db :: "string option \<Rightarrow> string \<Rightarrow> db_error \<Rightarrow> api_err" where
  "wrap_db ctx msg e =
     (case ctx of Some t \<Rightarrow> if e = ErrInfra then CtxErr (msg @ '': '' @ t) else OtherErr msg | None \<Rightarrow> OtherErr msg)"

lemma WriteProblem_status [simp]: "reply_status (WriteProblem cid st a b c) = st"
  by (simp add: WriteProblem_def WriteProblemFull_def mk_problem_def)

lemma WriteProblemFull_status [simp]: "reply_status (WriteProblemFull cid retry p) = pr_status p"
  by (simp add: WriteProblemFull_def)

lemma mk_problem_status [simp]: "pr_status (mk_problem a b st c) = st"
  by (simp add: mk_problem_def)

lemma WriteValidationProblem_status [simp]: "reply_status (WriteValidationProblem cid es) = 400"
  by (simp add: WriteValidationProblem_def)

lemma not_found_status [simp]: "reply_status (WriteErrorAsProblem cid (Some (sentinel ErrNotFound))) = 404"
  "reply_status (WriteErrorAsProblem cid (Some (sentinel ErrTemplateNotFound))) = 404"
  by (simp_all add: WriteErrorAsProblem_def)

lemma wrap_db_status: "reply_status (WriteErrorAsProblem cid (Some (wrap_db ctx msg e))) \<in> {500, 504}"
  by (auto simp: wrap_db_def WriteErrorAsProblem_def split: option.splits)

subsection \<open>Properties\<close>

text \<open>
  The boundary never leaks an internal error. Whatever an unmapped error says, the response is
  the same 500 problem, character by character; every mapped error is a 4xx or the 504 of a timeout.
\<close>

theorem errors_do_not_leak:
  "WriteErrorAsProblem cid (Some (OtherErr t)) = WriteErrorAsProblem cid (Some (OtherErr t')) \<and>
   reply_status (WriteErrorAsProblem cid (Some (OtherErr t))) = 500 \<and>
   reply_status (WriteErrorAsProblem cid (Some (Sentinel e t))) \<in> {400, 404, 409, 429} \<and>
   reply_status (WriteErrorAsProblem cid (Some (CtxErr t))) = 504"
  by (simp add: WriteErrorAsProblem_def)

end
