(* ===== verification/Base64.thy ===== *)
theory Base64
  imports Prelude
begin

text \<open>
  \<open>encoding/base64\<close> without padding, for the two alphabets the service uses: \<open>RawURLEncoding\<close> for
  page cursors and \<open>RawStdEncoding\<close> for stored key hashes. The decoder skips carriage returns and
  line feeds and does not insist on zero trailing bits, as Go's does not.
\<close>

definition b64_common :: string where
  "b64_common = ''ABCDEFGHIJKLMNOPQRSTUVWXYZabcdefghijklmnopqrstuvwxyz0123456789''"

definition b64_std :: string where "b64_std = b64_common @ ''+/''"
definition b64_url :: string where "b64_url = b64_common @ ''-_''"

definition byte :: "char \<Rightarrow> nat" where "byte c = of_char c"

fun b64_sextets :: "string \<Rightarrow> nat list" where
  "b64_sextets (a # b # c # rest) =
     (byte a div 4) # ((byte a mod 4) * 16 + byte b div 16) # ((byte b mod 16) * 4 + byte c div 64) # (byte c mod 64) #
     b64_sextets rest"
| "b64_sextets [a, b] = [byte a div 4, (byte a mod 4) * 16 + byte b div 16, (byte b mod 16) * 4]"
| "b64_sextets [a] = [byte a div 4, (byte a mod 4) * 16]"
| "b64_sextets [] = []"

definition EncodeToString :: "string \<Rightarrow> string \<Rightarrow> string" where
  "EncodeToString alphabet s = map (\<lambda>i. alphabet ! i) (b64_sextets s)"

fun b64_bytes :: "nat list \<Rightarrow> string option" where
  "b64_bytes (w # x # y # z # rest) =
     (case b64_bytes rest of
        None \<Rightarrow> None
      | Some s \<Rightarrow>
          Some (char_of (w * 4 + x div 16) # char_of ((x mod 16) * 16 + y div 4) # char_of ((y mod 4) * 64 + z) # s))"
| "b64_bytes [w, x, y] = Some [char_of (w * 4 + x div 16), char_of ((x mod 16) * 16 + y div 4)]"
| "b64_bytes [w, x] = Some [char_of (w * 4 + x div 16)]"
| "b64_bytes [w] = None"
| "b64_bytes [] = Some []"

fun b64_index :: "string \<Rightarrow> nat \<Rightarrow> char \<Rightarrow> nat option" where
  "b64_index [] i c = None"
| "b64_index (a # as) i c = (if a = c then Some i else b64_index as (Suc i) c)"

fun b64_indices :: "string \<Rightarrow> string \<Rightarrow> nat list option" where
  "b64_indices alphabet [] = Some []"
| "b64_indices alphabet (c # s) =
     (case b64_index alphabet 0 c of
        None \<Rightarrow> None
      | Some i \<Rightarrow> (case b64_indices alphabet s of None \<Rightarrow> None | Some is \<Rightarrow> Some (i # is)))"

definition DecodeString :: "string \<Rightarrow> string \<Rightarrow> string option" where
  "DecodeString alphabet s =
     (case b64_indices alphabet (filter (\<lambda>c. byte c \<noteq> 10 \<and> byte c \<noteq> 13) s) of
        None \<Rightarrow> None
      | Some is \<Rightarrow> b64_bytes is)"

lemma byte_lt [simp]: "byte c < 256"
  by (simp add: byte_def)

lemma char_of_byte [simp]: "char_of (byte c) = c"
  by (simp add: byte_def)

lemma digit_div: "q < m \<Longrightarrow> (p * m + q) div m = p" "q < m \<Longrightarrow> (p * m + q) mod m = q" for p q m :: nat
  by simp_all

lemma b64_quad:
  assumes "a < 256" "b < 256" "c < 256"
  shows "(a div 4) * 4 + ((a mod 4) * 16 + b div 16) div 16 = a"
    "((a mod 4) * 16 + b div 16) mod 16 * 16 + ((b mod 16) * 4 + c div 64) div 4 = b"
    "((b mod 16) * 4 + c div 64) mod 4 * 64 + c mod 64 = (c::nat)"
proof -
  have "b div 16 < 16" "c div 64 < 4" using assms by auto
  then show "(a div 4) * 4 + ((a mod 4) * 16 + b div 16) div 16 = a"
    "((a mod 4) * 16 + b div 16) mod 16 * 16 + ((b mod 16) * 4 + c div 64) div 4 = b"
    "((b mod 16) * 4 + c div 64) mod 4 * 64 + c mod 64 = c"
    by (simp_all only: digit_div) simp_all
qed

lemma b64_bytes_sextets: "b64_bytes (b64_sextets s) = Some s"
proof (induction s rule: b64_sextets.induct)
  case (1 a b c rest)
  then show ?case using b64_quad[of "byte a" "byte b" "byte c"] by simp
next
  case (2 a b)
  then show ?case using b64_quad[of "byte a" "byte b" 0] by simp
next
  case (3 a)
  then show ?case using b64_quad[of "byte a" 0 0] by simp
qed simp

lemma sextet_lt:
  "byte a div 4 < 64" "byte a mod 4 * 16 + byte b div 16 < 64" "byte b mod 16 * 4 + byte c div 64 < 64"
  "byte a mod 4 * 16 < 64" "byte b mod 16 * 4 < 64"
proof -
  show "byte a div 4 < 64" by (rule less_mult_imp_div_less) simp
  have "byte b div 16 < 16" "byte c div 64 < 4" by (rule less_mult_imp_div_less, simp)+
  moreover have "byte a mod 4 < 4" "byte b mod 16 < 16" by simp_all
  ultimately show "byte a mod 4 * 16 + byte b div 16 < 64" "byte b mod 16 * 4 + byte c div 64 < 64"
    "byte a mod 4 * 16 < 64" "byte b mod 16 * 4 < 64" by linarith+
qed

lemma b64_sextets_lt: "i \<in> set (b64_sextets s) \<Longrightarrow> i < 64"
  by (induction s rule: b64_sextets.induct) (auto simp: sextet_lt)

lemma b64_alphabets:
  "length b64_std = 64" "distinct b64_std" "list_all (\<lambda>c. byte c \<noteq> 10 \<and> byte c \<noteq> 13) b64_std"
  "length b64_url = 64" "distinct b64_url" "list_all (\<lambda>c. byte c \<noteq> 10 \<and> byte c \<noteq> 13) b64_url"
  by (simp_all add: b64_std_def b64_url_def b64_common_def byte_def)

lemma b64_index_nth:
  "distinct as \<Longrightarrow> i < length as \<Longrightarrow> b64_index as k (as ! i) = Some (k + i)"
proof (induction as arbitrary: i k)
  case (Cons a as)
  then show ?case by (cases i) auto
qed simp

lemma b64_indices_map:
  assumes "distinct alphabet" "list_all (\<lambda>i. i < length alphabet) is"
  shows "b64_indices alphabet (map (\<lambda>i. alphabet ! i) is) = Some is"
  using assms(2) by (induction "is") (simp_all add: b64_index_nth[OF assms(1)])

lemma DecodeString_Encode:
  assumes "length alphabet = 64" "distinct alphabet" "list_all (\<lambda>c. byte c \<noteq> 10 \<and> byte c \<noteq> 13) alphabet"
  shows "DecodeString alphabet (EncodeToString alphabet s) = Some s"
proof -
  let ?is = "b64_sextets s"
  have lt: "list_all (\<lambda>i. i < length alphabet) ?is" using b64_sextets_lt[of _ s] by (simp add: list_all_iff assms(1))
  have "filter (\<lambda>c. byte c \<noteq> 10 \<and> byte c \<noteq> 13) (EncodeToString alphabet s) = EncodeToString alphabet s"
    using lt assms(3) by (intro filter_True) (auto simp: EncodeToString_def list_all_iff)
  then show ?thesis
    using b64_indices_map[OF assms(2) lt] b64_bytes_sextets[of s] by (simp add: DecodeString_def EncodeToString_def)
qed

lemmas b64_std_roundtrip = DecodeString_Encode[OF b64_alphabets(1,2,3)]
  and b64_url_roundtrip = DecodeString_Encode[OF b64_alphabets(4,5,6)]

end
