(* ===== verification/Auth.thy ===== *)
theory Auth
  imports Problem Base64
begin

text \<open>
  Authentication of the HTTP API (\<open>internal/api/auth.go\<close>, \<open>auth_cache.go\<close>): the statements on
  \<open>api_keys\<close>, the stored key hash, the cache of verified bearers with its revocation markers and
  failure counters, and the two middlewares. Argon2, SHA-256 and the text of a UUID are parameters.
\<close>

subsection \<open>Statements on API keys\<close>

definition api_key_check :: "api_key \<Rightarrow> bool" where
  "api_key_check r \<longleftrightarrow>
     1 \<le> pg_length (k_name r) \<and> pg_length (k_name r) \<le> 100 \<and> pg_length (k_key_prefix r) \<le> 16 \<and>
     (case k_revoked_at r of None \<Rightarrow> True | Some t \<Rightarrow> k_created_at r \<le> t)"

definition GetActiveAPIKeyByHash :: "string \<Rightarrow> api_key stmt" where
  "GetActiveAPIKeyByHash h d =
     (case find (\<lambda>r. k_hashed_key r = h \<and> k_revoked_at r = None) (api_keys d) of
        None \<Rightarrow> Inl ErrNoRows | Some r \<Rightarrow> Inr (r, d))"

definition HasDevSeedRow :: "bool stmt" where
  "HasDevSeedRow d = Inr (list_ex (\<lambda>r. k_name r = ''dev-seed'' \<and> k_revoked_at r = None) (api_keys d), d)"

definition ListActiveAPIKeysByPrefix :: "string \<Rightarrow> api_key list stmt" where
  "ListActiveAPIKeysByPrefix p d =
     Inr (filter (\<lambda>r. k_key_prefix r = p \<and> k_revoked_at r = None) (api_keys d), d)"

definition RevokeAPIKey :: "time \<Rightarrow> uuid \<Rightarrow> unit stmt" where
  "RevokeAPIKey now kid d =
     (let f = (\<lambda>r. r\<lparr>k_revoked_at := Some now\<rparr>); P = (\<lambda>r. k_id r = kid \<and> k_revoked_at r = None) in
      if list_all (\<lambda>r. P r \<longrightarrow> api_key_check (f r)) (api_keys d)
      then Inr ((), d\<lparr>api_keys := upd P f (api_keys d)\<rparr>)
      else Inl (ErrConstraint ''api_keys_revoked_after_created''))"

definition new_api_key :: "time \<Rightarrow> uuid \<Rightarrow> string \<Rightarrow> string \<Rightarrow> string \<Rightarrow> string list \<Rightarrow> api_key" where
  "new_api_key now kid name hash prefix scopes =
     \<lparr>k_id = kid, k_name = name, k_hashed_key = hash, k_scopes = scopes, k_created_at = now,
      k_revoked_at = None, k_key_prefix = prefix\<rparr>"

definition InsertAPIKey :: "time \<Rightarrow> uuid \<Rightarrow> string \<Rightarrow> string \<Rightarrow> string \<Rightarrow> string list \<Rightarrow> api_key stmt" where
  "InsertAPIKey now kid name hash prefix scopes d =
     (let r = new_api_key now kid name hash prefix scopes in
      if \<not> api_key_check r then Inl (ErrConstraint ''api_keys'')
      else if sel k_id kid (api_keys d) \<noteq> None then Inl (ErrConstraint ''api_keys_pkey'')
      else if sel k_hashed_key hash (api_keys d) \<noteq> None then Inl (ErrConstraint ''api_keys_hashed_key_key'')
      else Inr (r, d\<lparr>api_keys := api_keys d @ [r]\<rparr>))"

definition UpsertAPIKey :: "time \<Rightarrow> uuid \<Rightarrow> string \<Rightarrow> string \<Rightarrow> string \<Rightarrow> string list \<Rightarrow> api_key stmt" where
  "UpsertAPIKey now kid name hash prefix scopes d =
     (case sel k_hashed_key hash (api_keys d) of
        None \<Rightarrow> InsertAPIKey now kid name hash prefix scopes d
      | Some r \<Rightarrow>
          (let r' = r\<lparr>k_name := name, k_key_prefix := prefix, k_scopes := scopes, k_revoked_at := None\<rparr> in
           if \<not> api_key_check r' then Inl (ErrConstraint ''api_keys'')
           else Inr (r', d\<lparr>api_keys := upd (\<lambda>x. k_hashed_key x = hash) (\<lambda>_. r') (api_keys d)\<rparr>)))"

subsection \<open>The stored hash of a key\<close>

definition argonTime :: nat where "argonTime = 2"
definition argonMemory :: nat where "argonMemory = 64 * 1024"
definition argonThreads :: nat where "argonThreads = 1"
definition argonKeyLen :: nat where "argonKeyLen = 32"
definition keyPrefixLen :: nat where "keyPrefixLen = 8"

abbreviation ScopeRead :: string where "ScopeRead \<equiv> ''notifications:read''"
abbreviation ScopeWrite :: string where "ScopeWrite \<equiv> ''notifications:write''"
abbreviation ScopeAdmin :: string where "ScopeAdmin \<equiv> ''admin''"

text \<open>\<open>argon2.IDKey(password, salt, time, memory, threads, keyLen)\<close>.\<close>

type_synonym argon2 = "string \<Rightarrow> string \<Rightarrow> nat \<Rightarrow> nat \<Rightarrow> nat \<Rightarrow> nat \<Rightarrow> string"

definition HashAPIKey :: "argon2 \<Rightarrow> string \<Rightarrow> string \<Rightarrow> (string \<times> string) option" where
  "HashAPIKey argon salt raw =
     (if length raw < keyPrefixLen then None
      else
        let digest = argon raw salt argonTime argonMemory argonThreads argonKeyLen in
        Some (''argon2id$'' @ show_nat argonTime @ ''$'' @ show_nat argonMemory @ ''$'' @ show_nat argonThreads @ ''$'' @
                EncodeToString b64_std salt @ ''$'' @ EncodeToString b64_std digest,
              take keyPrefixLen raw))"

fun split_on :: "char \<Rightarrow> string \<Rightarrow> string list" where
  "split_on c [] = [[]]"
| "split_on c (x # xs) =
     (if x = c then [] # split_on c xs
      else (case split_on c xs of [] \<Rightarrow> [[x]] | p # ps \<Rightarrow> (x # p) # ps))"

text \<open>
  \<open>fmt.Sscanf(s, "%d", &u)\<close> into an unsigned integer of the given width: leading blanks are skipped,
  the longest run of digits is read, what follows it is ignored; no digit and overflow are errors.
\<close>

definition is_blank :: "char \<Rightarrow> bool" where
  "is_blank c \<longleftrightarrow> byte c = 32 \<or> byte c = 9 \<or> byte c = 11 \<or> byte c = 12 \<or> byte c = 13"

definition scan_uint :: "nat \<Rightarrow> string \<Rightarrow> nat option" where
  "scan_uint bits s =
     (let ds = takeWhile is_digit (dropWhile is_blank s) in
      if ds = [] \<or> digits_value ds \<ge> 2 ^ bits then None else Some (digits_value ds))"

text \<open>\<open>None\<close> is an error, which the middleware treats as no match.\<close>

definition VerifyAPIKey :: "argon2 \<Rightarrow> string \<Rightarrow> string \<Rightarrow> bool option" where
  "VerifyAPIKey argon raw encoded =
     (case split_on CHR ''$'' encoded of
        [alg, t, m, p, salt, want] \<Rightarrow>
          if alg \<noteq> ''argon2id'' then None
          else
            (case (scan_uint 32 t, scan_uint 32 m, scan_uint 8 p, DecodeString b64_std salt, DecodeString b64_std want) of
               (Some t', Some m', Some p', Some salt', Some want') \<Rightarrow>
                 Some (argon raw salt' t' m' p' (length want') = want')
             | _ \<Rightarrow> None)
      | _ \<Rightarrow> None)"

subsection \<open>The cache\<close>

record authed_key =
  ak_ID :: string
  ak_Name :: string
  ak_Scopes :: "string list"

definition HasScope :: "authed_key \<Rightarrow> string \<Rightarrow> bool" where
  "HasScope k want = list_ex (\<lambda>s. s = want) (ak_Scopes k)"

datatype auth_val = VAuth authed_key | VRevoked | VCount int | VCorrupt

definition authCacheTTL :: time where "authCacheTTL = 60 * second"
definition authRevokedTTL :: time where "authRevokedTTL = 300 * second"
definition authFailureWindow :: time where "authFailureWindow = 60 * second"
definition authFailureLimit :: int where "authFailureLimit = 20"

definition authCacheKey :: "(string \<Rightarrow> string) \<Rightarrow> string \<Rightarrow> string" where
  "authCacheKey sha16 raw = ''auth:v1:'' @ sha16 raw"

definition authRevokedKey :: "string \<Rightarrow> string" where "authRevokedKey kid = ''auth:revoked:'' @ kid"
definition authFailureKey :: "string \<Rightarrow> string" where "authFailureKey p = ''auth:fail:'' @ p"

definition lookupAuthCache :: "(string \<Rightarrow> string) \<Rightarrow> bool \<Rightarrow> time \<Rightarrow> string \<Rightarrow> auth_val redis \<Rightarrow> authed_key option" where
  "lookupAuthCache sha16 lost now raw s =
     (if lost then None
      else (case rget now (authCacheKey sha16 raw) s of Some (VAuth k) \<Rightarrow> Some k | _ \<Rightarrow> None))"

definition storeAuthCache :: "(string \<Rightarrow> string) \<Rightarrow> fault \<Rightarrow> time \<Rightarrow> string \<Rightarrow> authed_key \<Rightarrow> auth_val redis \<Rightarrow> auth_val redis" where
  "storeAuthCache sha16 f now raw k = rexec f (rset now (authCacheKey sha16 raw) (VAuth k) authCacheTTL)"

definition invalidateAuthCache :: "(string \<Rightarrow> string) \<Rightarrow> fault \<Rightarrow> string \<Rightarrow> auth_val redis \<Rightarrow> auth_val redis" where
  "invalidateAuthCache sha16 f raw = rexec f (rdel (authCacheKey sha16 raw))"

definition MarkKeyRevoked :: "fault \<Rightarrow> time \<Rightarrow> string \<Rightarrow> auth_val redis \<Rightarrow> auth_val redis" where
  "MarkKeyRevoked f now kid = rexec f (rset now (authRevokedKey kid) VRevoked authRevokedTTL)"

definition isKeyRevoked :: "bool \<Rightarrow> time \<Rightarrow> string \<Rightarrow> auth_val redis \<Rightarrow> bool" where
  "isKeyRevoked lost now kid s = (\<not> lost \<and> rget now (authRevokedKey kid) s \<noteq> None)"

text \<open>INCR and EXPIRE in one pipeline; INCR on a value that is not a number is an error.\<close>

definition noteAuthFailure :: "fault \<Rightarrow> time \<Rightarrow> string \<Rightarrow> auth_val redis \<Rightarrow> auth_val redis" where
  "noteAuthFailure f now p = rexec f (\<lambda>s.
     (case rget now (authFailureKey p) s of
        None \<Rightarrow> rset now (authFailureKey p) (VCount 1) authFailureWindow s
      | Some (VCount n) \<Rightarrow> rset now (authFailureKey p) (VCount (n + 1)) authFailureWindow s
      | Some v \<Rightarrow> rset now (authFailureKey p) v authFailureWindow s))"

definition isAuthFailureLocked :: "bool \<Rightarrow> time \<Rightarrow> string \<Rightarrow> auth_val redis \<Rightarrow> bool" where
  "isAuthFailureLocked lost now p s =
     (\<not> lost \<and> (case rget now (authFailureKey p) s of Some (VCount n) \<Rightarrow> n > authFailureLimit | _ \<Rightarrow> False))"

subsection \<open>The middlewares\<close>

definition extractBearer :: "string \<Rightarrow> string option" where
  "extractBearer h =
     (if take 7 h = ''Bearer '' \<and> drop 7 h \<noteq> [] then Some (drop 7 h) else None)"

record auth_deps =
  ad_argon :: argon2
  ad_sha16 :: "string \<Rightarrow> string"
  ad_uuid_str :: "uuid \<Rightarrow> string"

text \<open>What the calls of one request meet; \<open>av_redis\<close> is false when the service has no Redis client.\<close>

record auth_env =
  av_redis :: bool
  av_now :: time
  av_lookup_lost :: bool
  av_revoked_lost :: bool
  av_invalidate :: fault
  av_locked_lost :: bool
  av_list :: fault
  av_list_ctx :: "string option"
  av_store_now :: time
  av_store :: fault
  av_note :: fault

datatype auth_step = Hit authed_key | Verified authed_key | Unauthorized string | Locked | LookupFailed db_error

definition first_match :: "auth_deps \<Rightarrow> string \<Rightarrow> api_key list \<Rightarrow> api_key option" where
  "first_match dp raw cands = find (\<lambda>c. VerifyAPIKey (ad_argon dp) raw (k_hashed_key c) = Some True) cands"

text \<open>Everything up to the verdict; the cache entry of a verified key is written after it.\<close>

definition auth_check :: "auth_deps \<Rightarrow> auth_env \<Rightarrow> string \<Rightarrow> db \<Rightarrow> auth_val redis \<Rightarrow> auth_step \<times> auth_val redis" where
  "auth_check dp e raw d s =
     (let hit = (if av_redis e then lookupAuthCache (ad_sha16 dp) (av_lookup_lost e) (av_now e) raw s else None);
          prefix = take keyPrefixLen raw;
          slow = (\<lambda>s1.
            if av_redis e \<and> isAuthFailureLocked (av_locked_lost e) (av_now e) prefix s1 then (Locked, s1)
            else
              (case fst (run_stmt (av_list e) (ListActiveAPIKeysByPrefix prefix) d) of
                 Inl err \<Rightarrow> (LookupFailed err, s1)
               | Inr cands \<Rightarrow>
                   (case first_match dp raw cands of
                      Some c \<Rightarrow>
                        (Verified \<lparr>ak_ID = ad_uuid_str dp (k_id c), ak_Name = k_name c, ak_Scopes = k_scopes c\<rparr>, s1)
                    | None \<Rightarrow>
                        (Unauthorized ''invalid api key'',
                         if av_redis e then noteAuthFailure (av_note e) (av_now e) prefix s1 else s1)))) in
      if length raw < keyPrefixLen then (Unauthorized ''key too short'', s)
      else
        (case hit of
           Some k \<Rightarrow>
             if \<not> isKeyRevoked (av_revoked_lost e) (av_now e) (ak_ID k) s then (Hit k, s)
             else slow (invalidateAuthCache (ad_sha16 dp) (av_invalidate e) raw s)
         | None \<Rightarrow> slow s))"

definition auth_problem :: "string \<Rightarrow> auth_env \<Rightarrow> auth_step \<Rightarrow> 'a reply" where
  "auth_problem cid e r =
     (case r of
        Locked \<Rightarrow>
          WriteProblemFull cid (Some ''60'')
            (mk_problem ''/problems/rate-limited'' ''Too Many Requests'' 429
               ''too many failed authentication attempts for this key prefix'')
      | LookupFailed err \<Rightarrow> WriteErrorAsProblem cid (Some (wrap_db (av_list_ctx e) ''api_keys lookup'' err))
      | Unauthorized m \<Rightarrow> WriteProblem cid 401 ''/problems/unauthorized'' ''Unauthorized'' m
      | _ \<Rightarrow> WriteProblem cid 401 ''/problems/unauthorized'' ''Unauthorized'' ''invalid api key'')"

definition AuthMiddleware ::
  "auth_deps \<Rightarrow> auth_env \<Rightarrow> string \<Rightarrow> string \<Rightarrow> db \<Rightarrow> auth_val redis \<Rightarrow> ('a reply + authed_key) \<times> auth_val redis" where
  "AuthMiddleware dp e cid header d s =
     (case extractBearer header of
        None \<Rightarrow>
          (Inl (WriteProblem cid 401 ''/problems/unauthorized'' ''Unauthorized'' ''missing or malformed Authorization header''), s)
      | Some raw \<Rightarrow>
          (case auth_check dp e raw d s of
             (Hit k, s1) \<Rightarrow> (Inr k, s1)
           | (Verified k, s1) \<Rightarrow>
               (Inr k, if av_redis e then storeAuthCache (ad_sha16 dp) (av_store e) (av_store_now e) raw k s1 else s1)
           | (r, s1) \<Rightarrow> (Inl (auth_problem cid e r), s1)))"

definition RequireScope :: "string \<Rightarrow> string \<Rightarrow> authed_key option \<Rightarrow> 'a reply option" where
  "RequireScope cid scope key =
     (case key of
        None \<Rightarrow> Some (WriteProblem cid 401 ''/problems/unauthorized'' ''Unauthorized'' ''no authenticated key in context'')
      | Some k \<Rightarrow>
          if HasScope k scope then None
          else Some (WriteProblem cid 403 ''/problems/forbidden'' ''Forbidden'' (''missing required scope: '' @ scope)))"

definition SeedDevKey :: "argon2 \<Rightarrow> string \<Rightarrow> time \<Rightarrow> uuid \<Rightarrow> string \<Rightarrow> unit stmt" where
  "SeedDevKey argon salt now kid raw d =
     (case HashAPIKey argon salt raw of
        None \<Rightarrow> Inl ErrInfra
      | Some (hash, prefix) \<Rightarrow>
          (case UpsertAPIKey now kid ''dev-seed'' hash prefix [ScopeRead, ScopeWrite, ScopeAdmin] d of
             Inl e \<Rightarrow> Inl e | Inr (_, d') \<Rightarrow> Inr ((), d')))"

subsection \<open>Runs\<close>

text \<open>
  Requests, revocations and key creation in any order, with every fault. A request is two steps,
  its verdict and the write of its cache entry, between which anything may happen; the write comes
  at most four minutes after the verdict.
\<close>

record auth_world =
  aw_db :: db
  aw_redis :: "auth_val redis"
  aw_now :: time
  aw_pending :: "(string \<times> authed_key \<times> time) list"

definition verifyBudget :: time where "verifyBudget = authRevokedTTL - authCacheTTL"

definition auth_init :: "db \<Rightarrow> time \<Rightarrow> auth_world" where
  "auth_init d t = \<lparr>aw_db = d, aw_redis = Map.empty, aw_now = t, aw_pending = []\<rparr>"

inductive auth_trans :: "auth_deps \<Rightarrow> auth_world \<Rightarrow> auth_world \<Rightarrow> bool" for dp where
  clock: "aw_now w \<le> t \<Longrightarrow> auth_trans dp w (w\<lparr>aw_now := t\<rparr>)"
| request: "av_now e = aw_now w \<Longrightarrow> auth_check dp e raw (aw_db w) (aw_redis w) = (r, s) \<Longrightarrow>
    auth_trans dp w (w\<lparr>aw_redis := s,
      aw_pending := (case r of Verified k \<Rightarrow> (raw, k, aw_now w) # aw_pending w | _ \<Rightarrow> aw_pending w)\<rparr>)"
| finish: "(raw, k, t) \<in> set (aw_pending w) \<Longrightarrow> aw_now w \<le> t + verifyBudget \<Longrightarrow>
    auth_trans dp w (w\<lparr>aw_redis := storeAuthCache (ad_sha16 dp) f (aw_now w) raw k (aw_redis w),
                       aw_pending := remove1 (raw, k, t) (aw_pending w)\<rparr>)"
| revoke: "RevokeAPIKey (aw_now w) kid (aw_db w) = Inr ((), d) \<Longrightarrow>
    auth_trans dp w (w\<lparr>aw_db := d, aw_redis := MarkKeyRevoked f (aw_now w) (ad_uuid_str dp kid) (aw_redis w)\<rparr>)"
| create: "InsertAPIKey (aw_now w) kid name hash prefix scopes (aw_db w) = Inr (r, d) \<Longrightarrow> auth_trans dp w (w\<lparr>aw_db := d\<rparr>)"
| other: "api_keys d = api_keys (aw_db w) \<Longrightarrow> auth_trans dp w (w\<lparr>aw_db := d\<rparr>)"

text \<open>
  \<open>failed_run dp pre n t s\<close>: \<open>n\<close> requests with the key prefix \<open>pre\<close> have failed verification, the last at
  \<open>t\<close>, each less than the window after the one before.
\<close>

inductive failed_run :: "auth_deps \<Rightarrow> string \<Rightarrow> nat \<Rightarrow> time \<Rightarrow> auth_val redis \<Rightarrow> bool" for dp pre where
  start: "s (authFailureKey pre) = None \<Longrightarrow> failed_run dp pre 0 t s"
| fail: "failed_run dp pre n t s \<Longrightarrow> take keyPrefixLen raw = pre \<Longrightarrow> t \<le> av_now e \<Longrightarrow> av_now e < t + authFailureWindow \<Longrightarrow>
    av_redis e \<Longrightarrow> av_note e = NoFault \<Longrightarrow> auth_check dp e raw d s = (Unauthorized ''invalid api key'', s') \<Longrightarrow>
    failed_run dp pre (Suc n) (av_now e) s'"

subsection \<open>Lemmas\<close>

text \<open>Where cached identities may sit, and a bound on them.\<close>

definition entries_ok :: "(string \<Rightarrow> string) \<Rightarrow> (authed_key \<Rightarrow> time \<Rightarrow> bool) \<Rightarrow> auth_val redis \<Rightarrow> bool" where
  "entries_ok sha P s \<longleftrightarrow>
     (\<forall>key k ex. s key = Some (VAuth k, ex) \<longrightarrow> (\<exists>raw. key = authCacheKey sha raw) \<and> P k ex)"

lemma auth_keys [simp]:
  "authCacheKey sha raw \<noteq> authRevokedKey kid" "authFailureKey p \<noteq> authRevokedKey kid" "authFailureKey p \<noteq> authCacheKey sha raw"
  "authRevokedKey kid \<noteq> authCacheKey sha raw" "authRevokedKey kid \<noteq> authFailureKey p" "authCacheKey sha raw \<noteq> authFailureKey p"
  by (simp_all add: authCacheKey_def authRevokedKey_def authFailureKey_def)

lemma entries_ok_invalidate: "entries_ok sha P s \<Longrightarrow> entries_ok sha P (invalidateAuthCache sha f raw s)"
  by (auto simp: entries_ok_def invalidateAuthCache_def rexec_def rdel_def)

lemma entries_ok_store: "entries_ok sha P s \<Longrightarrow> P k (now + authCacheTTL) \<Longrightarrow> entries_ok sha P (storeAuthCache sha f now raw k s)"
  by (auto simp: entries_ok_def storeAuthCache_def rexec_def rset_def)

lemma entries_ok_mark: "entries_ok sha P s \<Longrightarrow> entries_ok sha P (MarkKeyRevoked f now kid s)"
  by (auto simp: entries_ok_def MarkKeyRevoked_def rexec_def rset_def)

lemma entries_ok_note:
  assumes "entries_ok sha P s"
  shows "entries_ok sha P (noteAuthFailure f now p s)"
proof -
  have "\<not> rget now (authFailureKey p) s = Some (VAuth k)" for k
    using assms by (auto simp: entries_ok_def rget_def split: option.splits if_splits) (metis auth_keys(3))
  then show ?thesis
    using assms by (auto simp: entries_ok_def noteAuthFailure_def rexec_def rset_def split: option.splits auth_val.splits if_splits)
qed

text \<open>What the verdict of a request does to the cache.\<close>

lemma auth_check_redis:
  assumes "auth_check dp e raw d s = (r, s')"
  obtains "s' = s" | "s' = invalidateAuthCache (ad_sha16 dp) (av_invalidate e) raw s"
  | "s' = noteAuthFailure (av_note e) (av_now e) (take keyPrefixLen raw) s"
  | "s' = noteAuthFailure (av_note e) (av_now e) (take keyPrefixLen raw)
            (invalidateAuthCache (ad_sha16 dp) (av_invalidate e) raw s)"
  using assms
  by (auto simp: auth_check_def Let_def split: if_splits option.splits sum.splits)

lemma auth_check_entries: "auth_check dp e raw d s = (r, s') \<Longrightarrow> entries_ok (ad_sha16 dp) P s \<Longrightarrow> entries_ok (ad_sha16 dp) P s'"
  by (erule auth_check_redis) (simp_all add: entries_ok_invalidate entries_ok_note)

lemma note_marker [simp]: "noteAuthFailure f now p s (authRevokedKey kid) = s (authRevokedKey kid)"
  by (auto simp: noteAuthFailure_def rexec_def rset_def split: option.splits auth_val.splits)

lemma invalidate_marker [simp]: "invalidateAuthCache sha f raw s (authRevokedKey kid) = s (authRevokedKey kid)"
  by (simp add: invalidateAuthCache_def rexec_def rdel_def)

lemma store_marker [simp]: "storeAuthCache sha f now raw k s (authRevokedKey kid) = s (authRevokedKey kid)"
  by (simp add: storeAuthCache_def rexec_def rset_def)

lemma auth_check_marker: "auth_check dp e raw d s = (r, s') \<Longrightarrow> s' (authRevokedKey kid) = s (authRevokedKey kid)"
  by (erule auth_check_redis) simp_all

lemma auth_check_Verified:
  assumes "auth_check dp e raw d s = (Verified k, s')"
  shows "\<exists>c \<in> set (api_keys d). k_revoked_at c = None \<and> ak_ID k = ad_uuid_str dp (k_id c) \<and>
           VerifyAPIKey (ad_argon dp) raw (k_hashed_key c) = Some True"
proof -
  obtain cands c where "fst (run_stmt (av_list e) (ListActiveAPIKeysByPrefix (take keyPrefixLen raw)) d) = Inr cands"
    and fm: "first_match dp raw cands = Some c" and k: "ak_ID k = ad_uuid_str dp (k_id c)"
    using assms by (auto simp: auth_check_def Let_def split: if_splits option.splits sum.splits)
  then have "cands = filter (\<lambda>r. k_key_prefix r = take keyPrefixLen raw \<and> k_revoked_at r = None) (api_keys d)"
    by (cases "av_list e") (auto simp: run_stmt_def ListActiveAPIKeysByPrefix_def)
  then show ?thesis
    using find_SomeD[OF fm[unfolded first_match_def]] k by auto
qed

lemma auth_check_Hit:
  assumes "auth_check dp e raw d s = (Hit k, s')"
  shows "rget (av_now e) (authCacheKey (ad_sha16 dp) raw) s = Some (VAuth k)"
    "\<not> isKeyRevoked (av_revoked_lost e) (av_now e) (ak_ID k) s"
  using assms
  by (auto simp: auth_check_def Let_def lookupAuthCache_def split: if_splits option.splits sum.splits auth_val.splits)

lemma RevokeAPIKey_Inr:
  assumes "RevokeAPIKey now kid d = Inr (a, d')"
  shows "api_keys d' = upd (\<lambda>r. k_id r = kid \<and> k_revoked_at r = None) (\<lambda>r. r\<lparr>k_revoked_at := Some now\<rparr>) (api_keys d)"
  using assms by (auto simp: RevokeAPIKey_def Let_def split: if_splits)

text \<open>The row of a revoked key.\<close>

definition revoked_row :: "uuid \<Rightarrow> db \<Rightarrow> bool" where
  "revoked_row kid d \<longleftrightarrow> distinct (map k_id (api_keys d)) \<and>
     (case sel k_id kid (api_keys d) of None \<Rightarrow> False | Some r \<Rightarrow> k_revoked_at r \<noteq> None)"

lemma revoked_row_no_active:
  assumes "revoked_row kid d" "c \<in> set (api_keys d)" "k_id c = kid"
  shows "k_revoked_at c \<noteq> None"
  using assms sel_distinct[of k_id "api_keys d" c] by (auto simp: revoked_row_def)

lemma distinct_revoke: "RevokeAPIKey now kid d = Inr (a, d') \<Longrightarrow> map k_id (api_keys d') = map k_id (api_keys d)"
  by (drule RevokeAPIKey_Inr) (simp add: map_key_upd)

lemma revoked_row_revoke:
  assumes "RevokeAPIKey now kid' d = Inr (a, d')"
    and "distinct (map k_id (api_keys d))" "sel k_id kid (api_keys d) \<noteq> None" "kid' = kid \<or> revoked_row kid d"
  shows "revoked_row kid d'"
  using assms distinct_revoke[OF assms(1)] RevokeAPIKey_Inr[OF assms(1)]
  by (auto simp: revoked_row_def sel_upd split: option.splits dest: sel_key)

lemma InsertAPIKey_Inr:
  assumes "InsertAPIKey now kid name hash prefix scopes d = Inr (r, d')"
  shows "api_keys d' = api_keys d @ [r]" "k_id r = kid" "kid \<notin> k_id ` set (api_keys d)"
  using assms by (auto simp: InsertAPIKey_def Let_def new_api_key_def sel_None_iff split: if_splits)

lemma revoked_row_insert:
  "InsertAPIKey now kid' name hash prefix scopes d = Inr (r, d') \<Longrightarrow> revoked_row kid d \<Longrightarrow> revoked_row kid d'"
  using InsertAPIKey_Inr[of now kid' name hash prefix scopes d r d']
  by (auto simp: revoked_row_def sel_append split: option.splits)

text \<open>What holds in every run, and what holds in addition from the revocation of a key at \<open>t0\<close> on.\<close>

definition auth_inv :: "auth_deps \<Rightarrow> auth_world \<Rightarrow> bool" where
  "auth_inv dp w \<longleftrightarrow> distinct (map k_id (api_keys (aw_db w))) \<and>
     entries_ok (ad_sha16 dp) (\<lambda>k ex. ex \<le> aw_now w + authCacheTTL) (aw_redis w) \<and>
     (\<forall>(raw, k, t) \<in> set (aw_pending w). t \<le> aw_now w)"

lemma entries_ok_mono: "entries_ok sha P s \<Longrightarrow> (\<And>k ex. P k ex \<Longrightarrow> Q k ex) \<Longrightarrow> entries_ok sha Q s"
  unfolding entries_ok_def by blast

lemma auth_inv_trans: "auth_trans dp w w' \<Longrightarrow> auth_inv dp w \<Longrightarrow> auth_inv dp w'"
proof (induction rule: auth_trans.induct)
  case (clock w t)
  then show ?case by (auto simp: auth_inv_def elim: entries_ok_mono)
next
  case (request e w raw r s)
  then show ?case using auth_check_entries[OF request(2)] by (auto simp: auth_inv_def split: auth_step.splits)
next
  case (finish raw k t w f)
  then show ?case by (auto simp: auth_inv_def intro!: entries_ok_store dest: subsetD[OF set_remove1_subset])
next
  case (revoke w kid d f)
  then show ?case by (auto simp: auth_inv_def distinct_revoke[OF revoke(1)] intro: entries_ok_mark)
next
  case (create w kid name hash prefix scopes r d)
  then show ?case using InsertAPIKey_Inr[OF create(1)] by (auto simp: auth_inv_def)
next
  case (other d w)
  then show ?case by (simp add: auth_inv_def)
qed

lemma auth_inv_run: "(auth_trans dp)\<^sup>*\<^sup>* w w' \<Longrightarrow> auth_inv dp w \<Longrightarrow> auth_inv dp w'"
  by (induction rule: rtranclp_induct) (auto intro: auth_inv_trans)

definition revoked_inv :: "auth_deps \<Rightarrow> uuid \<Rightarrow> time \<Rightarrow> auth_world \<Rightarrow> bool" where
  "revoked_inv dp kid t0 w \<longleftrightarrow> t0 \<le> aw_now w \<and> revoked_row kid (aw_db w) \<and>
     entries_ok (ad_sha16 dp) (\<lambda>k ex. ak_ID k = ad_uuid_str dp kid \<longrightarrow> ex \<le> t0 + authRevokedTTL) (aw_redis w) \<and>
     (\<exists>v ex. aw_redis w (authRevokedKey (ad_uuid_str dp kid)) = Some (v, ex) \<and> t0 + authRevokedTTL \<le> ex) \<and>
     (\<forall>(raw, k, t) \<in> set (aw_pending w). ak_ID k = ad_uuid_str dp kid \<longrightarrow> t \<le> t0)"

lemma Verified_not_revoked:
  assumes "auth_check dp e raw d s = (Verified k, s')" "revoked_row kid d" "inj (ad_uuid_str dp)"
  shows "ak_ID k \<noteq> ad_uuid_str dp kid"
  using auth_check_Verified[OF assms(1)] revoked_row_no_active[OF assms(2)] assms(3) by (fastforce simp: inj_eq)

lemma revoked_inv_trans:
  assumes "auth_trans dp w w'" "revoked_inv dp kid t0 w" "inj (ad_uuid_str dp)"
  shows "revoked_inv dp kid t0 w'"
  using assms(1,2)
proof (induction rule: auth_trans.induct)
  case (clock w t)
  then show ?case by (auto simp: revoked_inv_def)
next
  case (request e w raw r s)
  have "ak_ID k \<noteq> ad_uuid_str dp kid" if "r = Verified k" for k
    using Verified_not_revoked[OF request(2)[unfolded that] _ assms(3)] request(3) by (simp add: revoked_inv_def)
  then show ?case
    using request auth_check_entries[OF request(2)] auth_check_marker[OF request(2)]
    by (auto simp: revoked_inv_def split: auth_step.splits)
next
  case (finish raw k t w f)
  then have "ak_ID k = ad_uuid_str dp kid \<longrightarrow> aw_now w + authCacheTTL \<le> t0 + authRevokedTTL"
    by (auto simp: revoked_inv_def verifyBudget_def)
  then show ?case using finish by (auto simp: revoked_inv_def intro!: entries_ok_store dest: subsetD[OF set_remove1_subset])
next
  case (revoke w kid' d f)
  have "revoked_row kid d"
    using revoked_row_revoke[OF revoke(1), of kid] revoke(2) by (auto simp: revoked_inv_def revoked_row_def split: option.splits)
  moreover have "\<exists>v ex. MarkKeyRevoked f (aw_now w) (ad_uuid_str dp kid') (aw_redis w) (authRevokedKey (ad_uuid_str dp kid)) = Some (v, ex) \<and>
      t0 + authRevokedTTL \<le> ex"
    using revoke(2) by (auto simp: revoked_inv_def MarkKeyRevoked_def rexec_def rset_def authRevokedKey_def)
  ultimately show ?case using revoke(2) by (auto simp: revoked_inv_def intro: entries_ok_mark)
next
  case (create w kid' name hash prefix scopes r d)
  then show ?case using revoked_row_insert[OF create(1), of kid] by (simp add: revoked_inv_def)
next
  case (other d w)
  then show ?case by (simp add: revoked_inv_def revoked_row_def)
qed

lemma revoked_inv_run:
  "(auth_trans dp)\<^sup>*\<^sup>* w w' \<Longrightarrow> revoked_inv dp kid t0 w \<Longrightarrow> inj (ad_uuid_str dp) \<Longrightarrow> revoked_inv dp kid t0 w'"
  by (induction rule: rtranclp_induct) (auto intro: revoked_inv_trans)

lemma revoked_inv_start:
  assumes "auth_inv dp w" "sel k_id kid (api_keys (aw_db w)) \<noteq> None" "RevokeAPIKey (aw_now w) kid (aw_db w) = Inr ((), d)"
  shows "revoked_inv dp kid (aw_now w)
           (w\<lparr>aw_db := d, aw_redis := MarkKeyRevoked NoFault (aw_now w) (ad_uuid_str dp kid) (aw_redis w)\<rparr>)"
proof -
  have "entries_ok (ad_sha16 dp) (\<lambda>k ex. ak_ID k = ad_uuid_str dp kid \<longrightarrow> ex \<le> aw_now w + authRevokedTTL) (aw_redis w)"
    using assms(1) by (auto simp: auth_inv_def authCacheTTL_def authRevokedTTL_def second_def elim!: entries_ok_mono)
  then show ?thesis
    using assms revoked_row_revoke[OF assms(3), of kid]
    by (auto simp: revoked_inv_def auth_inv_def MarkKeyRevoked_def rexec_def rset_def
        intro: entries_ok_mark[where f = NoFault, unfolded MarkKeyRevoked_def rexec_def rset_def, simplified])
qed

lemma revoked_inv_denies:
  assumes "revoked_inv dp kid t0 w" "inj (ad_uuid_str dp)" "\<not> av_revoked_lost e" "av_now e = aw_now w"
    and "AuthMiddleware dp e cid h (aw_db w) (aw_redis w) = (Inr k, s')"
  shows "ak_ID k \<noteq> ad_uuid_str dp kid"
proof -
  obtain raw s1 where "auth_check dp e raw (aw_db w) (aw_redis w) = (Hit k, s1) \<or>
      auth_check dp e raw (aw_db w) (aw_redis w) = (Verified k, s1)"
    using assms(5) by (auto simp: AuthMiddleware_def split: option.splits prod.splits auth_step.splits)
  then show ?thesis
  proof
    assume hit: "auth_check dp e raw (aw_db w) (aw_redis w) = (Hit k, s1)"
    show ?thesis
    proof
      assume k: "ak_ID k = ad_uuid_str dp kid"
      obtain ex where ex: "aw_redis w (authCacheKey (ad_sha16 dp) raw) = Some (VAuth k, ex)" "av_now e < ex"
        using auth_check_Hit(1)[OF hit] by (auto simp: rget_def split: option.splits if_splits)
      have "ex \<le> t0 + authRevokedTTL" using assms(1) ex(1) k by (auto simp: revoked_inv_def entries_ok_def)
      then have "isKeyRevoked False (av_now e) (ak_ID k) (aw_redis w)"
        using assms(1) ex(2) k by (auto simp: revoked_inv_def isKeyRevoked_def rget_def)
      then show False using auth_check_Hit(2)[OF hit] assms(3) by (simp add: isKeyRevoked_def)
    qed
  next
    assume "auth_check dp e raw (aw_db w) (aw_redis w) = (Verified k, s1)"
    then show ?thesis using Verified_not_revoked assms(1,2) by (auto simp: revoked_inv_def)
  qed
qed

text \<open>The text of a stored hash.\<close>

lemma split_on_none: "c \<notin> set a \<Longrightarrow> split_on c a = [a]"
  by (induction a) auto

lemma split_on_append: "c \<notin> set a \<Longrightarrow> split_on c (a @ c # b) = a # split_on c b"
  by (induction a) auto

lemma EncodeToString_dollar: "CHR ''$'' \<notin> set (EncodeToString b64_std s)"
proof
  assume "CHR ''$'' \<in> set (EncodeToString b64_std s)"
  then obtain i where i: "i \<in> set (b64_sextets s)" "CHR ''$'' = b64_std ! i" unfolding EncodeToString_def set_map by blast
  then have "CHR ''$'' \<in> set b64_std" using b64_sextets_lt[OF i(1)] b64_alphabets(1) nth_mem by metis
  then show False by (simp add: b64_std_def b64_common_def)
qed

lemma stored_hash_text:
  "split_on CHR ''$'' (''argon2id$'' @ show_nat argonTime @ ''$'' @ show_nat argonMemory @ ''$'' @ show_nat argonThreads @ ''$'' @
      EncodeToString b64_std salt @ ''$'' @ EncodeToString b64_std digest) =
   [''argon2id'', ''2'', ''65536'', ''1'', EncodeToString b64_std salt, EncodeToString b64_std digest]"
proof -
  have "show_nat argonTime = ''2''" "show_nat argonMemory = ''65536''" "show_nat argonThreads = ''1''"
    by (simp_all add: argonTime_def argonMemory_def argonThreads_def show_nat.simps digit_def char_of_def bit_Suc_0_iff)
  then show ?thesis by (simp add: split_on_append split_on_none EncodeToString_dollar)
qed

lemma stored_hash_numbers:
  "scan_uint 32 ''2'' = Some argonTime" "scan_uint 32 ''65536'' = Some argonMemory" "scan_uint 8 ''1'' = Some argonThreads"
  by (simp_all add: scan_uint_def digits_value_def is_digit_def is_blank_def byte_def argonTime_def argonMemory_def argonThreads_def)

lemma VerifyAPIKey_stored:
  assumes "HashAPIKey argon salt raw = Some (hash, prefix)" "length (argon raw salt argonTime argonMemory argonThreads argonKeyLen) = argonKeyLen"
  shows "VerifyAPIKey argon raw' hash =
     Some (argon raw' salt argonTime argonMemory argonThreads argonKeyLen = argon raw salt argonTime argonMemory argonThreads argonKeyLen)"
    "prefix = take keyPrefixLen raw"
proof -
  let ?d = "argon raw salt argonTime argonMemory argonThreads argonKeyLen"
  show "prefix = take keyPrefixLen raw" using assms(1) by (auto simp: HashAPIKey_def Let_def split: if_splits)
  have "split_on CHR ''$'' hash = [''argon2id'', ''2'', ''65536'', ''1'', EncodeToString b64_std salt, EncodeToString b64_std ?d]"
    using assms(1) stored_hash_text[of salt ?d] by (auto simp: HashAPIKey_def Let_def split: if_splits)
  then show "VerifyAPIKey argon raw' hash = Some (argon raw' salt argonTime argonMemory argonThreads argonKeyLen = ?d)"
    using assms(2) by (simp add: VerifyAPIKey_def stored_hash_numbers b64_std_roundtrip)
qed

lemma note_count:
  "noteAuthFailure NoFault now p s (authFailureKey p) =
     Some (case rget now (authFailureKey p) s of None \<Rightarrow> VCount 1 | Some (VCount n) \<Rightarrow> VCount (n + 1) | Some v \<Rightarrow> v,
           now + authFailureWindow)"
  by (auto simp: noteAuthFailure_def rexec_def rset_def split: option.splits auth_val.splits)

lemma auth_check_failed:
  assumes "auth_check dp e raw d s = (Unauthorized ''invalid api key'', s')" "av_redis e" "av_note e = NoFault"
  shows "\<exists>s1. s' = noteAuthFailure NoFault (av_now e) (take keyPrefixLen raw) s1 \<and>
              s1 (authFailureKey (take keyPrefixLen raw)) = s (authFailureKey (take keyPrefixLen raw))"
proof -
  have i: "invalidateAuthCache sha f raw s (authFailureKey p) = s (authFailureKey p)" for sha f p
    by (simp add: invalidateAuthCache_def rexec_def rdel_def)
  show ?thesis
    using assms i by (auto simp: auth_check_def Let_def split: if_splits option.splits sum.splits)
qed

lemma failed_run_count:
  "failed_run dp pre n t s \<Longrightarrow>
   s (authFailureKey pre) = (if n = 0 then None else Some (VCount (int n), t + authFailureWindow))"
proof (induction rule: failed_run.induct)
  case (fail n t s raw e d s')
  obtain s1 where s1: "s' = noteAuthFailure NoFault (av_now e) pre s1" "s1 (authFailureKey pre) = s (authFailureKey pre)"
    using auth_check_failed[OF fail.hyps(7,5,6)] fail.hyps(2) by auto
  have "rget (av_now e) (authFailureKey pre) s1 = (if n = 0 then None else Some (VCount (int n)))"
    using fail.IH fail.hyps(4) s1(2) by (simp add: rget_def)
  then show ?case by (simp add: s1(1) note_count)
qed simp

lemma auth_check_locked:
  assumes "\<not> length raw < keyPrefixLen" "av_redis e" "\<not> av_locked_lost e"
    and "lookupAuthCache (ad_sha16 dp) (av_lookup_lost e) (av_now e) raw s = None"
    and "rget (av_now e) (authFailureKey (take keyPrefixLen raw)) s = Some (VCount n)" "authFailureLimit < n"
  shows "auth_check dp e raw d s = (Locked, s)"
  using assms by (simp add: auth_check_def Let_def isAuthFailureLocked_def)

subsection \<open>A concrete key\<close>

definition ex_argon :: argon2 where
  "ex_argon = (\<lambda>raw salt t m p n. take n (raw @ replicate n CHR ''x''))"

definition ex_ad :: auth_deps where
  "ex_ad = \<lparr>ad_argon = ex_argon, ad_sha16 = id, ad_uuid_str = (\<lambda>u. replicate (unat u) CHR ''a'')\<rparr>"

definition ex_raw :: string where "ex_raw = ''abcdefgh''"

definition ex_hash :: string where "ex_hash = fst (the (HashAPIKey ex_argon ''salt'' ex_raw))"

definition ex_keys :: db where
  "ex_keys = empty_db\<lparr>api_keys := [new_api_key 0 1 ''k'' ex_hash ex_raw [ScopeRead]]\<rparr>"

definition ex_av :: "time \<Rightarrow> auth_env" where
  "ex_av t = \<lparr>av_redis = True, av_now = t, av_lookup_lost = False, av_revoked_lost = False, av_invalidate = NoFault,
              av_locked_lost = False, av_list = NoFault, av_list_ctx = None, av_store_now = t, av_store = NoFault,
              av_note = NoFault\<rparr>"

definition ex_ak :: authed_key where
  "ex_ak = \<lparr>ak_ID = ''a'', ak_Name = ''k'', ak_Scopes = [ScopeRead]\<rparr>"

lemma ex_ad_inj: "inj (ad_uuid_str ex_ad)"
proof (rule injI)
  fix x y :: uuid assume "ad_uuid_str ex_ad x = ad_uuid_str ex_ad y"
  then have "length (ad_uuid_str ex_ad x) = length (ad_uuid_str ex_ad y)" by simp
  then have "unat x = unat y" by (simp add: ex_ad_def)
  then show "x = y" by (rule unsigned_word_eqI)
qed

lemma ex_verify: "VerifyAPIKey ex_argon raw ex_hash = Some (ex_argon raw ''salt'' argonTime argonMemory argonThreads argonKeyLen =
    ex_argon ex_raw ''salt'' argonTime argonMemory argonThreads argonKeyLen)"
proof -
  obtain h where h: "HashAPIKey ex_argon ''salt'' ex_raw = Some (h, take keyPrefixLen ex_raw)"
    by (simp add: HashAPIKey_def ex_raw_def keyPrefixLen_def Let_def)
  then have "ex_hash = h" by (simp add: ex_hash_def)
  then show ?thesis using VerifyAPIKey_stored(1)[OF h] by (simp add: ex_argon_def)
qed

lemma ex_check: "auth_check ex_ad (ex_av 0) ex_raw ex_keys Map.empty = (Verified ex_ak, Map.empty)"
proof -
  have "first_match ex_ad ex_raw [new_api_key 0 1 ''k'' ex_hash ex_raw [ScopeRead]] = Some (new_api_key 0 1 ''k'' ex_hash ex_raw [ScopeRead])"
    using ex_verify[of ex_raw] by (simp add: first_match_def ex_ad_def new_api_key_def)
  then show ?thesis
    by (simp add: auth_check_def lookupAuthCache_def isAuthFailureLocked_def rget_def ex_av_def Let_def run_stmt_def
        ListActiveAPIKeysByPrefix_def ex_keys_def ex_raw_def keyPrefixLen_def ex_ak_def new_api_key_def)
       (simp add: ex_ad_def)
qed

lemma ex_failed:
  "n \<le> 21 \<Longrightarrow> \<exists>s. failed_run ex_ad ex_raw n 0 s \<and> (\<forall>k. k \<noteq> authFailureKey ex_raw \<longrightarrow> s k = None)"
proof (induction n)
  case 0
  show ?case using failed_run.start[of Map.empty ex_raw ex_ad 0] by (intro exI[of _ Map.empty]) simp
next
  case (Suc n)
  then obtain s where s: "failed_run ex_ad ex_raw n 0 s" "\<And>k. k \<noteq> authFailureKey ex_raw \<Longrightarrow> s k = None" by auto
  have pre: "take keyPrefixLen ex_raw = ex_raw" by (simp add: keyPrefixLen_def ex_raw_def)
  let ?s = "noteAuthFailure NoFault 0 ex_raw s"
  have nl: "\<not> isAuthFailureLocked False 0 ex_raw s"
    using failed_run_count[OF s(1)] Suc.prems by (simp add: isAuthFailureLocked_def rget_def authFailureLimit_def)
  have miss: "s (authCacheKey id ex_raw) = None" using s(2) by simp
  have "auth_check ex_ad (ex_av 0) ex_raw empty_db s = (Unauthorized ''invalid api key'', ?s)"
    using nl miss pre
    by (simp add: auth_check_def lookupAuthCache_def rget_def ex_av_def ex_ad_def Let_def run_stmt_def
        ListActiveAPIKeysByPrefix_def empty_db_def first_match_def keyPrefixLen_def ex_raw_def)
  then have "failed_run ex_ad ex_raw (Suc n) (av_now (ex_av 0)) ?s"
    using s(1) pre by (intro failed_run.fail[where d = empty_db and raw = ex_raw and t = 0]) (simp_all add: ex_av_def authFailureWindow_def second_def)
  moreover have "?s k = None" if "k \<noteq> authFailureKey ex_raw" for k
    using s(2)[OF that] that by (auto simp: noteAuthFailure_def rexec_def rset_def split: option.splits auth_val.splits)
  ultimately show ?case by (auto simp: ex_av_def)
qed

subsection \<open>Properties\<close>

text \<open>
  C22: Revocation is immediate. Take any run of the service, revoke a key in it with the marker
  reaching Redis, and let the run go on in any way: requests before and after, cached entries,
  requests that were verified before the revocation and cache their result after it, lost calls,
  other revocations, new keys. No request afterwards authenticates as that key, however old its
  cache entry, unless the very check of the marker is lost (it fails open).
\<close>

theorem revoked_key_denied:
  assumes "inj (ad_uuid_str dp)" "distinct (map k_id (api_keys d0))"
    and "(auth_trans dp)\<^sup>*\<^sup>* (auth_init d0 t) w"
    and "sel k_id kid (api_keys (aw_db w)) \<noteq> None" "RevokeAPIKey (aw_now w) kid (aw_db w) = Inr ((), d)"
    and "(auth_trans dp)\<^sup>*\<^sup>*
           (w\<lparr>aw_db := d, aw_redis := MarkKeyRevoked NoFault (aw_now w) (ad_uuid_str dp kid) (aw_redis w)\<rparr>) w'"
    and "\<not> av_revoked_lost e" "av_now e = aw_now w'"
  shows "case fst (AuthMiddleware dp e cid h (aw_db w') (aw_redis w')) of
           Inr k \<Rightarrow> ak_ID k \<noteq> ad_uuid_str dp kid | Inl _ \<Rightarrow> True"
proof -
  have "auth_inv dp (auth_init d0 t)" using assms(2) by (simp add: auth_inv_def auth_init_def entries_ok_def)
  then have "auth_inv dp w" by (rule auth_inv_run[OF assms(3)])
  from revoked_inv_run[OF assms(6) revoked_inv_start[OF this assms(4,5)] assms(1)]
  have "revoked_inv dp kid (aw_now w) w'" .
  from revoked_inv_denies[OF this assms(1,7,8)] show ?thesis by (auto split: sum.splits simp: prod_eq_iff)
qed

theorem revoked_key_denied_witness:
  "\<exists>s. lookupAuthCache id False 0 ex_raw s = Some ex_ak \<and>
       (case fst (AuthMiddleware ex_ad (ex_av second) [] (''Bearer '' @ ex_raw)
           (ex_keys\<lparr>api_keys := [(new_api_key 0 1 ''k'' ex_hash ex_raw [ScopeRead])\<lparr>k_revoked_at := Some 0\<rparr>]\<rparr>)
           (MarkKeyRevoked NoFault 0 ''a'' s)) of Inr k \<Rightarrow> ak_ID k \<noteq> ''a'' | Inl _ \<Rightarrow> True)"
proof -
  let ?w0 = "auth_init ex_keys 0"
  let ?w1 = "?w0\<lparr>aw_redis := Map.empty, aw_pending := [(ex_raw, ex_ak, 0)]\<rparr>"
  define s where "s = storeAuthCache id NoFault 0 ex_raw ex_ak Map.empty"
  let ?w2 = "?w1\<lparr>aw_redis := s, aw_pending := []\<rparr>"
  have "auth_trans ex_ad ?w0 ?w1"
    using auth_trans.request[of "ex_av 0" ?w0 ex_ad ex_raw "Verified ex_ak" Map.empty] ex_check
    by (simp add: auth_init_def ex_av_def)
  moreover have "auth_trans ex_ad ?w1 ?w2"
    using auth_trans.finish[of ex_raw ex_ak 0 ?w1 ex_ad NoFault]
    by (simp add: auth_init_def s_def ex_ad_def verifyBudget_def authRevokedTTL_def authCacheTTL_def second_def)
  ultimately have run: "(auth_trans ex_ad)\<^sup>*\<^sup>* ?w0 ?w2" by (meson rtranclp.rtrancl_into_rtrancl rtranclp.rtrancl_refl)
  let ?d = "ex_keys\<lparr>api_keys := [(new_api_key 0 1 ''k'' ex_hash ex_raw [ScopeRead])\<lparr>k_revoked_at := Some 0\<rparr>]\<rparr>"
  have rev: "RevokeAPIKey (aw_now ?w2) 1 (aw_db ?w2) = Inr ((), ?d)"
    by (simp add: RevokeAPIKey_def auth_init_def ex_keys_def new_api_key_def api_key_check_def pg_length_def utf8_cont_def ex_raw_def Let_def)
  let ?w3 = "?w2\<lparr>aw_db := ?d, aw_redis := MarkKeyRevoked NoFault (aw_now ?w2) (ad_uuid_str ex_ad 1) (aw_redis ?w2)\<rparr>"
  have step: "(auth_trans ex_ad)\<^sup>*\<^sup>* ?w3 (?w3\<lparr>aw_now := second\<rparr>)"
    using auth_trans.clock[of ?w3 second ex_ad] by (simp add: auth_init_def second_def r_into_rtranclp)
  have "case fst (AuthMiddleware ex_ad (ex_av second) [] (''Bearer '' @ ex_raw) (aw_db (?w3\<lparr>aw_now := second\<rparr>))
          (aw_redis (?w3\<lparr>aw_now := second\<rparr>))) of Inr k \<Rightarrow> ak_ID k \<noteq> ad_uuid_str ex_ad 1 | Inl _ \<Rightarrow> True"
    by (rule revoked_key_denied[OF ex_ad_inj _ run _ rev step])
       (simp_all add: ex_keys_def auth_init_def new_api_key_def ex_av_def)
  moreover have "lookupAuthCache id False 0 ex_raw s = Some ex_ak"
    by (simp add: s_def lookupAuthCache_def storeAuthCache_def rexec_def redis_store.get_put authCacheTTL_def second_def)
  moreover have id: "ad_uuid_str ex_ad 1 = ''a''" by (simp add: ex_ad_def)
  ultimately show ?thesis unfolding id by (intro exI[of _ s]) (simp add: auth_init_def)
qed

text \<open>
  C36: The brute-force gate. When 21 requests for a key prefix have failed verification, each less
  than a minute after the one before, the next one for that prefix that has no cached entry is
  refused with 429; Argon2 is not consulted, so whatever it would have said makes no difference.
\<close>

theorem brute_force_gate:
  assumes "failed_run dp (take keyPrefixLen raw) n t s" "21 \<le> n" "av_now e < t + authFailureWindow"
    and "keyPrefixLen \<le> length raw" "av_redis e" "\<not> av_locked_lost e"
    and "lookupAuthCache (ad_sha16 dp) (av_lookup_lost e) (av_now e) raw s = None"
  shows "\<exists>p retry. AuthMiddleware (dp\<lparr>ad_argon := f\<rparr>) e cid (''Bearer '' @ raw) d s = (Inl (Refused p retry), s) \<and> pr_status p = 429"
proof -
  have "rget (av_now e) (authFailureKey (take keyPrefixLen raw)) s = Some (VCount (int n))"
    using failed_run_count[OF assms(1)] assms(2,3) by (simp add: rget_def)
  then have "auth_check (dp\<lparr>ad_argon := f\<rparr>) e raw d s = (Locked, s)"
    using assms(2,4-7) by (intro auth_check_locked) (auto simp: authFailureLimit_def)
  moreover have "extractBearer (''Bearer '' @ raw) = Some raw"
    using assms(4) by (auto simp: extractBearer_def keyPrefixLen_def)
  ultimately show ?thesis
    by (auto simp: AuthMiddleware_def auth_problem_def WriteProblemFull_def mk_problem_def)
qed

theorem brute_force_gate_witness:
  "\<exists>s p retry. AuthMiddleware ex_ad (ex_av 5) [] (''Bearer '' @ ex_raw) ex_keys s = (Inl (Refused p retry), s) \<and> pr_status p = 429"
proof -
  obtain s where s: "failed_run ex_ad ex_raw 21 0 s" "\<And>k. k \<noteq> authFailureKey ex_raw \<Longrightarrow> s k = None" using ex_failed[of 21] by auto
  have pre: "take keyPrefixLen ex_raw = ex_raw" "keyPrefixLen \<le> length ex_raw" by (simp_all add: keyPrefixLen_def ex_raw_def)
  have miss: "lookupAuthCache (ad_sha16 ex_ad) (av_lookup_lost (ex_av 5)) (av_now (ex_av 5)) ex_raw s = None"
    using s(2)[of "authCacheKey id ex_raw"] by (simp add: lookupAuthCache_def rget_def ex_ad_def)
  have "ex_ad\<lparr>ad_argon := ex_argon\<rparr> = ex_ad" by (simp add: ex_ad_def)
  then show ?thesis
    using brute_force_gate[of ex_ad ex_raw 21 0 s "ex_av 5" ex_argon "[]" ex_keys] s(1) pre miss
    by (auto simp: ex_av_def authFailureWindow_def second_def)
qed

text \<open>
  A key verifies against its own stored hash, and another raw key does exactly when Argon2 gives
  it the same digest; the stored prefix is the one the lookup uses.
\<close>

theorem HashAPIKey_verifies:
  assumes "HashAPIKey argon salt raw = Some (hash, prefix)"
    and "length (argon raw salt argonTime argonMemory argonThreads argonKeyLen) = argonKeyLen"
  shows "VerifyAPIKey argon raw hash = Some True \<and> prefix = take keyPrefixLen raw \<and>
    VerifyAPIKey argon raw' hash =
      Some (argon raw' salt argonTime argonMemory argonThreads argonKeyLen = argon raw salt argonTime argonMemory argonThreads argonKeyLen)"
  using VerifyAPIKey_stored[OF assms] by simp

theorem HashAPIKey_verifies_witness:
  "\<exists>h. HashAPIKey ex_argon ''salt'' ex_raw = Some (h, take keyPrefixLen ex_raw) \<and> VerifyAPIKey ex_argon ex_raw h = Some True"
proof -
  obtain h where h: "HashAPIKey ex_argon ''salt'' ex_raw = Some (h, take keyPrefixLen ex_raw)"
    by (simp add: HashAPIKey_def ex_raw_def keyPrefixLen_def Let_def)
  then show ?thesis using HashAPIKey_verifies[OF h, of ex_raw] by (simp add: ex_argon_def)
qed

end
