(* ===== verification/Request.thy ===== *)
theory Request
  imports Auth Worker
begin

text \<open>
  What the resource handlers of \<open>internal/api\<close> share: the caller's identity as the authentication
  middleware left it in the request context, the query parameters common to the list endpoints, and
  the small conversions between Go values and nullable columns.

  A handler receives the decoded body or the text of the decoder's error, the caller's key, and what
  each of its calls meets; it returns a reply and the new state. JSON decoding and UUID syntax are
  parameters (\<open>uuid_parse\<close>, \<open>uuid_str\<close> of \<open>deps\<close>).
\<close>

type_synonym 'a decoded = "string + 'a"

definition ownerFromCtx :: "deps \<Rightarrow> authed_key option \<Rightarrow> uuid option" where
  "ownerFromCtx dp key = (case key of None \<Rightarrow> None | Some k \<Rightarrow> uuid_parse dp (ak_ID k))"

definition parseActorID :: "deps \<Rightarrow> string \<Rightarrow> uuid option" where
  "parseActorID dp s = uuid_parse dp s"

definition is_admin :: "authed_key option \<Rightarrow> bool" where
  "is_admin key = (case key of None \<Rightarrow> False | Some k \<Rightarrow> HasScope k ScopeAdmin)"

text \<open>The owner-or-admin gate on a row with the given owner; a row without one is for admins only.\<close>

definition may_access :: "deps \<Rightarrow> authed_key option \<Rightarrow> uuid option \<Rightarrow> bool" where
  "may_access dp key owner \<longleftrightarrow> is_admin key \<or> (ownerFromCtx dp key \<noteq> None \<and> owner = ownerFromCtx dp key)"

definition nullableString :: "string \<Rightarrow> string option" where
  "nullableString s = (if s = [] then None else Some s)"

text \<open>\<open>strconv.Atoi\<close>: an optional sign, decimal digits, a value that fits 64 bits.\<close>

definition Atoi :: "string \<Rightarrow> int option" where
  "Atoi s =
     (let neg = (s \<noteq> [] \<and> hd s = CHR ''-''); ds = (if s \<noteq> [] \<and> (hd s = CHR ''-'' \<or> hd s = CHR ''+'') then tl s else s);
          n = (if neg then - int (digits_value ds) else int (digits_value ds)) in
      if ds = [] \<or> \<not> list_all is_digit ds then None
      else if n < - (2 ^ 63) \<or> 2 ^ 63 \<le> n then None else Some n)"

text \<open>The page size of the list endpoints: at most 200, 50 when absent.\<close>

definition defaultPageSize :: int where "defaultPageSize = 50"
definition maxPageSize :: int where "maxPageSize = 200"

definition page_limit :: "string \<Rightarrow> int option" where
  "page_limit raw =
     (if raw = [] then Some defaultPageSize
      else (case Atoi raw of
              None \<Rightarrow> None
            | Some n \<Rightarrow> if n < 1 then None else Some (if n > maxPageSize then maxPageSize else n)))"

lemma page_limit_bounds: "page_limit raw = Some n \<Longrightarrow> 1 \<le> n \<and> n \<le> maxPageSize"
  by (auto simp: page_limit_def defaultPageSize_def maxPageSize_def split: if_splits option.splits)

text \<open>
  The query of a handler that is one statement: the call's fault, and the text of the context error
  when the call failed because the request was cancelled or timed out.
\<close>

record call_env =
  cl_now :: time
  cl_fault :: fault
  cl_ctx :: "string option"

text \<open>
  A transaction whose failure is reported with the name of the step that failed. Each step can be
  lost, which abandons the transaction; the commit can fail before or after it takes effect.
\<close>

type_synonym 'a tx = "db \<Rightarrow> (string \<times> db_error) + ('a \<times> db)"

definition tx_step :: "string \<Rightarrow> bool \<Rightarrow> 'a stmt \<Rightarrow> 'a tx" where
  "tx_step msg lost q d = (case guard_stmt lost q d of Inl err \<Rightarrow> Inl (msg, err) | Inr r \<Rightarrow> Inr r)"

definition bind_tx :: "'a tx \<Rightarrow> ('a \<Rightarrow> 'b tx) \<Rightarrow> 'b tx" where
  "bind_tx q k d = (case q d of Inl e \<Rightarrow> Inl e | Inr (a, d') \<Rightarrow> k a d')"

definition return_tx :: "'a \<Rightarrow> 'a tx" where
  "return_tx a d = Inr (a, d)"

definition run_tx :: "bool \<Rightarrow> fault \<Rightarrow> 'a tx \<Rightarrow> db \<Rightarrow> ((string \<times> db_error) + 'a) \<times> db" where
  "run_tx begin_lost commit q d =
     (if begin_lost then (Inl (''begin tx'', ErrInfra), d)
      else
        (case q d of
           Inl e \<Rightarrow> (Inl e, d)
         | Inr (a, d') \<Rightarrow>
             (case commit of
                NoFault \<Rightarrow> (Inr a, d')
              | FaultBefore \<Rightarrow> (Inl (''commit'', ErrInfra), d)
              | FaultAfter \<Rightarrow> (Inl (''commit'', ErrInfra), d'))))"

lemma run_tx_cases: "snd (run_tx b f q d) = d \<or> (\<exists>a. q d = Inr (a, snd (run_tx b f q d)))"
  by (auto simp: run_tx_def split: fault.splits sum.splits prod.splits)

lemma run_tx_Inr: "run_tx b f q d = (Inr a, d') \<Longrightarrow> q d = Inr (a, d')"
  by (auto simp: run_tx_def split: if_splits fault.splits sum.splits prod.splits)

lemma run_tx_NoFault: "q d = Inr (a, d') \<Longrightarrow> run_tx False NoFault q d = (Inr a, d')"
  by (simp add: run_tx_def)

lemma bind_tx_Inr: "bind_tx q k d = Inr (b, d') \<longleftrightarrow> (\<exists>a d1. q d = Inr (a, d1) \<and> k a d1 = Inr (b, d'))"
  by (auto simp: bind_tx_def split: sum.splits)

lemma tx_step_Inr: "tx_step msg lost q d = Inr r \<longleftrightarrow> \<not> lost \<and> q d = Inr r"
  by (auto simp: tx_step_def guard_stmt_def split: sum.splits)

lemma return_tx_Inr: "return_tx a d = Inr (b, d') \<longleftrightarrow> b = a \<and> d' = d"
  by (auto simp: return_tx_def)

lemmas tx_Inr = bind_tx_Inr tx_step_Inr return_tx_Inr

definition tx_problem :: "string \<Rightarrow> string option \<Rightarrow> string \<times> db_error \<Rightarrow> 'a reply" where
  "tx_problem cid ctx err = WriteErrorAsProblem cid (Some (wrap_db ctx (fst err) (snd err)))"

text \<open>A transaction keeps the schema invariant when each of its steps does.\<close>

definition tx_keeps_wf :: "'a tx \<Rightarrow> bool" where
  "tx_keeps_wf q \<longleftrightarrow> (\<forall>d a d'. db_wf d \<longrightarrow> q d = Inr (a, d') \<longrightarrow> db_wf d')"

lemma tx_keeps_wf_step [wf_intros]: "keeps_wf q \<Longrightarrow> tx_keeps_wf (tx_step msg lost q)"
  by (simp add: tx_keeps_wf_def keeps_wf_def tx_step_Inr)

lemma tx_keeps_wf_bind [wf_intros]:
  assumes "tx_keeps_wf q" "\<And>a. tx_keeps_wf (k a)"
  shows "tx_keeps_wf (bind_tx q k)"
  unfolding tx_keeps_wf_def
proof (intro allI impI)
  fix d b d' assume "db_wf d" "bind_tx q k d = Inr (b, d')"
  then obtain a d1 where "q d = Inr (a, d1)" "k a d1 = Inr (b, d')" by (auto simp: bind_tx_Inr)
  then have "db_wf d1" using assms(1) \<open>db_wf d\<close> unfolding tx_keeps_wf_def by blast
  then show "db_wf d'" using assms(2)[of a] \<open>k a d1 = Inr (b, d')\<close> unfolding tx_keeps_wf_def by blast
qed

lemma tx_keeps_wf_return [wf_intros]: "tx_keeps_wf (return_tx a)"
  by (simp add: tx_keeps_wf_def return_tx_Inr)

lemma tx_keeps_wf_run: "tx_keeps_wf q \<Longrightarrow> db_wf d \<Longrightarrow> db_wf (snd (run_tx b f q d))"
  using run_tx_cases[of b f q d] unfolding tx_keeps_wf_def by metis

lemma run_stmt_keeps:
  "run_stmt f q d = (r, d') \<Longrightarrow> P d \<Longrightarrow> (\<And>a d'. q d = Inr (a, d') \<Longrightarrow> P d') \<Longrightarrow> P d'"
  using run_stmt_cases[of f q d] by auto

text \<open>The reply to an error of a single-row query: a missing row is a domain error.\<close>

definition query_problem :: "string \<Rightarrow> string option \<Rightarrow> domain_error \<Rightarrow> string \<Rightarrow> db_error \<Rightarrow> 'a reply" where
  "query_problem cid ctx missing msg err =
     (if err = ErrNoRows then WriteErrorAsProblem cid (Some (sentinel missing))
      else WriteErrorAsProblem cid (Some (wrap_db ctx msg err)))"

fun accepted :: "'a reply \<Rightarrow> bool" where
  "accepted (Done _ _) = True"
| "accepted (Refused _ _) = False"

lemma accepted_problems [simp]:
  "\<not> accepted (WriteProblemFull cid retry p)" "\<not> accepted (WriteProblem cid st a b c)"
  "\<not> accepted (WriteValidationProblem cid es)"
  by (simp_all add: WriteProblem_def WriteProblemFull_def WriteValidationProblem_def)

lemma accepted_error [simp]: "\<not> accepted (WriteErrorAsProblem cid err)"
  by (simp add: WriteErrorAsProblem_def split: option.splits api_err.splits)

lemma accepted_tx_problem [simp]: "\<not> accepted (tx_problem cid ctx err)"
  by (simp add: tx_problem_def)

lemma accepted_query_problem [simp]: "\<not> accepted (query_problem cid ctx missing msg err)"
  by (simp add: query_problem_def)

lemma query_problem_NoRows [simp]:
  "query_problem cid ctx missing msg ErrNoRows = WriteErrorAsProblem cid (Some (sentinel missing))"
  by (simp add: query_problem_def)

end
