(* ===== verification/Template.thy ===== *)
theory Template
  imports Request Delivery
begin

text \<open>
  Message templates: \<open>internal/template\<close> (variable extraction and rendering), the statements on the
  \<open>templates\<close> table and the handlers of \<open>internal/api/templates.go\<close>.

  The engine of \<open>text/template\<close> is a parameter: whether a body compiles, and what executing it on a
  set of variables gives. The regular expression that lists the variables of a body is modelled
  exactly.
\<close>

subsection \<open>Variable references\<close>

definition ident_start :: "char \<Rightarrow> bool" where
  "ident_start c \<longleftrightarrow> (let n = of_char c :: nat in 65 \<le> n \<and> n \<le> 90 \<or> 97 \<le> n \<and> n \<le> 122 \<or> n = 95)"

definition ident_char :: "char \<Rightarrow> bool" where
  "ident_char c \<longleftrightarrow> ident_start c \<or> is_digit c"

text \<open>
  Inside one pair of braces the greedy prefix of the expression leaves the last dot that is followed
  by an identifier, and the identifier is taken as far as it goes.
\<close>

fun last_ref :: "string \<Rightarrow> string option" where
  "last_ref [] = None"
| "last_ref (c # cs) =
     (case last_ref cs of
        Some v \<Rightarrow> Some v
      | None \<Rightarrow> if c = CHR ''.'' \<and> cs \<noteq> [] \<and> ident_start (hd cs) then Some (takeWhile ident_char cs) else None)"

text \<open>
  The leftmost match at or after a position. No part of the expression before the closing braces
  can consume a closing brace, so the interior ends at the first one and the next one must follow it.
\<close>

definition closed :: "string \<Rightarrow> (string \<times> string) option" where
  "closed cs =
     (case dropWhile (\<lambda>c. c \<noteq> CHR ''}'') cs of
        _ # b # rest \<Rightarrow>
          if b = CHR ''}'' then map_option (\<lambda>v. (v, rest)) (last_ref (takeWhile (\<lambda>c. c \<noteq> CHR ''}'') cs)) else None
      | _ \<Rightarrow> None)"

lemma closed_shorter: "closed cs = Some (v, rest) \<Longrightarrow> length rest < length cs"
proof -
  assume "closed cs = Some (v, rest)"
  then obtain a b where "dropWhile (\<lambda>c. c \<noteq> CHR ''}'') cs = a # b # rest"
    by (auto simp: closed_def split: list.splits if_splits)
  then show ?thesis using length_dropWhile_le[of "\<lambda>c. c \<noteq> CHR ''}''" cs] by simp
qed

function find_refs :: "string \<Rightarrow> string list" where
  "find_refs s =
     (case s of
        a # b # cs \<Rightarrow>
          if a = CHR ''{'' \<and> b = CHR ''{'' then
            (case closed cs of Some (v, rest) \<Rightarrow> v # find_refs rest | None \<Rightarrow> find_refs (b # cs))
          else find_refs (b # cs)
      | _ \<Rightarrow> [])"
  by pat_completeness auto
termination by (relation "measure length") (auto dest: closed_shorter)

declare find_refs.simps [simp del]

record template_engine =
  te_parse :: "string \<Rightarrow> string option"
  te_exec :: "string \<Rightarrow> (string \<rightharpoonup> json) \<Rightarrow> string + string"

definition Parse :: "template_engine \<Rightarrow> string \<Rightarrow> string + string list" where
  "Parse te body =
     (case te_parse te body of
        Some err \<Rightarrow> Inl (''template: parse failed'' @ [CHR 0x0A] @ err)
      | None \<Rightarrow> Inr (sorted_list_of_set (set (find_refs body))))"

definition Render :: "template_engine \<Rightarrow> string \<Rightarrow> (string \<rightharpoonup> json) \<Rightarrow> string + string" where
  "Render te body vars =
     (case Parse te body of
        Inl err \<Rightarrow> Inl err
      | Inr _ \<Rightarrow>
          (case te_exec te body vars of
             Inl err \<Rightarrow> Inl (''template: render failed'' @ [CHR 0x0A] @ err)
           | Inr s \<Rightarrow> Inr s))"

definition CheckRequired :: "string list \<Rightarrow> (string \<rightharpoonup> json) \<Rightarrow> string list" where
  "CheckRequired required vars = filter (\<lambda>r. vars r = None) required"

subsection \<open>Statements on templates\<close>

definition template_check :: "template \<Rightarrow> bool" where
  "template_check t \<longleftrightarrow>
     1 \<le> pg_length (t_name t) \<and> pg_length (t_name t) \<le> 100 \<and> Channel_Valid (t_channel t) \<and>
     1 \<le> t_version t \<and> int4 (t_version t) \<and>
     1 \<le> pg_length (t_body t) \<and> pg_length (t_body t) \<le> 32768"

definition template_key :: "template \<Rightarrow> string \<times> string \<times> int" where
  "template_key t = (t_name t, t_channel t, t_version t)"

definition InsertTemplate ::
  "time \<Rightarrow> uuid \<Rightarrow> string \<Rightarrow> string \<Rightarrow> int \<Rightarrow> string \<Rightarrow> string list \<Rightarrow> uuid option \<Rightarrow> template stmt" where
  "InsertTemplate now tid name ch version body vars owner d =
     (let t = \<lparr>t_id = tid, t_name = name, t_channel = ch, t_version = version, t_body = body, t_required_vars = vars,
               t_created_at = now, t_updated_at = now, t_deprecated_at = None, t_created_by = owner\<rparr> in
      if \<not> template_check t then Inl (ErrConstraint ''templates'')
      else if sel t_id tid (templates d) \<noteq> None then Inl (ErrConstraint ''templates_pkey'')
      else if template_key t \<in> template_key ` set (templates d) then Inl (ErrConstraint ''templates_name_channel_version_key'')
      else if \<not> fk k_id (api_keys d) owner then Inl (ErrConstraint ''templates_created_by_fkey'')
      else Inr (t, d\<lparr>templates := templates d @ [t]\<rparr>))"

definition GetTemplateByID :: "uuid \<Rightarrow> template stmt" where
  "GetTemplateByID tid d =
     (case sel t_id tid (templates d) of None \<Rightarrow> Inl ErrNoRows | Some t \<Rightarrow> Inr (t, d))"

definition GetActiveTemplateByNameChannel :: "string \<Rightarrow> string \<Rightarrow> template stmt" where
  "GetActiveTemplateByNameChannel name ch d =
     (case rev (sort_key t_version (filter (\<lambda>t. t_name t = name \<and> t_channel t = ch \<and> t_deprecated_at t = None) (templates d))) of
        [] \<Rightarrow> Inl ErrNoRows | t # _ \<Rightarrow> Inr (t, d))"

definition bump :: "time \<Rightarrow> string \<Rightarrow> string list \<Rightarrow> template \<Rightarrow> template" where
  "bump now body vars t =
     t\<lparr>t_body := body, t_required_vars := vars, t_version := t_version t + 1, t_updated_at := now\<rparr>"

text \<open>\<open>UPDATE templates SET f WHERE id = tid AND g RETURNING *\<close>, with the CHECKs and the unique key.\<close>

definition update_template :: "(template \<Rightarrow> bool) \<Rightarrow> (template \<Rightarrow> template) \<Rightarrow> uuid \<Rightarrow> template stmt" where
  "update_template g f tid d =
     (case find (\<lambda>t. t_id t = tid \<and> g t) (templates d) of
        None \<Rightarrow> Inl ErrNoRows
      | Some t \<Rightarrow>
          if \<not> template_check (f t) then Inl (ErrConstraint ''templates'')
          else if list_ex (\<lambda>t'. t_id t' \<noteq> tid \<and> template_key t' = template_key (f t)) (templates d)
          then Inl (ErrConstraint ''templates_name_channel_version_key'')
          else Inr (f t, d\<lparr>templates := upd (\<lambda>t. t_id t = tid \<and> g t) f (templates d)\<rparr>))"

definition BumpTemplateVersion :: "time \<Rightarrow> uuid \<Rightarrow> string \<Rightarrow> string list \<Rightarrow> template stmt" where
  "BumpTemplateVersion now tid body vars =
     update_template (\<lambda>t. t_deprecated_at t = None) (bump now body vars) tid"

definition BumpTemplateVersionScoped :: "time \<Rightarrow> uuid \<Rightarrow> string \<Rightarrow> string list \<Rightarrow> uuid \<Rightarrow> template stmt" where
  "BumpTemplateVersionScoped now tid body vars owner =
     update_template (\<lambda>t. t_created_by t = Some owner \<and> t_deprecated_at t = None) (bump now body vars) tid"

definition deprecate :: "time \<Rightarrow> template \<Rightarrow> template" where
  "deprecate now t = t\<lparr>t_deprecated_at := Some now\<rparr>"

definition DeprecateTemplate :: "time \<Rightarrow> uuid \<Rightarrow> unit stmt" where
  "DeprecateTemplate now tid d =
     Inr ((), d\<lparr>templates := upd (\<lambda>t. t_id t = tid \<and> t_deprecated_at t = None) (deprecate now) (templates d)\<rparr>)"

definition DeprecateTemplateScoped :: "time \<Rightarrow> uuid \<Rightarrow> uuid \<Rightarrow> int stmt" where
  "DeprecateTemplateScoped now tid owner d =
     (let P = (\<lambda>t. t_id t = tid \<and> t_created_by t = Some owner \<and> t_deprecated_at t = None) in
      Inr (int (length (filter P (templates d))), d\<lparr>templates := upd P (deprecate now) (templates d)\<rparr>))"

definition newest_templates :: "template list \<Rightarrow> template list" where
  "newest_templates ts = rev (sort_key (\<lambda>t. (t_created_at t, t_id t)) ts)"

definition ListActiveTemplates :: "int \<Rightarrow> template list stmt" where
  "ListActiveTemplates n d =
     Inr (take (nat n) (newest_templates (filter (\<lambda>t. t_deprecated_at t = None) (templates d))), d)"

definition ListActiveTemplatesScoped :: "uuid \<Rightarrow> int \<Rightarrow> template list stmt" where
  "ListActiveTemplatesScoped owner n d =
     Inr (take (nat n) (newest_templates
            (filter (\<lambda>t. t_deprecated_at t = None \<and> t_created_by t = Some owner) (templates d))), d)"

subsection \<open>Handlers\<close>

record template_create_request =
  tc_name :: string
  tc_channel :: channel
  tc_body :: string

record template_response =
  tr_id :: uuid
  tr_name :: string
  tr_channel :: channel
  tr_version :: int
  tr_body :: string
  tr_required_vars :: "string list"
  tr_created_at :: time
  tr_updated_at :: time
  tr_deprecated_at :: "time option"

definition templateRowToResponse :: "template \<Rightarrow> template_response" where
  "templateRowToResponse t =
     \<lparr>tr_id = t_id t, tr_name = t_name t, tr_channel = t_channel t, tr_version = t_version t, tr_body = t_body t,
      tr_required_vars = t_required_vars t, tr_created_at = t_created_at t, tr_updated_at = t_updated_at t,
      tr_deprecated_at = t_deprecated_at t\<rparr>"

definition validateTemplateCreate :: "template_create_request \<Rightarrow> field_error list" where
  "validateTemplateCreate req =
     (if tc_name req = [] \<or> length (tc_name req) > 100 then [field_err ''name'' ''must be 1..100 chars''] else []) @
     (if \<not> Channel_Valid (tc_channel req) then [field_err ''channel'' ''must be sms | email | push''] else []) @
     (if tc_body req = [] \<or> length (tc_body req) > 32768 then [field_err ''body'' ''must be 1..32768 chars''] else [])"

definition templates_create ::
  "deps \<Rightarrow> template_engine \<Rightarrow> string \<Rightarrow> call_env \<Rightarrow> uuid \<Rightarrow> authed_key option \<Rightarrow> template_create_request decoded \<Rightarrow>
   db \<Rightarrow> template_response reply \<times> db" where
  "templates_create dp te cid e tid key body d =
     (case body of
        Inl err \<Rightarrow> (WriteValidationProblem cid [field_err ''body'' err], d)
      | Inr req \<Rightarrow>
          if validateTemplateCreate req \<noteq> [] then (WriteValidationProblem cid (validateTemplateCreate req), d)
          else
            (case Parse te (tc_body req) of
               Inl err \<Rightarrow> (WriteValidationProblem cid [field_err ''body'' err], d)
             | Inr vars \<Rightarrow>
                 (case run_stmt (cl_fault e)
                     (InsertTemplate (cl_now e) tid (tc_name req) (tc_channel req) 1 (tc_body req) vars (ownerFromCtx dp key)) d of
                    (Inl err, d') \<Rightarrow> (WriteErrorAsProblem cid (Some (wrap_db (cl_ctx e) ''insert template'' err)), d')
                  | (Inr row, d') \<Rightarrow> (Done 201 (templateRowToResponse row), d'))))"

text \<open>The owner-or-admin gate on a template row, shared by \<open>get\<close> and the creation of notifications.\<close>

definition template_visible :: "deps \<Rightarrow> authed_key option \<Rightarrow> template \<Rightarrow> bool" where
  "template_visible dp key t \<longleftrightarrow> may_access dp key (t_created_by t)"

definition templates_get ::
  "deps \<Rightarrow> string \<Rightarrow> call_env \<Rightarrow> authed_key option \<Rightarrow> string \<Rightarrow> db \<Rightarrow> template_response reply" where
  "templates_get dp cid e key idp d =
     (case uuid_parse dp idp of
        None \<Rightarrow> WriteValidationProblem cid [field_err ''id'' ''must be a UUID'']
      | Some tid \<Rightarrow>
          (case fst (run_stmt (cl_fault e) (GetTemplateByID tid) d) of
             Inl err \<Rightarrow> query_problem cid (cl_ctx e) ErrTemplateNotFound ''get template'' err
           | Inr row \<Rightarrow>
               if \<not> template_visible dp key row then WriteErrorAsProblem cid (Some (sentinel ErrTemplateNotFound))
               else Done 200 (templateRowToResponse row)))"

definition templates_list ::
  "deps \<Rightarrow> string \<Rightarrow> call_env \<Rightarrow> authed_key option \<Rightarrow> string \<Rightarrow> db \<Rightarrow> template_response list reply" where
  "templates_list dp cid e key limit d =
     (case page_limit limit of
        None \<Rightarrow> WriteValidationProblem cid [field_err ''limit'' ''must be a positive integer'']
      | Some n \<Rightarrow>
          (case (if is_admin key then fst (run_stmt (cl_fault e) (ListActiveTemplates n) d)
                 else (case ownerFromCtx dp key of
                         None \<Rightarrow> Inr []
                       | Some owner \<Rightarrow> fst (run_stmt (cl_fault e) (ListActiveTemplatesScoped owner n) d))) of
             Inl err \<Rightarrow> WriteErrorAsProblem cid (Some (wrap_db (cl_ctx e) ''list templates'' err))
           | Inr rows \<Rightarrow> Done 200 (map templateRowToResponse rows)))"

definition templates_put ::
  "deps \<Rightarrow> template_engine \<Rightarrow> string \<Rightarrow> call_env \<Rightarrow> authed_key option \<Rightarrow> string \<Rightarrow> string decoded \<Rightarrow>
   db \<Rightarrow> template_response reply \<times> db" where
  "templates_put dp te cid e key idp body d =
     (case uuid_parse dp idp of
        None \<Rightarrow> (WriteValidationProblem cid [field_err ''id'' ''must be a UUID''], d)
      | Some tid \<Rightarrow>
          (case body of
             Inl err \<Rightarrow> (WriteValidationProblem cid [field_err ''body'' err], d)
           | Inr text \<Rightarrow>
               if text = [] then (WriteValidationProblem cid [field_err ''body'' ''must not be empty''], d)
               else
                 (case Parse te text of
                    Inl err \<Rightarrow> (WriteValidationProblem cid [field_err ''body'' err], d)
                  | Inr vars \<Rightarrow>
                      (let answer = (\<lambda>q. case run_stmt (cl_fault e) q d of
                             (Inl err, d') \<Rightarrow> (query_problem cid (cl_ctx e) ErrTemplateNotFound ''bump template'' err, d')
                           | (Inr row, d') \<Rightarrow> (Done 200 (templateRowToResponse row), d')) in
                       if is_admin key then answer (BumpTemplateVersion (cl_now e) tid text vars)
                       else
                         (case ownerFromCtx dp key of
                            None \<Rightarrow> (WriteErrorAsProblem cid (Some (sentinel ErrTemplateNotFound)), d)
                          | Some owner \<Rightarrow> answer (BumpTemplateVersionScoped (cl_now e) tid text vars owner))))))"

definition templates_del ::
  "deps \<Rightarrow> string \<Rightarrow> call_env \<Rightarrow> authed_key option \<Rightarrow> string \<Rightarrow> db \<Rightarrow> unit reply \<times> db" where
  "templates_del dp cid e key idp d =
     (case uuid_parse dp idp of
        None \<Rightarrow> (WriteValidationProblem cid [field_err ''id'' ''must be a UUID''], d)
      | Some tid \<Rightarrow>
          if is_admin key then
            (case run_stmt (cl_fault e) (DeprecateTemplate (cl_now e) tid) d of
               (Inl err, d') \<Rightarrow> (WriteErrorAsProblem cid (Some (wrap_db (cl_ctx e) ''deprecate template'' err)), d')
             | (Inr _, d') \<Rightarrow> (Done 204 (), d'))
          else
            (case ownerFromCtx dp key of
               None \<Rightarrow> (WriteErrorAsProblem cid (Some (sentinel ErrTemplateNotFound)), d)
             | Some owner \<Rightarrow>
                 (case run_stmt (cl_fault e) (DeprecateTemplateScoped (cl_now e) tid owner) d of
                    (Inl err, d') \<Rightarrow> (WriteErrorAsProblem cid (Some (wrap_db (cl_ctx e) ''deprecate template'' err)), d')
                  | (Inr n, d') \<Rightarrow>
                      if n = 0 then (WriteErrorAsProblem cid (Some (sentinel ErrTemplateNotFound)), d')
                      else (Done 204 (), d'))))"

subsection \<open>The table's invariant\<close>

definition templates_wf :: "db \<Rightarrow> bool" where
  "templates_wf d \<longleftrightarrow>
     distinct (map t_id (templates d)) \<and> distinct (map template_key (templates d)) \<and> list_all template_check (templates d)"

lemma t_id_bump [simp]: "t_id (bump now body vars t) = t_id t"
  by (simp add: bump_def)

lemma deprecate_simps [simp]:
  "t_id (deprecate now t) = t_id t" "template_key (deprecate now t) = template_key t"
  "template_check (deprecate now t) = template_check t"
  by (simp_all add: deprecate_def template_key_def template_check_def)

lemma InsertTemplate_wf:
  "InsertTemplate now tid name ch v body vars owner d = Inr (t, d') \<Longrightarrow> templates_wf d \<Longrightarrow> templates_wf d'"
  by (auto simp: InsertTemplate_def Let_def templates_wf_def sel_None_iff split: if_splits)

lemma update_template_Inr:
  assumes "update_template g f tid d = Inr (t', d')"
  obtains t where "t \<in> set (templates d)" "t_id t = tid" "g t" "t' = f t" "template_check (f t)"
    "\<And>u. u \<in> set (templates d) \<Longrightarrow> t_id u \<noteq> tid \<Longrightarrow> template_key u \<noteq> template_key (f t)"
    "d' = d\<lparr>templates := upd (\<lambda>t. t_id t = tid \<and> g t) f (templates d)\<rparr>"
  using assms
  by (auto simp: update_template_def list_ex_iff split: option.splits if_splits dest!: find_SomeD)

lemma map_upd_unique:
  assumes "distinct (map key rs)" "r \<in> set rs" "P r" "\<And>x. P x \<Longrightarrow> key x = key r"
  shows "upd P f rs = map (\<lambda>x. if key x = key r then f r else x) rs"
  unfolding upd_def
proof (rule map_cong[OF refl])
  fix x assume "x \<in> set rs"
  then have "key x = key r \<Longrightarrow> x = r" using distinct_key_eq[OF assms(1) _ assms(2)] by blast
  then show "(if P x then f x else x) = (if key x = key r then f r else x)"
    using assms(3) assms(4)[of x] by (cases "key x = key r") auto
qed

lemma distinct_replaced:
  assumes "distinct (map h rs)" "distinct (map key rs)" "\<forall>x \<in> set rs. key x \<noteq> k \<longrightarrow> h x \<noteq> h y"
  shows "distinct (map h (map (\<lambda>x. if key x = k then y else x) rs))"
  using assms by (induction rs) (auto simp: image_iff)

lemma update_template_wf:
  assumes "update_template g f tid d = Inr (t', d')" "templates_wf d" "\<And>t. t_id (f t) = t_id t"
  shows "templates_wf d'"
  using assms(1)
proof (rule update_template_Inr)
  fix t assume t: "t \<in> set (templates d)" "t_id t = tid" "g t" "t' = f t" "template_check (f t)"
    "\<And>u. u \<in> set (templates d) \<Longrightarrow> t_id u \<noteq> tid \<Longrightarrow> template_key u \<noteq> template_key (f t)"
    "d' = d\<lparr>templates := upd (\<lambda>t. t_id t = tid \<and> g t) f (templates d)\<rparr>"
  have ids: "distinct (map t_id (templates d))" and keys: "distinct (map template_key (templates d))"
    using assms(2) by (simp_all add: templates_wf_def)
  have new: "templates d' = map (\<lambda>x. if t_id x = tid then f t else x) (templates d)"
    using map_upd_unique[OF ids t(1), of "\<lambda>t. t_id t = tid \<and> g t" f] t(2,3,7) by simp
  have "distinct (map t_id (templates d'))"
    using ids assms(3) by (simp add: t(7) map_key_upd)
  moreover have "distinct (map template_key (templates d'))"
    unfolding new using distinct_replaced[OF keys ids, of tid "f t"] t(6) by blast
  ultimately show ?thesis
    using assms(2) t(5) by (auto simp: templates_wf_def new list_all_iff)
qed

lemma Deprecate_wf:
  "DeprecateTemplate now tid d = Inr (a, d') \<Longrightarrow> templates_wf d \<Longrightarrow> templates_wf d'"
  "DeprecateTemplateScoped now tid owner d = Inr (n, d') \<Longrightarrow> templates_wf d \<Longrightarrow> templates_wf d'"
  by (auto simp: DeprecateTemplate_def DeprecateTemplateScoped_def Let_def templates_wf_def map_key_upd list_all_iff
      elim!: set_updE)

text \<open>Every template handler keeps the invariant, whatever its call meets.\<close>

lemma templates_create_wf:
  assumes "templates_create dp te cid e tid key body d = (r, d')" "templates_wf d"
  shows "templates_wf d'"
  using assms
  by (auto simp: templates_create_def split: sum.splits if_splits prod.splits
      elim!: run_stmt_keeps[where P = templates_wf] dest: InsertTemplate_wf)

lemma templates_put_wf:
  assumes "templates_put dp te cid e key idp body d = (r, d')" "templates_wf d"
  shows "templates_wf d'"
  using assms
  by (auto simp: templates_put_def Let_def BumpTemplateVersion_def BumpTemplateVersionScoped_def
      split: sum.splits if_splits prod.splits option.splits
      elim!: run_stmt_keeps[where P = templates_wf] dest: update_template_wf)

lemma templates_del_wf:
  assumes "templates_del dp cid e key idp d = (r, d')" "templates_wf d"
  shows "templates_wf d'"
  using assms
  by (auto simp: templates_del_def split: sum.splits if_splits prod.splits option.splits
      elim!: run_stmt_keeps[where P = templates_wf] dest: Deprecate_wf)

lemma find_upd_bump:
  assumes "distinct (map t_id (templates d))" "update_template g f tid d = Inr (t', d')" "\<And>t. t_id (f t) = t_id t"
  shows "\<exists>t. sel t_id tid (templates d) = Some t \<and> g t \<and> t' = f t \<and> sel t_id tid (templates d') = Some (f t) \<and>
    (\<forall>k. k \<noteq> tid \<longrightarrow> sel t_id k (templates d') = sel t_id k (templates d)) \<and> d' = d\<lparr>templates := templates d'\<rparr>"
  using assms(2)
proof (rule update_template_Inr)
  fix t assume t: "t \<in> set (templates d)" "t_id t = tid" "g t" "t' = f t"
    "d' = d\<lparr>templates := upd (\<lambda>t. t_id t = tid \<and> g t) f (templates d)\<rparr>"
  have s: "sel t_id tid (templates d) = Some t" using sel_distinct[OF assms(1) t(1)] t(2) by simp
  have "sel t_id k (templates d') = sel t_id k (templates d)" if "k \<noteq> tid" for k
    using that assms(3) by (auto simp: t(5) sel_upd map_option_case dest: sel_key split: option.splits)
  then show ?thesis using s t assms(3) by (intro exI[of _ t]) (auto simp: sel_upd)
qed

subsection \<open>Flat templates\<close>

text \<open>Literal text without an opening brace, and references to a variable padded with blanks.\<close>

datatype segment = SText string | SVar string string string

definition blanks :: "string \<Rightarrow> bool" where
  "blanks s = list_all (\<lambda>c. c = CHR '' '' \<or> c = CHR 0x09) s"

definition is_ident :: "string \<Rightarrow> bool" where
  "is_ident v \<longleftrightarrow> v \<noteq> [] \<and> ident_start (hd v) \<and> list_all ident_char v"

fun segment_text :: "segment \<Rightarrow> string" where
  "segment_text (SText t) = t"
| "segment_text (SVar a v b) = ''{{'' @ a @ ''.'' @ v @ b @ ''}}''"

fun segment_ok :: "segment \<Rightarrow> bool" where
  "segment_ok (SText t) = (CHR ''{'' \<notin> set t)"
| "segment_ok (SVar a v b) = (blanks a \<and> is_ident v \<and> blanks b)"

definition flat_text :: "segment list \<Rightarrow> string" where
  "flat_text segs = concat (map segment_text segs)"

fun flat_vars :: "segment list \<Rightarrow> string list" where
  "flat_vars [] = []"
| "flat_vars (SText _ # segs) = flat_vars segs"
| "flat_vars (SVar _ v _ # segs) = v # flat_vars segs"

lemma find_refs_short: "find_refs [] = []" "find_refs [c] = []"
  by (subst find_refs.simps, simp)+

lemma find_refs_skip: "c \<noteq> CHR ''{'' \<Longrightarrow> find_refs (c # s) = find_refs s"
  by (cases s) (simp_all add: find_refs_short find_refs.simps[of "c # _ # _"])

lemma find_refs_text: "CHR ''{'' \<notin> set t \<Longrightarrow> find_refs (t @ s) = find_refs s"
  by (induction t) (auto simp: find_refs_skip)

lemma last_ref_no_dot: "CHR ''.'' \<notin> set s \<Longrightarrow> last_ref s = None"
  by (induction s) auto

lemma last_ref_prefix: "last_ref s = Some v \<Longrightarrow> last_ref (a @ s) = Some v"
  by (induction a) auto

lemma ident_char_special: "\<not> ident_char CHR ''.''" "\<not> ident_char CHR ''}''" "\<not> ident_char CHR '' ''" "\<not> ident_char CHR 0x09"
  by (simp_all add: ident_char_def ident_start_def is_digit_def)

lemma blanks_no: "blanks b \<Longrightarrow> CHR ''.'' \<notin> set b" "blanks b \<Longrightarrow> CHR ''}'' \<notin> set b"
  by (auto simp: blanks_def list_all_iff dest: bspec)

lemma is_ident_no: "is_ident v \<Longrightarrow> CHR ''.'' \<notin> set v" "is_ident v \<Longrightarrow> CHR ''}'' \<notin> set v"
  using ident_char_special(1,2) unfolding is_ident_def list_all_iff by blast+

lemma takeWhile_blanks: "blanks b \<Longrightarrow> takeWhile ident_char b = []"
  using ident_char_special(3,4) by (cases b) (auto simp: blanks_def)

lemma last_ref_interior:
  assumes "blanks b" "is_ident v"
  shows "last_ref (a @ CHR ''.'' # v @ b) = Some v"
proof -
  have "takeWhile ident_char (v @ b) = v"
    using assms takeWhile_blanks[OF assms(1)] by (auto simp: is_ident_def list_all_iff)
  moreover have "last_ref (v @ b) = None" using assms by (intro last_ref_no_dot) (simp add: blanks_no is_ident_no)
  ultimately have "last_ref (CHR ''.'' # v @ b) = Some v"
    using assms(2) by (simp add: is_ident_def)
  then show ?thesis by (rule last_ref_prefix)
qed

lemma closed_interior:
  assumes "CHR ''}'' \<notin> set i" "last_ref i = Some v"
  shows "closed (i @ ''}}'' @ rest) = Some (v, rest)"
proof -
  have "takeWhile (\<lambda>c. c \<noteq> CHR ''}'') (i @ ''}}'' @ rest) = i" "dropWhile (\<lambda>c. c \<noteq> CHR ''}'') (i @ ''}}'' @ rest) = ''}}'' @ rest"
    using assms(1) by (induction i) auto
  then show ?thesis using assms(2) by (simp add: closed_def)
qed

lemma find_refs_var:
  assumes "segment_ok (SVar a v b)"
  shows "find_refs (segment_text (SVar a v b) @ rest) = v # find_refs rest"
proof -
  have "closed ((a @ CHR ''.'' # v @ b) @ ''}}'' @ rest) = Some (v, rest)"
    using assms by (intro closed_interior last_ref_interior) (simp_all add: blanks_no is_ident_no)
  then show ?thesis by (subst find_refs.simps) simp
qed

lemma find_refs_flat: "list_all segment_ok segs \<Longrightarrow> find_refs (flat_text segs) = flat_vars segs"
proof (induction segs)
  case (Cons s segs)
  then have IH: "find_refs (flat_text segs) = flat_vars segs" and ok: "segment_ok s" by simp_all
  have "flat_text (s # segs) = segment_text s @ flat_text segs" by (simp add: flat_text_def)
  then show ?case using ok IH find_refs_text find_refs_var by (cases s) (simp_all del: segment_text.simps(2) segment_ok.simps(2))
qed (simp add: flat_text_def find_refs_short)

subsection \<open>Hidden rows\<close>

definition without_template :: "uuid \<Rightarrow> db \<Rightarrow> db" where
  "without_template tid d = d\<lparr>templates := filter (\<lambda>t. t_id t \<noteq> tid) (templates d)\<rparr>"

definition template_foreign :: "deps \<Rightarrow> authed_key option \<Rightarrow> uuid \<Rightarrow> db \<Rightarrow> bool" where
  "template_foreign dp key tid d \<longleftrightarrow>
     list_all (\<lambda>t. t_id t = tid \<longrightarrow> t_created_by t = None \<or> t_created_by t \<noteq> ownerFromCtx dp key) (templates d)"

lemma GetTemplate_without: "GetTemplateByID tid (without_template tid d) = Inl ErrNoRows"
  by (auto simp: GetTemplateByID_def without_template_def sel_None_iff split: option.splits dest: sel_in_set sel_key)

lemma update_template_NoRows:
  "(\<And>t. t \<in> set (templates d) \<Longrightarrow> t_id t = tid \<Longrightarrow> \<not> g t) \<Longrightarrow> update_template g f tid d = Inl ErrNoRows"
  by (auto simp: update_template_def split: option.splits dest!: find_SomeD)

lemma BumpScoped_foreign:
  "template_foreign dp key tid d \<Longrightarrow> ownerFromCtx dp key = Some u \<Longrightarrow>
   BumpTemplateVersionScoped now tid body vars u d = Inl ErrNoRows"
  "BumpTemplateVersionScoped now tid body vars u (without_template tid d) = Inl ErrNoRows"
  unfolding BumpTemplateVersionScoped_def
  by (rule update_template_NoRows; auto simp: template_foreign_def list_all_iff without_template_def)+

lemma DeprecateScoped_none:
  assumes "\<And>t. t \<in> set (templates d) \<Longrightarrow> \<not> (t_id t = tid \<and> t_created_by t = Some u \<and> t_deprecated_at t = None)"
  shows "DeprecateTemplateScoped now tid u d = Inr (0, d)"
  using assms upd_none[of "templates d" "\<lambda>t. t_id t = tid \<and> t_created_by t = Some u \<and> t_deprecated_at t = None"]
  by (simp add: DeprecateTemplateScoped_def filter_empty_conv)

lemma DeprecateScoped_foreign:
  "template_foreign dp key tid d \<Longrightarrow> ownerFromCtx dp key = Some u \<Longrightarrow> DeprecateTemplateScoped now tid u d = Inr (0, d)"
  "DeprecateTemplateScoped now tid u (without_template tid d) = Inr (0, without_template tid d)"
  by (rule DeprecateScoped_none; auto simp: template_foreign_def list_all_iff without_template_def)+

subsection \<open>Properties\<close>

text \<open>
  The variables a template requires are exactly those it refers to. For a body of literal text
  and references, a body that compiles is stored with the sorted list of its variables, each once,
  and the check before rendering reports exactly the variables of the body that the request lacks.
\<close>

theorem required_vars_exact:
  assumes "list_all segment_ok segs" "te_parse te (flat_text segs) = None"
  shows "\<exists>vars. Parse te (flat_text segs) = Inr vars \<and> sorted vars \<and> distinct vars \<and>
    set (CheckRequired vars given) = {v \<in> set (flat_vars segs). given v = None}"
  using find_refs_flat[OF assms(1)] assms(2) by (auto simp: Parse_def CheckRequired_def)

definition ex_engine :: template_engine where
  "ex_engine = \<lparr>te_parse = (\<lambda>_. None), te_exec = (\<lambda>b vs. Inr b)\<rparr>"

definition ex_segments :: "segment list" where
  "ex_segments = [SText ''Hi '', SVar '' '' ''name'' '' '', SText '', code '', SVar [] ''code'' [], SVar '' '' ''name'' []]"

theorem required_vars_exact_witness:
  "flat_text ex_segments = ''Hi {{ .name }}, code {{.code}}{{ .name}}'' \<and>
   (\<exists>vars. Parse ex_engine (flat_text ex_segments) = Inr vars \<and> set (CheckRequired vars [''name'' \<mapsto> JNull]) = {''code''})"
proof -
  have "list_all segment_ok ex_segments"
    by (simp add: ex_segments_def blanks_def is_ident_def ident_char_def ident_start_def is_digit_def)
  moreover have "te_parse ex_engine (flat_text ex_segments) = None" by (simp add: ex_engine_def)
  ultimately obtain vars where "Parse ex_engine (flat_text ex_segments) = Inr vars"
    "set (CheckRequired vars [''name'' \<mapsto> JNull]) = {v \<in> set (flat_vars ex_segments). [''name'' \<mapsto> JNull] v = None}"
    using required_vars_exact by blast
  moreover have "{v \<in> set (flat_vars ex_segments). [''name'' \<mapsto> JNull] v = None} = {''code''}"
    by (auto simp: ex_segments_def)
  ultimately show ?thesis by (simp add: ex_segments_def flat_text_def)
qed

text \<open>
  A template of another key cannot be read, changed, retired or even noticed. For a caller
  without the admin scope, the replies of \<open>get\<close>, \<open>put\<close> and \<open>del\<close> on such a template are those given when
  no template has that id, whatever the calls meet, and nothing is written. (For the read, a lost
  reply and a lost request are the same fault.)
\<close>

theorem foreign_template_hidden:
  assumes "\<not> is_admin key" "uuid_parse dp idp = Some tid" "template_foreign dp key tid d"
  shows "(cl_fault e \<noteq> FaultAfter \<longrightarrow>
            templates_get dp cid e key idp d = templates_get dp cid e key idp (without_template tid d)) \<and>
    templates_put dp te cid e key idp body d = (fst (templates_put dp te cid e key idp body (without_template tid d)), d) \<and>
    templates_del dp cid e key idp d = (fst (templates_del dp cid e key idp (without_template tid d)), d)"
proof (intro conjI impI)
  assume f: "cl_fault e \<noteq> FaultAfter"
  have "\<not> template_visible dp key t" if "sel t_id tid (templates d) = Some t" for t
    using assms(1,3) sel_in_set[OF that] sel_key[OF that] by (auto simp: template_visible_def may_access_def template_foreign_def list_all_iff)
  then show "templates_get dp cid e key idp d = templates_get dp cid e key idp (without_template tid d)"
    using f assms(2) GetTemplate_without[of tid d]
    by (cases "cl_fault e") (auto simp: templates_get_def run_stmt_def GetTemplateByID_def[of tid d] split: option.splits)
next
  show "templates_put dp te cid e key idp body d = (fst (templates_put dp te cid e key idp body (without_template tid d)), d)"
    using assms(1,2) BumpScoped_foreign(1)[OF assms(3)]
    by (auto simp: templates_put_def Let_def run_stmt_def BumpScoped_foreign(2)
        split: sum.splits option.splits fault.splits)
  show "templates_del dp cid e key idp d = (fst (templates_del dp cid e key idp (without_template tid d)), d)"
    using assms(1,2) DeprecateScoped_foreign(1)[OF assms(3)]
    by (auto simp: templates_del_def run_stmt_def DeprecateScoped_foreign(2) split: option.splits fault.splits)
qed

definition ex_template :: template where
  "ex_template = \<lparr>t_id = 7, t_name = ''welcome'', t_channel = ''sms'', t_version = 1, t_body = ''Hi'', t_required_vars = [],
                 t_created_at = 0, t_updated_at = 0, t_deprecated_at = None, t_created_by = Some 2\<rparr>"

definition ex_reader :: authed_key where
  "ex_reader = \<lparr>ak_ID = ''a'', ak_Name = ''k'', ak_Scopes = [ScopeRead, ScopeWrite]\<rparr>"

definition ex_call :: "fault \<Rightarrow> call_env" where
  "ex_call f = \<lparr>cl_now = 5, cl_fault = f, cl_ctx = None\<rparr>"

theorem foreign_template_hidden_witness:
  "templates_put (ex_deps\<lparr>uuid_parse := \<lambda>s. if s = ''a'' then Some 1 else Some 7\<rparr>) ex_engine ''c'' (ex_call NoFault)
     (Some ex_reader) ''t'' (Inr ''evil'') (empty_db\<lparr>templates := [ex_template]\<rparr>) =
   (WriteErrorAsProblem ''c'' (Some (sentinel ErrTemplateNotFound)), empty_db\<lparr>templates := [ex_template]\<rparr>)"
proof -
  let ?dp = "ex_deps\<lparr>uuid_parse := \<lambda>s. if s = ''a'' then Some 1 else Some 7\<rparr>"
  let ?d = "empty_db\<lparr>templates := [ex_template]\<rparr>"
  have "\<not> is_admin (Some ex_reader)" by (simp add: is_admin_def ex_reader_def HasScope_def)
  moreover have "template_foreign ?dp (Some ex_reader) 7 ?d"
    by (simp add: template_foreign_def ownerFromCtx_def ex_reader_def ex_template_def)
  ultimately have "templates_put ?dp ex_engine ''c'' (ex_call NoFault) (Some ex_reader) ''t'' (Inr ''evil'') ?d =
      (fst (templates_put ?dp ex_engine ''c'' (ex_call NoFault) (Some ex_reader) ''t'' (Inr ''evil'') (without_template 7 ?d)), ?d)"
    using foreign_template_hidden[of "Some ex_reader" ?dp "''t''" 7 ?d] by auto
  moreover have "\<not> is_admin (Some ex_reader)" "ownerFromCtx ?dp (Some ex_reader) = Some 1"
    by (simp_all add: is_admin_def ex_reader_def HasScope_def ownerFromCtx_def)
  ultimately show ?thesis
    by (simp add: templates_put_def ex_call_def Parse_def ex_engine_def Let_def run_stmt_def BumpScoped_foreign(2))
qed

end
