(* ===== verification/Create.thy ===== *)
theory Create
  imports Template Outbox
begin

text \<open>
  POST /v1/notifications: \<open>internal/api/validate.go\<close> and \<open>create\<close> with \<open>persist\<close> of
  \<open>internal/api/notifications.go\<close>.

  Parameters are \<open>net/mail\<close>'s address syntax, the text of instants and JSON values, SHA-256, the trace
  headers the propagator adds, and the template engine. Encoding a request or a response cannot fail
  for the values that reach it. The metrics calls have no effect on the reply or the stores.
\<close>

record create_request =
  cr_channel :: channel
  cr_recipient :: string
  cr_content :: string
  cr_template_id :: "uuid option"
  cr_variables :: "(string \<times> json) list"
  cr_priority :: priority
  cr_scheduled_at :: "time option"

record notification_response =
  nr_id :: uuid
  nr_batch_id :: "uuid option"
  nr_channel :: channel
  nr_recipient :: string
  nr_content :: string
  nr_template_id :: "uuid option"
  nr_template_version :: "int option"
  nr_priority :: priority
  nr_status :: status
  nr_attempt_count :: int
  nr_last_error :: "string option"
  nr_scheduled_at :: "time option"
  nr_created_at :: time
  nr_updated_at :: time
  nr_sent_at :: "time option"
  nr_correlation_id :: string

definition rowToResponse :: "notification \<Rightarrow> notification_response" where
  "rowToResponse r =
     \<lparr>nr_id = n_id r, nr_batch_id = n_batch_id r, nr_channel = n_channel r, nr_recipient = n_recipient r,
      nr_content = n_content r, nr_template_id = n_template_id r, nr_template_version = n_template_version r,
      nr_priority = PriorityFromInt (n_priority r), nr_status = n_status r, nr_attempt_count = n_attempt_count r,
      nr_last_error = n_last_error r, nr_scheduled_at = n_scheduled_at r, nr_created_at = n_created_at r,
      nr_updated_at = n_updated_at r, nr_sent_at = n_sent_at r, nr_correlation_id = n_correlation_id r\<rparr>"

record create_deps =
  cd_mail_ok :: "string \<Rightarrow> bool"
  cd_time_text :: "time \<Rightarrow> string"
  cd_marshal :: "json \<Rightarrow> string"
  cd_sha256_hex :: "string \<Rightarrow> string"
  cd_response_text :: "notification_response \<Rightarrow> string"
  cd_engine :: template_engine
  cd_scheduler_enabled :: bool
  cd_idem_ttl :: time

subsection \<open>Validation\<close>

definition smsMaxChars :: nat where "smsMaxChars = 1000"
definition emailMaxBytes :: nat where "emailMaxBytes = 256 * 1024"
definition pushMaxBytes :: nat where "pushMaxBytes = 4 * 1024"

text \<open>A plus sign, a non-zero digit and 1 to 14 further digits.\<close>

definition e164 :: "string \<Rightarrow> bool" where
  "e164 s =
     (case s of
        p # c # ds \<Rightarrow>
          p = CHR ''+'' \<and> is_digit c \<and> c \<noteq> CHR ''0'' \<and> 1 \<le> length ds \<and> length ds \<le> 14 \<and> list_all is_digit ds
      | _ \<Rightarrow> False)"

definition validateRecipient :: "create_deps \<Rightarrow> channel \<Rightarrow> string \<Rightarrow> field_error list" where
  "validateRecipient cd ch r =
     (if r = [] then [field_err ''recipient'' ''must not be empty'']
      else if ch = ChannelSMS then
        (if \<not> e164 r then [field_err ''recipient'' ''must be E.164 (e.g. +905551234567)''] else [])
      else if ch = ChannelEmail then
        (if \<not> cd_mail_ok cd r then [field_err ''recipient'' ''must be a valid email address''] else [])
      else if ch = ChannelPush then
        (if length r < 16 \<or> length r > 512 then [field_err ''recipient'' ''device token length must be 16..512''] else [])
      else [field_err ''channel'' ''must be sms | email | push''])"

definition validateContent :: "channel \<Rightarrow> string \<Rightarrow> field_error list" where
  "validateContent ch c =
     (if c = [] then [field_err ''content'' ''must not be empty'']
      else if ch = ChannelSMS then
        (if length c > smsMaxChars then [field_err ''content'' (''max '' @ show_nat smsMaxChars @ '' chars for SMS'')] else [])
      else if ch = ChannelEmail then
        (if length c > emailMaxBytes then [field_err ''content'' (''max '' @ show_nat emailMaxBytes @ '' bytes for email'')] else [])
      else if ch = ChannelPush then
        (if length c > pushMaxBytes then [field_err ''content'' (''max '' @ show_nat pushMaxBytes @ '' bytes for push'')] else [])
      else [])"

definition maxSchedule :: time where "maxSchedule = 30 * 24 * 3600 * second"

definition validateCreate :: "create_deps \<Rightarrow> time \<Rightarrow> create_request \<Rightarrow> field_error list" where
  "validateCreate cd now req =
     (if \<not> Channel_Valid (cr_channel req) then [field_err ''channel'' ''must be sms | email | push'']
      else
        validateRecipient cd (cr_channel req) (cr_recipient req) @
        (if cr_content req \<noteq> [] \<and> cr_template_id req \<noteq> None then
           [field_err ''content'' ''must not be set when template_id is provided'']
         else if cr_content req = [] \<and> cr_template_id req = None then
           [field_err ''content'' ''must be set when template_id is not provided'']
         else if cr_content req \<noteq> [] then validateContent (cr_channel req) (cr_content req)
         else []) @
        (if \<not> Priority_Valid (cr_priority req) then [field_err ''priority'' ''must be high | normal | low''] else []) @
        (case cr_scheduled_at req of
           None \<Rightarrow> []
         | Some t \<Rightarrow> if t > now + maxSchedule then [field_err ''scheduled_at'' (''must be '' @ [CHR 0xE2, CHR 0x89, CHR 0xA4] @ '' 30 days in the future'')] else []))"

text \<open>An absent priority becomes \<open>normal\<close> before validation.\<close>

definition default_priority :: "create_request \<Rightarrow> create_request" where
  "default_priority req = (if cr_priority req = [] then req\<lparr>cr_priority := PriorityNormal\<rparr> else req)"

subsection \<open>The durable side\<close>

record persist_env =
  pe_now :: time
  pe_db_now :: time
  pe_id :: uuid
  pe_outbox_id :: uuid
  pe_trace :: "(string \<times> string) list"
  pe_begin_lost :: bool
  pe_insert_lost :: bool
  pe_second_lost :: bool
  pe_commit :: fault

definition scheduled_later :: "time \<Rightarrow> create_request \<Rightarrow> bool" where
  "scheduled_later now req = (case cr_scheduled_at req of None \<Rightarrow> False | Some t \<Rightarrow> t > now)"

definition create_params ::
  "persist_env \<Rightarrow> create_request \<Rightarrow> string \<Rightarrow> string \<Rightarrow> int option \<Rightarrow> uuid option \<Rightarrow> insert_notification_params" where
  "create_params e req idemKey corrID version owner =
     \<lparr>p_id = pe_id e, p_batch_id = None, p_channel = cr_channel req, p_recipient = cr_recipient req,
      p_content = cr_content req, p_priority = Priority_Int16 (cr_priority req),
      p_status = (if scheduled_later (pe_now e) req then StatusScheduled else StatusPending),
      p_idempotency_key = nullableString idemKey,
      p_scheduled_at = (if scheduled_later (pe_now e) req then cr_scheduled_at req else None),
      p_correlation_id = corrID, p_template_id = cr_template_id req, p_template_version = version,
      p_created_by = owner\<rparr>"

definition create_payload :: "deps \<Rightarrow> uuid \<Rightarrow> create_request \<Rightarrow> string \<Rightarrow> json" where
  "create_payload dp nid req corrID =
     envelope_json (uuid_str dp nid) (cr_channel req) (cr_recipient req) (cr_content req) (cr_priority req) corrID"

definition create_headers :: "(string \<times> string) list \<Rightarrow> string \<Rightarrow> string \<Rightarrow> json" where
  "create_headers trace corrID idemKey =
     JObj (sorted_entries
       ((''x-correlation-id'', JStr corrID) #
        (if idemKey \<noteq> [] then [(''x-idempotency-key'', JStr idemKey)] else []) @
        map (\<lambda>(k, v). (k, JStr v)) trace))"

definition persist_tx ::
  "deps \<Rightarrow> persist_env \<Rightarrow> create_request \<Rightarrow> string \<Rightarrow> string \<Rightarrow> int option \<Rightarrow> uuid option \<Rightarrow> notification tx" where
  "persist_tx dp e req idemKey corrID version owner =
     bind_tx (tx_step ''insert notification'' (pe_insert_lost e)
               (InsertNotification (pe_db_now e) (create_params e req idemKey corrID version owner)))
       (\<lambda>row.
         if \<not> scheduled_later (pe_now e) req then
           bind_tx (tx_step ''insert outbox'' (pe_second_lost e)
                     (InsertOutbox (pe_db_now e) (pe_outbox_id e) (pe_id e) (''notification.'' @ cr_channel req)
                       (create_payload dp (pe_id e) req corrID) (create_headers (pe_trace e) corrID idemKey)
                       (Priority_Int16 (cr_priority req))))
             (\<lambda>_. return_tx row)
         else
           bind_tx (tx_step ''insert scheduled'' (pe_second_lost e)
                     (InsertScheduled (pe_id e) (the (cr_scheduled_at req))))
             (\<lambda>_. return_tx row))"

definition persist ::
  "deps \<Rightarrow> persist_env \<Rightarrow> create_request \<Rightarrow> string \<Rightarrow> string \<Rightarrow> int option \<Rightarrow> uuid option \<Rightarrow> db \<Rightarrow>
   ((string \<times> db_error) + notification_response \<times> int) \<times> db" where
  "persist dp e req idemKey corrID version owner d =
     (case run_tx (pe_begin_lost e) (pe_commit e) (persist_tx dp e req idemKey corrID version owner) d of
        (Inl err, d') \<Rightarrow> (Inl err, d')
      | (Inr row, d') \<Rightarrow> (Inr (rowToResponse row, 201), d'))"

subsection \<open>The handler\<close>

text \<open>Resolving a template: the rendered request with the template's version, or the refusal.\<close>

definition resolve_template ::
  "deps \<Rightarrow> create_deps \<Rightarrow> string \<Rightarrow> call_env \<Rightarrow> authed_key option \<Rightarrow> create_request \<Rightarrow> db \<Rightarrow>
   'a reply + create_request \<times> int option" where
  "resolve_template dp cd cid e key req d =
     (case cr_template_id req of
        None \<Rightarrow> Inr (req, None)
      | Some tid \<Rightarrow>
          (case fst (run_stmt (cl_fault e) (GetTemplateByID tid) d) of
             Inl err \<Rightarrow> Inl (query_problem cid (cl_ctx e) ErrTemplateNotFound ''get template'' err)
           | Inr row \<Rightarrow>
               if \<not> template_visible dp key row then Inl (WriteErrorAsProblem cid (Some (sentinel ErrTemplateNotFound)))
               else if t_deprecated_at row \<noteq> None then
                 Inl (WriteValidationProblem cid [field_err ''template_id'' ''template is deprecated''])
               else
                 (let vars = to_map (cr_variables req); missing = CheckRequired (t_required_vars row) vars in
                  if missing \<noteq> [] then
                    Inl (WriteValidationProblem cid (map (\<lambda>m. field_err (''variables.'' @ m) ''missing required variable'') missing))
                  else
                    (case Render (cd_engine cd) (t_body row) vars of
                       Inl err \<Rightarrow> Inl (WriteValidationProblem cid [field_err ''variables'' err])
                     | Inr text \<Rightarrow>
                         if validateContent (cr_channel req) text \<noteq> [] then
                           Inl (WriteValidationProblem cid (validateContent (cr_channel req) text))
                         else Inr (req\<lparr>cr_content := text\<rparr>, Some (t_version row))))))"

text \<open>The JSON form of the request that is hashed; empty fields are left out.\<close>

definition request_json :: "deps \<Rightarrow> create_deps \<Rightarrow> create_request \<Rightarrow> json" where
  "request_json dp cd req =
     JObj ([(''channel'', JStr (cr_channel req)), (''recipient'', JStr (cr_recipient req))] @
           (if cr_content req = [] then [] else [(''content'', JStr (cr_content req))]) @
           (case cr_template_id req of None \<Rightarrow> [] | Some t \<Rightarrow> [(''template_id'', JStr (uuid_str dp t))]) @
           (if cr_variables req = [] then [] else [(''variables'', JObj (sorted_entries (cr_variables req)))]) @
           [(''priority'', JStr (cr_priority req))] @
           (case cr_scheduled_at req of None \<Rightarrow> [] | Some t \<Rightarrow> [(''scheduled_at'', JStr (cd_time_text cd t))]))"

datatype created = Fresh string | Replayed string

record create_env =
  cv_now :: time
  cv_template :: call_env
  cv_claim :: claim_env
  cv_persist :: persist_env
  cv_ctx :: "string option"
  cv_release :: fault
  cv_finalize :: fault
  cv_finalize_now :: time
  cv_cancelled :: bool
  cv_deferred_release :: fault

definition idem_owner :: "deps \<Rightarrow> authed_key option \<Rightarrow> string" where
  "idem_owner dp key = (case ownerFromCtx dp key of None \<Rightarrow> [] | Some u \<Rightarrow> uuid_str dp u)"

definition body_hash :: "deps \<Rightarrow> create_deps \<Rightarrow> create_request \<Rightarrow> string" where
  "body_hash dp cd req = CanonicalHash (cd_marshal cd) (cd_sha256_hex cd) (request_json dp cd req)"

text \<open>From the claimed slot (or without a key) to the reply.\<close>

definition create_claimed ::
  "deps \<Rightarrow> create_deps \<Rightarrow> string \<Rightarrow> create_env \<Rightarrow> authed_key option \<Rightarrow> string \<Rightarrow> create_request \<Rightarrow> int option \<Rightarrow>
   db \<Rightarrow> idem_record redis \<Rightarrow> created reply \<times> db \<times> idem_record redis" where
  "create_claimed dp cd cid e key idemKey req version d s =
     (case persist dp (cv_persist e) req idemKey cid version (ownerFromCtx dp key) d of
        (Inl err, d') \<Rightarrow>
          (tx_problem cid (cv_ctx e) err, d',
           if idemKey \<noteq> [] then Release (cv_release e) (idem_owner dp key) idemKey s else s)
      | (Inr (resp, status), d') \<Rightarrow>
          (let body = cd_response_text cd resp in
           (Done status (Fresh (body @ [CHR 0x0A])), d',
            if idemKey \<noteq> [] then
              Finalize (cv_finalize e) (cd_idem_ttl cd) (cv_finalize_now e) (idem_owner dp key) idemKey
                \<lparr>ir_body_hash = body_hash dp cd req, ir_status_code = status, ir_body = body, ir_in_flight = False\<rparr> s
            else s)))"

definition create_resolved ::
  "deps \<Rightarrow> create_deps \<Rightarrow> string \<Rightarrow> create_env \<Rightarrow> authed_key option \<Rightarrow> string \<Rightarrow> create_request \<Rightarrow> int option \<Rightarrow>
   db \<Rightarrow> idem_record redis \<Rightarrow> created reply \<times> db \<times> idem_record redis" where
  "create_resolved dp cd cid e key idemKey req version d s =
     (if idemKey = [] then create_claimed dp cd cid e key idemKey req version d s
      else
        (case BeginOrReplay (cv_claim e) (idem_owner dp key) idemKey (body_hash dp cd req) s of
           (IdemConflict, s1) \<Rightarrow> (WriteErrorAsProblem cid (Some (sentinel ErrIdempotencyConflict)), d, s1)
         | (IdemInFlight, s1) \<Rightarrow> (WriteErrorAsProblem cid (Some (sentinel ErrIdempotencyInFlight)), d, s1)
         | (IdemErr, s1) \<Rightarrow> (WriteErrorAsProblem cid (Some (wrap_db (cv_ctx e) ''idempotency'' ErrInfra)), d, s1)
         | (Replay rec, s1) \<Rightarrow> (Done (ir_status_code rec) (Replayed (ir_body rec)), d, s1)
         | (Begin, s1) \<Rightarrow>
             (case create_claimed dp cd cid e key idemKey req version d s1 of
                (reply, d', s2) \<Rightarrow>
                  (reply, d', if cv_cancelled e then Release (cv_deferred_release e) (idem_owner dp key) idemKey s2 else s2))))"

definition notifications_create ::
  "deps \<Rightarrow> create_deps \<Rightarrow> string \<Rightarrow> create_env \<Rightarrow> authed_key option \<Rightarrow> string \<Rightarrow> create_request decoded \<Rightarrow>
   db \<Rightarrow> idem_record redis \<Rightarrow> created reply \<times> db \<times> idem_record redis" where
  "notifications_create dp cd cid e key idemKey body d s =
     (case body of
        Inl err \<Rightarrow> (WriteValidationProblem cid [field_err ''body'' err], d, s)
      | Inr req0 \<Rightarrow>
          (let req = default_priority req0; fe = validateCreate cd (cv_now e) req in
           if fe \<noteq> [] then (WriteValidationProblem cid fe, d, s)
           else if cr_scheduled_at req \<noteq> None \<and> \<not> cd_scheduler_enabled cd then
             (WriteValidationProblem cid
                [field_err ''scheduled_at'' ''scheduler is disabled on this deployment; submit without scheduled_at''], d, s)
           else
             (case resolve_template dp cd cid (cv_template e) key req d of
                Inl r \<Rightarrow> (r, d, s)
              | Inr (req', version) \<Rightarrow> create_resolved dp cd cid e key idemKey req' version d s)))"

subsection \<open>What a creation adds\<close>

text \<open>
  A notification accepted into the database: a pending one together with an outbox row that carries
  it, or a scheduled one together with its sidecar row; and nothing else.
\<close>

definition accepted_into :: "deps \<Rightarrow> notification \<Rightarrow> db \<Rightarrow> db \<Rightarrow> bool" where
  "accepted_into dp row d d' \<longleftrightarrow>
     (n_status row = StatusPending \<and>
      (\<exists>o1. carries dp row o1 \<and> d' = d\<lparr>notifications := notifications d @ [row], outbox := outbox d @ [o1]\<rparr>)) \<or>
     (n_status row = StatusScheduled \<and>
      (\<exists>s1. s_id s1 = n_id row \<and> n_scheduled_at row = Some (s_due_at s1) \<and> s_claimed_at s1 = None \<and>
            d' = d\<lparr>notifications := notifications d @ [row],
                   scheduled_notifications := scheduled_notifications d @ [s1]\<rparr>))"

text \<open>The request a creation stores: validated and, when templated, rendered.\<close>

definition storable :: "create_request \<Rightarrow> bool" where
  "storable req \<longleftrightarrow> Priority_Valid (cr_priority req) \<and> cr_priority req \<noteq> []"

lemma InsertNotification_Inr:
  assumes "InsertNotification now p d = Inr (row, d')"
  shows "row = new_notification now p" "notif_check row" "d' = d\<lparr>notifications := notifications d @ [row]\<rparr>"
    "sel n_id (p_id p) (notifications d) = None" "idem_free (p_idempotency_key p) (notifications d)"
  using assms by (auto simp: InsertNotification_def Let_def split: if_splits)

lemma InsertOutbox_db:
  assumes "InsertOutbox now oid nid rk pl h pr d = Inr (o1, d')"
  shows "d' = d\<lparr>outbox := outbox d @ [o1]\<rparr>"
  using assms by (auto simp: InsertOutbox_def Let_def split: if_splits)

lemma InsertScheduled_Inr:
  assumes "InsertScheduled nid due d = Inr (s1, d')"
  shows "s_id s1 = nid" "s_due_at s1 = due" "s_claimed_at s1 = None"
    "d' = d\<lparr>scheduled_notifications := scheduled_notifications d @ [s1]\<rparr>"
  using assms by (auto simp: InsertScheduled_def Let_def split: if_splits)

lemma carries_payload:
  assumes "InsertOutbox now oid (n_id row) (RoutingKey (n_channel row))
      (envelope_json (uuid_str dp (n_id row)) (n_channel row) (n_recipient row) (n_content row) (PriorityFromInt (n_priority row))
         (n_correlation_id row)) h pr d = Inr (o1, d')"
  shows "carries dp row o1"
  using InsertOutbox_Inr[OF assms] by (simp add: carries_def unmarshal_envelope_json)

lemma persist_tx_Inr:
  assumes "persist_tx dp e req idemKey corrID version owner d = Inr (row, d')" "storable req"
  shows "row = new_notification (pe_db_now e) (create_params e req idemKey corrID version owner)" "accepted_into dp row d d'"
    "notif_check row" "sel n_id (n_id row) (notifications d) = None" "idem_free (n_idempotency_key row) (notifications d)"
proof -
  let ?p = "create_params e req idemKey corrID version owner"
  obtain d1 where i: "InsertNotification (pe_db_now e) ?p d = Inr (row, d1)"
    using assms(1) by (auto simp: persist_tx_def tx_Inr split: if_splits)
  note i' = InsertNotification_Inr[OF i]
  then show row: "row = new_notification (pe_db_now e) ?p" and "notif_check row" by simp_all
  show "sel n_id (n_id row) (notifications d) = None" "idem_free (n_idempotency_key row) (notifications d)"
    using i' by (simp_all add: new_notification_def)
  have prio: "PriorityFromInt (Priority_Int16 (cr_priority req)) = cr_priority req"
    using assms(2) Int16_PriorityFromInt by (simp add: storable_def)
  show "accepted_into dp row d d'"
  proof (cases "scheduled_later (pe_now e) req")
    case False
    then obtain o1 where o: "InsertOutbox (pe_db_now e) (pe_outbox_id e) (pe_id e) (''notification.'' @ cr_channel req)
        (create_payload dp (pe_id e) req corrID) (create_headers (pe_trace e) corrID idemKey) (Priority_Int16 (cr_priority req)) d1 = Inr (o1, d')"
      using assms(1) i by (auto simp: persist_tx_def tx_Inr)
    have "carries dp row o1"
      by (rule carries_payload, rule trans[OF _ o])
         (simp add: row new_notification_def create_params_def create_payload_def prio RoutingKey_def)
    then show ?thesis
      using InsertOutbox_db[OF o] i'(3) False
      by (auto simp: accepted_into_def row new_notification_def create_params_def)
  next
    case True
    then obtain s1 where s: "InsertScheduled (pe_id e) (the (cr_scheduled_at req)) d1 = Inr (s1, d')"
      using assms(1) i by (auto simp: persist_tx_def tx_Inr)
    show ?thesis
      using InsertScheduled_Inr[OF s] i'(3) True
      by (auto simp: accepted_into_def row new_notification_def create_params_def scheduled_later_def split: option.splits)
  qed
qed

lemma persist_tx_wf: "tx_keeps_wf (persist_tx dp e req idemKey corrID version owner)"
  unfolding persist_tx_def by (rule tx_keeps_wf_bind) (auto intro!: wf_intros)

lemma default_priority_simps [simp]:
  "cr_channel (default_priority req) = cr_channel req" "cr_recipient (default_priority req) = cr_recipient req"
  "cr_content (default_priority req) = cr_content req" "cr_template_id (default_priority req) = cr_template_id req"
  "cr_scheduled_at (default_priority req) = cr_scheduled_at req" "cr_variables (default_priority req) = cr_variables req"
  by (simp_all add: default_priority_def)

lemma validated_storable: "validateCreate cd now (default_priority req) = [] \<Longrightarrow> storable (default_priority req)"
  by (auto simp: validateCreate_def storable_def default_priority_def split: if_splits)

lemma resolve_template_request:
  assumes "resolve_template dp cd cid e key req d = Inr (req', version)"
  shows "cr_channel req' = cr_channel req" "cr_recipient req' = cr_recipient req" "cr_priority req' = cr_priority req"
    "cr_scheduled_at req' = cr_scheduled_at req" "cr_template_id req' = cr_template_id req" "storable req' = storable req"
  using assms by (auto simp: resolve_template_def Let_def storable_def split: option.splits sum.splits if_splits)

lemma resolve_template_refuses: "resolve_template dp cd cid e key req d = Inl r \<Longrightarrow> \<not> accepted r"
  by (auto simp: resolve_template_def Let_def split: option.splits sum.splits if_splits)

text \<open>What a reply promises about the database.\<close>

definition create_promise ::
  "deps \<Rightarrow> create_deps \<Rightarrow> create_env \<Rightarrow> (notification \<Rightarrow> bool) \<Rightarrow> db \<Rightarrow> created reply \<times> db \<times> idem_record redis \<Rightarrow> bool" where
  "create_promise dp cd e own d out =
     (case out of (reply, d', s') \<Rightarrow>
        (case reply of
           Done st (Fresh b) \<Rightarrow>
             st = 201 \<and> (\<exists>row. accepted_into dp row d d' \<and> own row \<and> b = cd_response_text cd (rowToResponse row) @ [CHR 0x0A])
         | Done st (Replayed b) \<Rightarrow> d' = d
         | Refused p retry \<Rightarrow>
             d' = d \<or> (pe_commit (cv_persist e) = FaultAfter \<and> (\<exists>row. accepted_into dp row d d' \<and> own row))))"

lemma create_promise_refused: "\<not> accepted r \<Longrightarrow> create_promise dp cd e own d (r, d, s)"
  by (cases r) (auto simp: create_promise_def)

lemma create_promise_unacknowledged:
  "\<not> accepted r \<Longrightarrow> pe_commit (cv_persist e) = FaultAfter \<Longrightarrow> accepted_into dp row d d' \<Longrightarrow> own row \<Longrightarrow>
   create_promise dp cd e own d (r, d', s)"
  by (cases r) (auto simp: create_promise_def)

lemma create_claimed_promise:
  assumes "storable req"
  shows "create_promise dp cd e
           (\<lambda>row. n_created_by row = ownerFromCtx dp key \<and> n_correlation_id row = cid \<and>
                  n_idempotency_key row = nullableString idemKey \<and> n_channel row = cr_channel req \<and>
                  n_recipient row = cr_recipient req \<and> n_content row = cr_content req)
           d (create_claimed dp cd cid e key idemKey req version d s)"
proof -
  let ?q = "persist_tx dp (cv_persist e) req idemKey cid version (ownerFromCtx dp key)"
  note ok = persist_tx_Inr[of dp "cv_persist e" req idemKey cid version "ownerFromCtx dp key" d, OF _ assms]
  have acc: "\<And>err. \<not> accepted (tx_problem cid (cv_ctx e) err)" by simp
  show ?thesis
  proof (cases "pe_begin_lost (cv_persist e)")
    case True
    then show ?thesis by (simp add: create_claimed_def persist_def run_tx_def create_promise_refused)
  next
    case False
    show ?thesis
    proof (cases "?q d")
      case (Inl a)
      then show ?thesis using False by (simp add: create_claimed_def persist_def run_tx_def create_promise_refused)
    next
      case (Inr b)
      obtain row d' where q: "?q d = Inr (row, d')" using Inr by (cases b) auto
      note row = ok[OF q]
      have own: "n_created_by row = ownerFromCtx dp key \<and> n_correlation_id row = cid \<and> n_idempotency_key row = nullableString idemKey \<and>
          n_channel row = cr_channel req \<and> n_recipient row = cr_recipient req \<and> n_content row = cr_content req"
        by (simp add: row(1) new_notification_def create_params_def)
      show ?thesis
      proof (cases "pe_commit (cv_persist e)")
        case NoFault
        then show ?thesis
          using False q own row(2) by (auto simp: create_claimed_def persist_def run_tx_def create_promise_def Let_def)
      next
        case FaultBefore
        then show ?thesis using False q by (simp add: create_claimed_def persist_def run_tx_def create_promise_refused)
      next
        case FaultAfter
        then show ?thesis
          using False q create_promise_unacknowledged[OF acc FaultAfter row(2)] own
          by (simp add: create_claimed_def persist_def run_tx_def)
      qed
    qed
  qed
qed

lemma create_promise_store: "create_promise dp cd e own d (r, d', s) \<longleftrightarrow> create_promise dp cd e own d (r, d', s')"
  by (simp add: create_promise_def)

lemma create_promise_mono:
  "create_promise dp cd e own d out \<Longrightarrow> (\<And>row. own row \<Longrightarrow> own' row) \<Longrightarrow> create_promise dp cd e own' d out"
  by (auto simp: create_promise_def split: prod.splits reply.splits created.splits)

lemma create_resolved_promise:
  assumes "storable req"
  shows "create_promise dp cd e
           (\<lambda>row. n_created_by row = ownerFromCtx dp key \<and> n_correlation_id row = cid \<and>
                  n_idempotency_key row = nullableString idemKey \<and> n_channel row = cr_channel req \<and>
                  n_recipient row = cr_recipient req \<and> n_content row = cr_content req)
           d (create_resolved dp cd cid e key idemKey req version d s)" (is "create_promise _ _ _ ?own _ _")
proof (cases "idemKey = []")
  case True
  then show ?thesis using create_claimed_promise[OF assms] by (simp add: create_resolved_def)
next
  case False
  obtain res s1 where b: "BeginOrReplay (cv_claim e) (idem_owner dp key) idemKey (body_hash dp cd req) s = (res, s1)"
    by (cases "BeginOrReplay (cv_claim e) (idem_owner dp key) idemKey (body_hash dp cd req) s") auto
  obtain r d' s2 where c: "create_claimed dp cd cid e key idemKey req version d s1 = (r, d', s2)"
    by (cases "create_claimed dp cd cid e key idemKey req version d s1") auto
  have "create_promise dp cd e ?own d (r, d', s2)"
    using create_claimed_promise[OF assms, of dp cd e key cid idemKey d version s1] c by simp
  then have "create_promise dp cd e ?own d (r, d', s')" for s' using create_promise_store by blast
  then show ?thesis
    using False b c
    by (cases res) (auto simp: create_resolved_def create_promise_refused create_promise_def[of _ _ _ _ _ "(Done _ (Replayed _), _)"])
qed

text \<open>The schema invariant.\<close>

lemma create_claimed_wf: "db_wf d \<Longrightarrow> db_wf (fst (snd (create_claimed dp cd cid e key k req version d s)))"
  using tx_keeps_wf_run[OF persist_tx_wf, of d "pe_begin_lost (cv_persist e)" "pe_commit (cv_persist e)" dp "cv_persist e" req k cid version "ownerFromCtx dp key"]
  by (auto simp: create_claimed_def persist_def Let_def split: prod.splits sum.splits)

lemma create_resolved_wf: "db_wf d \<Longrightarrow> db_wf (fst (snd (create_resolved dp cd cid e key k req version d s)))"
  using create_claimed_wf[of d dp cd cid e key k req version]
  by (auto simp: create_resolved_def split: prod.splits idem_result.splits) (metis fst_conv snd_conv)

lemma notifications_create_wf: "db_wf d \<Longrightarrow> db_wf (fst (snd (notifications_create dp cd cid e key k body d s)))"
  using create_resolved_wf[of d dp cd cid e key k]
  by (auto simp: notifications_create_def Let_def split: sum.splits prod.splits)

subsection \<open>What validation guarantees\<close>

lemma e164_length: "e164 r \<Longrightarrow> length r \<le> 16"
  by (auto simp: e164_def split: list.splits)

lemma e164_start: "e164 r \<Longrightarrow> \<not> utf8_cont (hd r)"
  by (auto simp: e164_def utf8_cont_def split: list.splits)

lemma pg_length_start: "s \<noteq> [] \<Longrightarrow> \<not> utf8_cont (hd s) \<Longrightarrow> 1 \<le> pg_length s"
  by (cases s) (auto simp: pg_length_def)

text \<open>Well-formed UTF-8 starts a code point with its first byte.\<close>

definition utf8_start :: "string \<Rightarrow> bool" where
  "utf8_start s \<longleftrightarrow> s = [] \<or> \<not> utf8_cont (hd s)"

lemma validateContent_length: "validateContent ch c = [] \<Longrightarrow> Channel_Valid ch \<Longrightarrow> c \<noteq> [] \<and> length c \<le> 262144"
  by (auto simp: validateContent_def Channel_Valid_def smsMaxChars_def emailMaxBytes_def pushMaxBytes_def split: if_splits)

lemma validated_check:
  assumes "validateCreate cd now req = []" "cr_template_id req = None" "storable req"
    and "utf8_start (cr_recipient req)" "utf8_start (cr_content req)" "pg_length (cr_recipient req) \<le> 320"
  shows "notif_check (new_notification t (create_params e req idemKey corrID None owner))"
proof -
  have ch: "Channel_Valid (cr_channel req)" and rc: "cr_recipient req \<noteq> []"
    and ct: "cr_content req \<noteq> []" "validateContent (cr_channel req) (cr_content req) = []"
    using assms(1,2) by (auto simp: validateCreate_def validateRecipient_def split: if_splits)
  have "length (cr_content req) \<le> 262144" using validateContent_length[OF ct(2) ch] by simp
  then have "pg_length (cr_content req) \<le> 262144" using pg_length_le[of "cr_content req"] by simp
  moreover have "priority_check (Priority_Int16 (cr_priority req))" by (simp add: priority_check_def Priority_Int16_def)
  ultimately show ?thesis
    using ch rc ct(1) assms(2,4-6) pg_length_start[of "cr_recipient req"] pg_length_start[of "cr_content req"]
    by (auto simp: notif_check_def new_notification_def create_params_def utf8_start_def int4_def i32_range_def)
qed

text \<open>
  For SMS the recipient's bound follows from validation; for push it does not: a device token of more
  than 320 characters is accepted by validation and refused by the column's CHECK.
\<close>

lemma sms_recipient_fits: "validateRecipient cd ChannelSMS r = [] \<Longrightarrow> pg_length r \<le> 320 \<and> utf8_start r"
  using e164_length[of r] pg_length_le[of r] e164_start[of r]
  by (auto simp: validateRecipient_def utf8_start_def split: if_splits)

lemma long_push_token_rejected:
  assumes "length r = 400" "pg_length r = 400"
  shows "validateRecipient cd ChannelPush r = [] \<and> \<not> notif_check (new_notification t (create_params e (req\<lparr>cr_recipient := r\<rparr>) k c v own))"
  using assms by (auto simp: validateRecipient_def notif_check_def new_notification_def create_params_def)

subsection \<open>Retries\<close>

lemma BeginOrReplay_replay:
  assumes "idemKey \<noteq> []" "ce_setnx e = NoFault" "\<not> ce_get_lost e"
    and "rget (ce_now e) (idem_key owner idemKey) s = Some r"
    and "rget (ce_get_now e) (idem_key owner idemKey) (ce_between e s) = Some r"
    and "ir_body_hash r = h" "\<not> ir_in_flight r"
  shows "BeginOrReplay e owner idemKey h s = (Replay r, ce_between e s)"
  using assms redis_store.put_new_taken[OF assms(4)] by (simp add: BeginOrReplay_def Let_def)

lemma validateCreate_later: "validateCreate cd now req = [] \<Longrightarrow> now \<le> now' \<Longrightarrow> validateCreate cd now' req = []"
  by (auto simp: validateCreate_def split: if_splits option.splits)

lemma resolve_raw: "cr_template_id req = None \<Longrightarrow> resolve_template dp cd cid e key req d = Inr (req, None)"
  by (simp add: resolve_template_def)

text \<open>The slot a successful creation leaves behind.\<close>

lemma create_fresh_slot:
  assumes "notifications_create dp cd cid e key k (Inr req) d s = (Done st (Fresh b), d', s')"
    and "k \<noteq> []" "cr_template_id req = None" "cv_finalize e = NoFault" "\<not> cv_cancelled e" "t < cv_finalize_now e + cd_idem_ttl cd"
  obtains body where "b = body @ [CHR 0x0A]"
    "rget t (idem_key (idem_owner dp key) k) s' =
       Some \<lparr>ir_body_hash = body_hash dp cd (default_priority req), ir_status_code = st, ir_body = body, ir_in_flight = False\<rparr>"
    "validateCreate cd (cv_now e) (default_priority req) = []"
    "cr_scheduled_at req \<noteq> None \<longrightarrow> cd_scheduler_enabled cd"
proof -
  let ?req = "default_priority req"
  have v: "validateCreate cd (cv_now e) ?req = []" "cr_scheduled_at req \<noteq> None \<longrightarrow> cd_scheduler_enabled cd"
    and r: "create_resolved dp cd cid e key k ?req None d s = (Done st (Fresh b), d', s')"
    using assms(1,3)
    by (auto simp: notifications_create_def Let_def resolve_raw WriteValidationProblem_def WriteProblemFull_def split: if_splits)
  have noprob: "\<And>err. \<not> (WriteErrorAsProblem cid err = (Done st (Fresh b) :: created reply))"
    using accepted_error[of cid] by (metis accepted.simps(1))
  obtain s1 where c: "create_claimed dp cd cid e key k ?req None d s1 = (Done st (Fresh b), d', s')"
    using r assms(2,5) noprob
    by (auto simp: create_resolved_def split: prod.splits idem_result.splits)
  have notx: "\<And>ctx err. \<not> (tx_problem cid ctx err = (Done st (Fresh b) :: created reply))"
    using noprob by (simp add: tx_problem_def)
  obtain resp where "b = cd_response_text cd resp @ [CHR 0x0A]"
    "s' = Finalize NoFault (cd_idem_ttl cd) (cv_finalize_now e) (idem_owner dp key) k
            \<lparr>ir_body_hash = body_hash dp cd ?req, ir_status_code = st, ir_body = cd_response_text cd resp, ir_in_flight = False\<rparr> s1"
    using c assms(2,4) notx by (auto simp: create_claimed_def Let_def split: prod.splits sum.splits)
  then show ?thesis
    using that[of "cd_response_text cd resp"] v assms(6) by (simp add: Finalize_def rexec_def redis_store.get_put)
qed

lemma create_stores:
  assumes "validateCreate cd (cv_now e) (default_priority req) = []" "cr_template_id req = None"
    and "cr_scheduled_at req = None \<or> cd_scheduler_enabled cd"
    and "utf8_start (cr_recipient req)" "utf8_start (cr_content req)" "pg_length (cr_recipient req) \<le> 320"
    and "\<not> pe_begin_lost (cv_persist e)" "\<not> pe_insert_lost (cv_persist e)" "\<not> pe_second_lost (cv_persist e)" "pe_commit (cv_persist e) = NoFault"
    and "sel n_id (pe_id (cv_persist e)) (notifications d) = None" "sel o_id (pe_outbox_id (cv_persist e)) (outbox d) = None"
    and "sel s_id (pe_id (cv_persist e)) (scheduled_notifications d) = None" "fk k_id (api_keys d) (ownerFromCtx dp key)"
    and "k = [] \<or> fst (BeginOrReplay (cv_claim e) (idem_owner dp key) k (body_hash dp cd (default_priority req)) s) = Begin"
    and "idem_free (nullableString k) (notifications d)"
  shows "\<exists>row d' s'. notifications_create dp cd cid e key k (Inr req) d s =
      (Done 201 (Fresh (cd_response_text cd (rowToResponse row) @ [CHR 0x0A])), d', s') \<and>
    accepted_into dp row d d' \<and> n_id row = pe_id (cv_persist e) \<and> n_recipient row = cr_recipient req \<and> n_content row = cr_content req \<and>
    n_status row = (if scheduled_later (pe_now (cv_persist e)) req then StatusScheduled else StatusPending)"
proof -
  let ?req = "default_priority req" and ?e = "cv_persist e"
  let ?row = "new_notification (pe_db_now ?e) (create_params ?e ?req k cid None (ownerFromCtx dp key))"
  let ?d1 = "d\<lparr>notifications := notifications d @ [?row]\<rparr>"
  have st: "storable ?req" using assms(1) by (rule validated_storable)
  have later: "scheduled_later (pe_now ?e) ?req = scheduled_later (pe_now ?e) req" by (simp add: scheduled_later_def)
  have check: "notif_check ?row" using assms(1,2,4-6) st by (intro validated_check[where cd = cd and now = "cv_now e"]) simp_all
  have row: "n_id ?row = pe_id ?e" "n_recipient ?row = cr_recipient req" "n_content ?row = cr_content req"
    "n_status ?row = (if scheduled_later (pe_now ?e) req then StatusScheduled else StatusPending)"
    by (simp_all add: new_notification_def create_params_def later)
  have ins: "InsertNotification (pe_db_now ?e) (create_params ?e ?req k cid None (ownerFromCtx dp key)) d = Inr (?row, ?d1)"
    using check assms(2,11,14,16)
    by (simp add: InsertNotification_def Let_def create_params_def fk_def[of b_id] fk_def[of t_id])
  have there: "sel n_id (pe_id ?e) (notifications ?d1) = Some ?row" using assms(11) row(1) by (simp add: sel_append)
  have "\<exists>d'. persist_tx dp ?e ?req k cid None (ownerFromCtx dp key) d = Inr (?row, d')"
  proof (cases "scheduled_later (pe_now ?e) req")
    case True
    then show ?thesis
      using ins assms(8,9,13) there
      by (auto simp: persist_tx_def tx_Inr later InsertScheduled_def Let_def)
  next
    case False
    then show ?thesis
      using ins assms(8,9,12) there
      by (auto simp: persist_tx_def tx_Inr later InsertOutbox_def Let_def outbox_check_def priority_check_def Priority_Int16_def
          int4_def i32_range_def)
  qed
  then obtain d' where q: "persist_tx dp ?e ?req k cid None (ownerFromCtx dp key) d = Inr (?row, d')" by blast
  have cl: "\<exists>s'. create_claimed dp cd cid e key k ?req None d s1 =
      (Done 201 (Fresh (cd_response_text cd (rowToResponse ?row) @ [CHR 0x0A])), d', s')" for s1
    using assms(7,10) q by (auto simp: create_claimed_def persist_def run_tx_def Let_def)
  have "\<exists>s'. create_resolved dp cd cid e key k ?req None d s =
      (Done 201 (Fresh (cd_response_text cd (rowToResponse ?row) @ [CHR 0x0A])), d', s')"
  proof (cases "k = []")
    case False
    then obtain s1 where b: "BeginOrReplay (cv_claim e) (idem_owner dp key) k (body_hash dp cd ?req) s = (Begin, s1)"
      using assms(15) by (metis prod.collapse)
    show ?thesis using False b cl[of s1] by (auto simp: create_resolved_def)
  qed (use cl[of s] in \<open>simp add: create_resolved_def\<close>)
  then obtain s' where "notifications_create dp cd cid e key k (Inr req) d s =
      (Done 201 (Fresh (cd_response_text cd (rowToResponse ?row) @ [CHR 0x0A])), d', s')"
    using assms(1,2,3) by (auto simp: notifications_create_def Let_def resolve_raw)
  then show ?thesis using persist_tx_Inr(2)[OF q st] row by blast
qed

subsection \<open>Properties\<close>

text \<open>
  C8: Creation is all or nothing, and the reply tells which. Whatever the body, the key and the
  faults: a fresh 201 has stored exactly one notification, owned by the caller, together with an
  outbox row from which a worker reads that notification, or with its sidecar row when it is
  scheduled, and its body describes that notification; a replayed reply has stored nothing; a refusal
  has stored nothing, unless the commit took effect and its acknowledgement was lost.
\<close>

theorem create_all_or_nothing:
  "create_promise dp cd e
     (\<lambda>row. n_created_by row = ownerFromCtx dp key \<and> n_correlation_id row = cid \<and> n_idempotency_key row = nullableString idemKey)
     d (notifications_create dp cd cid e key idemKey body d s)"
proof (cases body)
  case (Inr req0)
  let ?req = "default_priority req0"
  show ?thesis
  proof (cases "validateCreate cd (cv_now e) ?req = [] \<and> (cr_scheduled_at ?req = None \<or> cd_scheduler_enabled cd)")
    case True
    show ?thesis
    proof (cases "resolve_template dp cd cid (cv_template e) key ?req d :: created reply + create_request \<times> int option")
      case (Inl r)
      then show ?thesis
        using Inr True resolve_template_refuses[OF Inl]
        by (auto simp: notifications_create_def Let_def create_promise_refused)
    next
      case Inr': (Inr x)
      obtain req version where x: "x = (req, version)" by (cases x)
      have "storable req"
        using resolve_template_request(6)[OF Inr'[unfolded x]] validated_storable True by blast
      then show ?thesis
        using Inr Inr' x True create_promise_mono[OF create_resolved_promise]
        by (auto simp: notifications_create_def Let_def)
    qed
  qed (use Inr in \<open>auto simp: notifications_create_def Let_def create_promise_refused\<close>)
qed (simp add: notifications_create_def create_promise_refused)



definition ex_cd :: create_deps where
  "ex_cd = \<lparr>cd_mail_ok = (\<lambda>_. True), cd_time_text = (\<lambda>_. []), cd_marshal = (\<lambda>_. []), cd_sha256_hex = id,
            cd_response_text = (\<lambda>r. status_string (nr_status r)), cd_engine = ex_engine, cd_scheduler_enabled = True,
            cd_idem_ttl = DefaultTTL\<rparr>"

definition ex_create :: "time \<Rightarrow> create_env" where
  "ex_create t =
     \<lparr>cv_now = t, cv_template = ex_call NoFault, cv_claim = ex_claim t,
      cv_persist = \<lparr>pe_now = t, pe_db_now = t, pe_id = 1, pe_outbox_id = 1, pe_trace = [], pe_begin_lost = False,
                    pe_insert_lost = False, pe_second_lost = False, pe_commit = NoFault\<rparr>,
      cv_ctx = None, cv_release = NoFault, cv_finalize = NoFault, cv_finalize_now = t, cv_cancelled = False,
      cv_deferred_release = NoFault\<rparr>"

definition ex_request :: create_request where
  "ex_request = \<lparr>cr_channel = ''sms'', cr_recipient = ''+15550100'', cr_content = ''hi'', cr_template_id = None, cr_variables = [],
                cr_priority = [], cr_scheduled_at = None\<rparr>"

lemma ex_request_valid: "validateCreate ex_cd t (default_priority ex_request) = []"
  by (simp add: validateCreate_def default_priority_def ex_request_def Channel_Valid_def Priority_Valid_def
      validateRecipient_def validateContent_def e164_def is_digit_def smsMaxChars_def)

lemma ex_request_fits: "utf8_start (cr_recipient ex_request)" "utf8_start (cr_content ex_request)" "pg_length (cr_recipient ex_request) \<le> 320"
  using pg_length_le[of "cr_recipient ex_request"] by (simp_all add: ex_request_def utf8_start_def utf8_cont_def)

lemma ex_request_now: "\<not> scheduled_later t ex_request" "cr_template_id ex_request = None" "cr_scheduled_at ex_request = None"
  by (simp_all add: scheduled_later_def ex_request_def)

lemma ex_create_clean:
  "\<not> pe_begin_lost (cv_persist (ex_create t))" "\<not> pe_insert_lost (cv_persist (ex_create t))"
  "\<not> pe_second_lost (cv_persist (ex_create t))" "pe_commit (cv_persist (ex_create t)) = NoFault"
  by (simp_all add: ex_create_def)

lemma ex_db_fresh:
  "sel n_id u (notifications empty_db) = None" "sel o_id u (outbox empty_db) = None"
  "sel s_id u (scheduled_notifications empty_db) = None" "fk k_id (api_keys empty_db) (ownerFromCtx dp None)"
  "idem_free v (notifications empty_db)"
  by (simp_all add: empty_db_def ownerFromCtx_def fk_def idem_free_def split: option.splits)

lemma ex_begin: "fst (BeginOrReplay (cv_claim (ex_create t)) owner ''k'' h Map.empty) = Begin"
  by (simp add: ex_create_def ex_claim_def BeginOrReplay_def Let_def rsetnx_def rget_def)

lemmas ex_facts = ex_request_valid ex_request_fits ex_request_now ex_create_clean ex_db_fresh ex_begin

lemma ex_text: "n_status row = StatusPending \<Longrightarrow> cd_response_text ex_cd (rowToResponse row) = ''pending''"
  by (simp add: ex_cd_def rowToResponse_def)


lemma ex_created_with_key:
  "\<exists>d' s'. notifications_create ex_deps ex_cd ''c'' (ex_create 0) None ''k'' (Inr ex_request) empty_db Map.empty =
     (Done 201 (Fresh (''pending'' @ [CHR 0x0A])), d', s')"
  using create_stores[of ex_cd "ex_create 0" ex_request empty_db ex_deps None "''k''" Map.empty "''c''"] ex_facts ex_text by auto


end
