(* ===== verification/Batch.thy ===== *)
theory Batch
  imports Create
begin

text \<open>
  \<open>internal/api/notifications_batch.go\<close>: creating a batch, reading a notification or a batch, and
  cancelling. A batch is validated item by item and stored in one transaction; each call of it can be
  lost, and the commit can fail before or after it takes effect.
\<close>

subsection \<open>Creating a batch\<close>

definition MaxBatchItems :: nat where "MaxBatchItems = 1000"

record batch_item_result =
  br_index :: nat
  br_id :: "uuid option"
  br_status :: "status option"
  br_error :: "problem option"

record batch_response =
  bs_batch_id :: uuid
  bs_status :: string
  bs_total :: int
  bs_accepted :: int
  bs_rejected :: int
  bs_items :: "batch_item_result list"

record batch_env =
  be_now :: "nat \<Rightarrow> time"
  be_db_now :: time
  be_batch_id :: uuid
  be_item_id :: "nat \<Rightarrow> uuid"
  be_outbox_id :: "nat \<Rightarrow> uuid"
  be_begin_lost :: bool
  be_batch_lost :: bool
  be_item_lost :: "nat \<Rightarrow> bool"
  be_outbox_lost :: "nat \<Rightarrow> bool"
  be_commit :: fault
  be_ctx :: "string option"

definition item_error :: "nat \<Rightarrow> field_error list \<Rightarrow> batch_item_result" where
  "item_error i fe =
     \<lparr>br_index = i, br_id = None, br_status = None,
      br_error = Some ((mk_problem ''/problems/validation'' ''Validation Failed'' 400 ''field validation failed'')
                         \<lparr>pr_extra := [(''errors'', JArr (map field_error_json fe))]\<rparr>)\<rparr>"

definition item_errors :: "create_deps \<Rightarrow> batch_env \<Rightarrow> create_request list \<Rightarrow> nat \<Rightarrow> field_error list" where
  "item_errors cd e items i = validateCreate cd (be_now e i) (default_priority (items ! i))"

definition valid_items :: "create_deps \<Rightarrow> batch_env \<Rightarrow> create_request list \<Rightarrow> nat list" where
  "valid_items cd e items = filter (\<lambda>i. item_errors cd e items i = []) [0..<length items]"

definition item_params :: "batch_env \<Rightarrow> nat \<Rightarrow> create_request \<Rightarrow> string \<Rightarrow> uuid option \<Rightarrow> insert_notification_params" where
  "item_params e i it corrID owner =
     \<lparr>p_id = be_item_id e i, p_batch_id = Some (be_batch_id e), p_channel = cr_channel it, p_recipient = cr_recipient it,
      p_content = cr_content it, p_priority = Priority_Int16 (cr_priority it), p_status = StatusPending,
      p_idempotency_key = None, p_scheduled_at = None, p_correlation_id = corrID, p_template_id = None,
      p_template_version = None, p_created_by = owner\<rparr>"

definition insertBatchItem :: "deps \<Rightarrow> batch_env \<Rightarrow> nat \<Rightarrow> create_request \<Rightarrow> string \<Rightarrow> uuid option \<Rightarrow> notification tx" where
  "insertBatchItem dp e i it corrID owner =
     (let msg = ''insert batch item '' @ show_nat i in
      bind_tx (tx_step msg (be_item_lost e i) (InsertNotification (be_db_now e) (item_params e i it corrID owner)))
        (\<lambda>row.
          bind_tx (tx_step msg (be_outbox_lost e i)
                    (InsertOutbox (be_db_now e) (be_outbox_id e i) (be_item_id e i) (''notification.'' @ cr_channel it)
                      (create_payload dp (be_item_id e i) it corrID) (JObj [(''x-correlation-id'', JStr corrID)])
                      (Priority_Int16 (cr_priority it))))
            (\<lambda>_. return_tx row)))"

fun insert_items ::
  "deps \<Rightarrow> batch_env \<Rightarrow> create_request list \<Rightarrow> string \<Rightarrow> uuid option \<Rightarrow> nat list \<Rightarrow> notification list tx" where
  "insert_items dp e items corrID owner [] = return_tx []"
| "insert_items dp e items corrID owner (i # is) =
     bind_tx (insertBatchItem dp e i (default_priority (items ! i)) corrID owner)
       (\<lambda>row. bind_tx (insert_items dp e items corrID owner is) (\<lambda>rows. return_tx (row # rows)))"

definition batch_status :: "nat \<Rightarrow> nat \<Rightarrow> string" where
  "batch_status valid all = (if valid < all then ''partial'' else ''accepted'')"

definition batch_tx ::
  "deps \<Rightarrow> create_deps \<Rightarrow> batch_env \<Rightarrow> create_request list \<Rightarrow> string \<Rightarrow> string \<Rightarrow> uuid option \<Rightarrow> notification list tx" where
  "batch_tx dp cd e items corrID idemKey owner =
     (let valid = valid_items cd e items; n = length items; v = length valid in
      bind_tx (tx_step ''insert batch'' (be_batch_lost e)
                (InsertBatch (be_db_now e) (be_batch_id e) (i32 (int n)) (i32 (int v)) (i32 (int n - int v))
                  (nullableString idemKey) (batch_status v n)))
        (\<lambda>_. insert_items dp e items corrID owner valid))"

definition batch_results :: "create_deps \<Rightarrow> batch_env \<Rightarrow> create_request list \<Rightarrow> notification list \<Rightarrow> batch_item_result list" where
  "batch_results cd e items rows =
     map (\<lambda>i. case map_of (zip (valid_items cd e items) rows) i of
                None \<Rightarrow> item_error i (item_errors cd e items i)
              | Some row \<Rightarrow> \<lparr>br_index = i, br_id = Some (n_id row), br_status = Some (n_status row), br_error = None\<rparr>)
         [0..<length items]"

definition createBatch ::
  "deps \<Rightarrow> create_deps \<Rightarrow> string \<Rightarrow> batch_env \<Rightarrow> authed_key option \<Rightarrow> string \<Rightarrow> create_request list decoded \<Rightarrow> db \<Rightarrow>
   batch_response reply \<times> db" where
  "createBatch dp cd cid e key idemKey body d =
     (case body of
        Inl err \<Rightarrow> (WriteValidationProblem cid [field_err ''body'' err], d)
      | Inr items \<Rightarrow>
          (let n = length items; v = length (valid_items cd e items);
               resp = (\<lambda>st rows. \<lparr>bs_batch_id = be_batch_id e, bs_status = st, bs_total = int n, bs_accepted = int v,
                                  bs_rejected = int n - int v, bs_items = batch_results cd e items rows\<rparr>) in
           if n = 0 then (WriteValidationProblem cid [field_err ''items'' ''must not be empty''], d)
           else if n > MaxBatchItems then
             (WriteValidationProblem cid [field_err ''items'' (''max '' @ show_nat MaxBatchItems @ '' items per batch'')], d)
           else if v = 0 then (Done 400 (resp ''rejected'' []), d)
           else
             (case run_tx (be_begin_lost e) (be_commit e) (batch_tx dp cd e items cid idemKey (ownerFromCtx dp key)) d of
                (Inl err, d') \<Rightarrow> (tx_problem cid (be_ctx e) err, d')
              | (Inr rows, d') \<Rightarrow>
                  (Done (if batch_status v n = ''partial'' then 207 else 201) (resp (batch_status v n) rows), d'))))"

subsection \<open>Reading\<close>

definition notifications_get ::
  "deps \<Rightarrow> string \<Rightarrow> call_env \<Rightarrow> authed_key option \<Rightarrow> string \<Rightarrow> db \<Rightarrow> notification_response reply" where
  "notifications_get dp cid e key idp d =
     (case uuid_parse dp idp of
        None \<Rightarrow> WriteValidationProblem cid [field_err ''id'' ''must be a UUID'']
      | Some nid \<Rightarrow>
          (let answer = (\<lambda>q. case fst (run_stmt (cl_fault e) q d) of
                 Inl err \<Rightarrow> query_problem cid (cl_ctx e) ErrNotFound ''get notification'' err
               | Inr row \<Rightarrow> Done 200 (rowToResponse row)) in
           if is_admin key then answer (GetNotificationByID nid)
           else
             (case ownerFromCtx dp key of
                None \<Rightarrow> WriteErrorAsProblem cid (Some (sentinel ErrNotFound))
              | Some owner \<Rightarrow> answer (GetNotificationByIDScoped nid owner))))"

record batch_detail =
  bd_id :: uuid
  bd_status :: string
  bd_total :: int
  bd_accepted :: int
  bd_rejected :: int
  bd_items :: "notification_response list"

definition getByBatch ::
  "deps \<Rightarrow> string \<Rightarrow> call_env \<Rightarrow> call_env \<Rightarrow> authed_key option \<Rightarrow> string \<Rightarrow> db \<Rightarrow> batch_detail reply" where
  "getByBatch dp cid e e' key idp d =
     (case uuid_parse dp idp of
        None \<Rightarrow> WriteValidationProblem cid [field_err ''batchId'' ''must be a UUID'']
      | Some bid \<Rightarrow>
          (case fst (run_stmt (cl_fault e) (GetBatchByID bid) d) of
             Inl err \<Rightarrow> query_problem cid (cl_ctx e) ErrNotFound ''get batch'' err
           | Inr b \<Rightarrow>
               (let answer = (\<lambda>q. case fst (run_stmt (cl_fault e') q d) of
                      Inl err \<Rightarrow> WriteErrorAsProblem cid (Some (wrap_db (cl_ctx e') ''list batch items'' err))
                    | Inr items \<Rightarrow>
                        Done 200 \<lparr>bd_id = b_id b, bd_status = b_status b, bd_total = b_total_count b,
                                  bd_accepted = b_accepted_count b, bd_rejected = b_rejected_count b,
                                  bd_items = map rowToResponse items\<rparr>) in
                if is_admin key then answer (GetNotificationsByBatchID bid)
                else
                  (case ownerFromCtx dp key of
                     None \<Rightarrow> WriteErrorAsProblem cid (Some (sentinel ErrNotFound))
                   | Some owner \<Rightarrow> answer (GetNotificationsByBatchIDScoped bid owner)))))"

subsection \<open>Cancelling\<close>

definition cancel ::
  "deps \<Rightarrow> string \<Rightarrow> call_env \<Rightarrow> fault \<Rightarrow> authed_key option \<Rightarrow> string \<Rightarrow> db \<Rightarrow> notification_response reply \<times> db" where
  "cancel dp cid e recheck key idp d =
     (case uuid_parse dp idp of
        None \<Rightarrow> (WriteValidationProblem cid [field_err ''id'' ''must be a UUID''], d)
      | Some nid \<Rightarrow>
          (let answer = (\<lambda>q. case run_stmt (cl_fault e) q d of
                 (Inr row, d') \<Rightarrow> (Done 200 (rowToResponse row), d')
               | (Inl err, d') \<Rightarrow>
                   if err = ErrNoRows then
                     (if fst (run_stmt recheck (GetNotificationByID nid) d') = Inl ErrNoRows then
                        WriteErrorAsProblem cid (Some (sentinel ErrNotFound))
                      else if \<not> is_admin key then WriteErrorAsProblem cid (Some (sentinel ErrNotFound))
                      else WriteErrorAsProblem cid
                             (Some (Sentinel ErrInvalidState (sentinel_text ErrInvalidState @ '': cannot cancel from current state''))),
                      d')
                   else (WriteErrorAsProblem cid (Some (wrap_db (cl_ctx e) ''cancel'' err)), d')) in
           if is_admin key then answer (CancelPendingOrQueued (cl_now e) nid)
           else
             (case ownerFromCtx dp key of
                None \<Rightarrow> (WriteErrorAsProblem cid (Some (sentinel ErrNotFound)), d)
              | Some owner \<Rightarrow> answer (CancelPendingOrQueuedScoped (cl_now e) nid owner))))"

subsection \<open>What a batch adds\<close>

definition batch_into :: "deps \<Rightarrow> batch \<Rightarrow> notification list \<Rightarrow> db \<Rightarrow> db \<Rightarrow> bool" where
  "batch_into dp b rows d d' \<longleftrightarrow>
     (\<exists>os. list_all2 (carries dp) rows os \<and>
           d' = d\<lparr>batches := batches d @ [b], notifications := notifications d @ rows, outbox := outbox d @ os\<rparr>) \<and>
     list_all (\<lambda>r. n_status r = StatusPending \<and> n_batch_id r = Some (b_id b)) rows \<and>
     b_accepted_count b = int (length rows) \<and> b_accepted_count b + b_rejected_count b = b_total_count b"

lemma insertBatchItem_Inr:
  assumes "insertBatchItem dp e i it corrID owner d = Inr (row, d')" "storable it"
  shows "row = new_notification (be_db_now e) (item_params e i it corrID owner)"
    "\<exists>o1. carries dp row o1 \<and> d' = d\<lparr>notifications := notifications d @ [row], outbox := outbox d @ [o1]\<rparr>"
proof -
  obtain d1 o1 where i: "InsertNotification (be_db_now e) (item_params e i it corrID owner) d = Inr (row, d1)"
    and o: "InsertOutbox (be_db_now e) (be_outbox_id e i) (be_item_id e i) (''notification.'' @ cr_channel it)
        (create_payload dp (be_item_id e i) it corrID) (JObj [(''x-correlation-id'', JStr corrID)]) (Priority_Int16 (cr_priority it)) d1 = Inr (o1, d')"
    using assms(1) by (auto simp: insertBatchItem_def Let_def tx_Inr)
  note i' = InsertNotification_Inr[OF i]
  then show row: "row = new_notification (be_db_now e) (item_params e i it corrID owner)" by simp
  have prio: "PriorityFromInt (Priority_Int16 (cr_priority it)) = cr_priority it"
    using assms(2) Int16_PriorityFromInt by (simp add: storable_def)
  have "carries dp row o1"
    by (rule carries_payload, rule trans[OF _ o])
       (simp add: row new_notification_def item_params_def create_payload_def RoutingKey_def prio)
  then show "\<exists>o1. carries dp row o1 \<and> d' = d\<lparr>notifications := notifications d @ [row], outbox := outbox d @ [o1]\<rparr>"
    using InsertOutbox_db[OF o] i'(3) by auto
qed

definition item_row :: "batch_env \<Rightarrow> create_request list \<Rightarrow> string \<Rightarrow> uuid option \<Rightarrow> nat \<Rightarrow> notification" where
  "item_row e items corrID owner i =
     new_notification (be_db_now e) (item_params e i (default_priority (items ! i)) corrID owner)"

lemma insert_items_Inr:
  assumes "insert_items dp e items corrID owner is d = Inr (rows, d')"
    and "\<And>i. i \<in> set is \<Longrightarrow> storable (default_priority (items ! i))"
  shows "rows = map (item_row e items corrID owner) is \<and>
    (\<exists>os. list_all2 (carries dp) rows os \<and> d' = d\<lparr>notifications := notifications d @ rows, outbox := outbox d @ os\<rparr>)"
  using assms
proof (induction "is" arbitrary: d rows)
  case (Cons i "is")
  then obtain row d1 rows' where one: "insertBatchItem dp e i (default_priority (items ! i)) corrID owner d = Inr (row, d1)"
    and rest: "insert_items dp e items corrID owner is d1 = Inr (rows', d')" and rows: "rows = row # rows'"
    by (auto simp: tx_Inr)
  obtain o1 where "carries dp row o1" "d1 = d\<lparr>notifications := notifications d @ [row], outbox := outbox d @ [o1]\<rparr>"
    using insertBatchItem_Inr(2)[OF one] Cons.prems(2) by auto
  moreover obtain os where "list_all2 (carries dp) rows' os" "rows' = map (item_row e items corrID owner) is"
    "d' = d1\<lparr>notifications := notifications d1 @ rows', outbox := outbox d1 @ os\<rparr>"
    using Cons.IH[OF rest] Cons.prems(2) by auto
  moreover have "row = item_row e items corrID owner i"
    using insertBatchItem_Inr(1)[OF one] Cons.prems(2) by (simp add: item_row_def)
  ultimately show ?case by (auto simp: rows intro!: exI[of _ "o1 # os"])
qed (simp add: return_tx_Inr)

lemma valid_items_storable: "i \<in> set (valid_items cd e items) \<Longrightarrow> storable (default_priority (items ! i))"
  by (auto simp: valid_items_def item_errors_def dest: validated_storable)

lemma valid_items_le: "length (valid_items cd e items) \<le> length items"
  using length_filter_le[of "\<lambda>i. item_errors cd e items i = []" "[0..<length items]"] by (simp add: valid_items_def)

lemma batch_tx_Inr:
  assumes "batch_tx dp cd e items corrID idemKey owner d = Inr (rows, d')" "length items \<le> MaxBatchItems"
  shows "rows = map (item_row e items corrID owner) (valid_items cd e items)"
    "\<exists>b. b_id b = be_batch_id e \<and> b_total_count b = int (length items) \<and> batch_into dp b rows d d'"
proof -
  let ?v = "valid_items cd e items"
  obtain b d1 where b: "InsertBatch (be_db_now e) (be_batch_id e) (i32 (int (length items))) (i32 (int (length ?v)))
      (i32 (int (length items) - int (length ?v))) (nullableString idemKey) (batch_status (length ?v) (length items)) d = Inr (b, d1)"
    and i: "insert_items dp e items corrID owner ?v d1 = Inr (rows, d')"
    using assms(1) by (auto simp: batch_tx_def Let_def tx_Inr)
  note i' = insert_items_Inr[OF i valid_items_storable[of _ cd e items]]
  then show rows: "rows = map (item_row e items corrID owner) ?v" by simp
  have r: "i32 (int (length items)) = int (length items)" "i32 (int (length ?v)) = int (length ?v)"
    "i32 (int (length items) - int (length ?v)) = int (length items) - int (length ?v)"
    using assms(2) valid_items_le[of cd e items] by (auto intro!: i32_id simp: i32_range_def MaxBatchItems_def)
  have bb: "b_id b = be_batch_id e" "b_total_count b = int (length items)" "b_accepted_count b = int (length ?v)"
    "b_rejected_count b = int (length items) - int (length ?v)" "d1 = d\<lparr>batches := batches d @ [b]\<rparr>"
    using b by (auto simp: InsertBatch_def Let_def r split: if_splits)
  moreover have "list_all (\<lambda>r. n_status r = StatusPending \<and> n_batch_id r = Some (b_id b)) rows"
    by (simp add: rows list_all_iff item_row_def new_notification_def item_params_def bb(1))
  ultimately show "\<exists>b. b_id b = be_batch_id e \<and> b_total_count b = int (length items) \<and> batch_into dp b rows d d'"
    using i' by (auto simp: batch_into_def intro!: exI[of _ b])
qed

lemma filter_map_known:
  assumes "\<And>i. i \<in> set xs \<Longrightarrow> Q (f i) \<longleftrightarrow> P i"
  shows "filter Q (map f xs) = map f (filter P xs)"
  using assms by (induction xs) auto

lemma batch_results_accepted:
  assumes "length rows = length (valid_items cd e items)"
  shows "map br_id (filter (\<lambda>r. br_error r = None) (batch_results cd e items rows)) = map (\<lambda>r. Some (n_id r)) rows"
proof -
  let ?v = "valid_items cd e items"
  have dist: "distinct ?v" by (simp add: valid_items_def)
  have known: "i \<in> set ?v \<longleftrightarrow> (\<exists>row. map_of (zip ?v rows) i = Some row)" for i
    using assms map_of_zip_is_Some by metis
  have at: "map_of (zip ?v rows) (?v ! j) = Some (rows ! j)" if "j < length ?v" for j
    using map_of_zip_nth[OF assms[symmetric] dist] that assms by simp
  let ?f = "\<lambda>i. case map_of (zip ?v rows) i of
                 None \<Rightarrow> item_error i (item_errors cd e items i)
               | Some row \<Rightarrow> \<lparr>br_index = i, br_id = Some (n_id row), br_status = Some (n_status row), br_error = None\<rparr>"
  have "br_error (?f i) = None \<longleftrightarrow> item_errors cd e items i = []" if "i \<in> set [0..<length items]" for i
  proof -
    have "item_errors cd e items i = [] \<longleftrightarrow> i \<in> set ?v" using that by (auto simp: valid_items_def)
    then show ?thesis using known[of i] by (auto simp: item_error_def split: option.splits)
  qed
  then have "filter (\<lambda>r. br_error r = None) (batch_results cd e items rows) = map ?f (filter (\<lambda>i. item_errors cd e items i = []) [0..<length items])"
    unfolding batch_results_def by (intro filter_map_known) blast
  also have "\<dots> = map ?f ?v" by (simp only: valid_items_def)
  finally show ?thesis using assms at by (auto simp: list_eq_iff_nth_eq)
qed

lemma batch_tx_wf: "tx_keeps_wf (batch_tx dp cd e items corrID idemKey owner)"
proof -
  have item: "tx_keeps_wf (insertBatchItem dp e i it corrID owner)" for i it
    unfolding insertBatchItem_def Let_def by (intro wf_intros)
  have "tx_keeps_wf (insert_items dp e items corrID owner is)" for "is"
    by (induction "is") (auto intro!: wf_intros item)
  then show ?thesis unfolding batch_tx_def Let_def by (intro wf_intros)
qed

lemma createBatch_wf: "db_wf d \<Longrightarrow> db_wf (snd (createBatch dp cd cid e key k body d))"
  using tx_keeps_wf_run[OF batch_tx_wf, of d "be_begin_lost e" "be_commit e" dp cd e _ cid k "ownerFromCtx dp key"]
  by (auto simp: createBatch_def Let_def split: sum.splits prod.splits) (metis snd_conv)+

text \<open>
  Two items that validation lets through and the transaction mishandles: a templated item has no
  content, so its insertion fails and with it the whole batch; a scheduled item is stored as pending,
  to be sent at once.
\<close>

lemma batch_template_item_fails:
  assumes "cr_content it = []"
  shows "\<exists>err. insertBatchItem dp e i it corrID owner d = Inl err"
proof -
  have "\<not> notif_check (new_notification (be_db_now e) (item_params e i it corrID owner))"
    using assms by (simp add: notif_check_def new_notification_def item_params_def pg_length_def)
  then show ?thesis
    by (auto simp: insertBatchItem_def Let_def bind_tx_def tx_step_def guard_stmt_def InsertNotification_def)
qed

lemma batch_scheduled_item_pending:
  "insertBatchItem dp e i it corrID owner d = Inr (row, d') \<Longrightarrow> storable it \<Longrightarrow>
   n_status row = StatusPending \<and> n_scheduled_at row = None"
  using insertBatchItem_Inr(1) by (fastforce simp: new_notification_def item_params_def)

subsection \<open>What cancelling does\<close>

definition cancelled :: "time \<Rightarrow> notification \<Rightarrow> notification" where
  "cancelled now r = r\<lparr>n_status := StatusCancelled, n_updated_at := now\<rparr>"

lemma cancelled_check: "notif_check r \<Longrightarrow> cancellable r \<Longrightarrow> notif_check (cancelled now r)"
  by (auto simp: notif_check_def cancellable_def cancelled_def)

lemma update_none:
  assumes "db_wf d" "\<And>r. row_of nid d = Some r \<Longrightarrow> \<not> g r"
  shows "update_notification g f nid d = Inl ErrNoRows"
proof -
  have "\<not> g r" if "r \<in> set (notifications d)" "n_id r = nid" for r
    using assms sel_distinct[of n_id "notifications d" r] that by (auto simp: db_wf_def row_of_def)
  then show ?thesis by (auto simp: update_notification_NoRows)
qed

lemma cancel_statement:
  assumes "db_wf d" "\<And>r. g r \<Longrightarrow> cancellable r"
  shows "if \<exists>r. row_of nid d = Some r \<and> g r
    then \<exists>r d'. row_of nid d = Some r \<and> g r \<and> update_notification g (cancelled now) nid d = Inr (cancelled now r, d') \<and>
           row_set d nid (cancelled now r) d'
    else update_notification g (cancelled now) nid d = Inl ErrNoRows"
proof (cases "\<exists>r. row_of nid d = Some r \<and> g r")
  case True
  then obtain r where r: "row_of nid d = Some r" "g r" by blast
  then have "notif_check (cancelled now r)" using assms row_of_check[OF assms(1) r(1)] cancelled_check by blast
  then have "\<exists>d'. update_notification g (cancelled now) nid d = Inr (cancelled now r, d') \<and> row_set d nid (cancelled now r) d'"
    using r by (intro update_row_set[OF assms(1)]) (simp_all add: cancelled_def)
  then show ?thesis using r by auto
qed (use update_none[OF assms(1)] in auto)

lemma Cancel_cancelled:
  "CancelPendingOrQueued now nid = update_notification cancellable (cancelled now) nid"
  "CancelPendingOrQueuedScoped now nid owner =
     update_notification (\<lambda>r. n_created_by r = Some owner \<and> cancellable r) (cancelled now) nid"
  by (simp_all add: CancelPendingOrQueued_def CancelPendingOrQueuedScoped_def cancelled_def[abs_def])

definition without_notification :: "uuid \<Rightarrow> db \<Rightarrow> db" where
  "without_notification nid d = d\<lparr>notifications := filter (\<lambda>r. n_id r \<noteq> nid) (notifications d)\<rparr>"

definition notification_foreign :: "deps \<Rightarrow> authed_key option \<Rightarrow> uuid \<Rightarrow> db \<Rightarrow> bool" where
  "notification_foreign dp key nid d \<longleftrightarrow>
     list_all (\<lambda>r. n_id r = nid \<longrightarrow> \<not> may_access dp key (n_created_by r)) (notifications d)"

lemma foreign_statements:
  assumes "notification_foreign dp key nid d" "\<not> is_admin key" "ownerFromCtx dp key = Some u"
  shows "GetNotificationByIDScoped nid u d = Inl ErrNoRows" "CancelPendingOrQueuedScoped now nid u d = Inl ErrNoRows"
  using assms
  by (auto simp: GetNotificationByIDScoped_def Cancel_cancelled update_notification_NoRows notification_foreign_def list_all_iff
      may_access_def split: option.splits dest: sel_in_set sel_key)

lemma sel_filter_out: "sel key k (filter (\<lambda>r. key r \<noteq> k) rs) = None"
  by (auto simp: sel_None_iff)

lemma without_statements:
  "GetNotificationByIDScoped nid u (without_notification nid d) = Inl ErrNoRows"
  "CancelPendingOrQueuedScoped now nid u (without_notification nid d) = Inl ErrNoRows"
  "GetNotificationByID nid (without_notification nid d) = Inl ErrNoRows"
  by (simp_all add: GetNotificationByIDScoped_def GetNotificationByID_def Cancel_cancelled update_notification_NoRows
      without_notification_def sel_filter_out)

subsection \<open>Properties\<close>

text \<open>
  C18: A batch is all or nothing. Whatever the items and the faults: a reply that reports accepted items
  has stored the batch with exactly these items, each with an outbox row from which a worker reads it,
  and lists their ids in order; accepted and rejected add up to the items sent. A batch without a valid
  item and a refused batch have stored nothing, unless the commit took effect and its acknowledgement
  was lost.
\<close>

theorem batch_all_or_nothing:
  "case createBatch dp cd cid e key k body d of (reply, d') \<Rightarrow>
     (case reply of
        Done st resp \<Rightarrow>
          bs_accepted resp + bs_rejected resp = bs_total resp \<and>
          (st = 400 \<and> bs_accepted resp = 0 \<and> d' = d \<or>
           st \<in> {201, 207} \<and>
           (\<exists>b rows. batch_into dp b rows d d' \<and> b_id b = bs_batch_id resp \<and> b_total_count b = bs_total resp \<and>
              bs_accepted resp = int (length rows) \<and>
              map br_id (filter (\<lambda>r. br_error r = None) (bs_items resp)) = map (\<lambda>r. Some (n_id r)) rows))
      | Refused p retry \<Rightarrow> d' = d \<or> (be_commit e = FaultAfter \<and> (\<exists>b rows. batch_into dp b rows d d')))"
proof (cases body)
  case (Inr items)
  let ?v = "valid_items cd e items" and ?q = "batch_tx dp cd e items cid k (ownerFromCtx dp key)"
  have refused: "\<not> accepted r \<Longrightarrow> \<exists>p retry. r = Refused p retry" for r :: "batch_response reply" by (cases r) auto
  consider "length items = 0 \<or> length items > MaxBatchItems" | "length items \<noteq> 0" "length items \<le> MaxBatchItems" "?v = []"
    | "length items \<noteq> 0" "length items \<le> MaxBatchItems" "?v \<noteq> []" by fastforce
  then show ?thesis
  proof cases
    case 3
    then have out: "createBatch dp cd cid e key k body d =
      (case run_tx (be_begin_lost e) (be_commit e) ?q d of
         (Inl err, d') \<Rightarrow> (tx_problem cid (be_ctx e) err, d')
       | (Inr rows, d') \<Rightarrow>
           (Done (if batch_status (length ?v) (length items) = ''partial'' then 207 else 201)
              \<lparr>bs_batch_id = be_batch_id e, bs_status = batch_status (length ?v) (length items), bs_total = int (length items),
               bs_accepted = int (length ?v), bs_rejected = int (length items) - int (length ?v),
               bs_items = batch_results cd e items rows\<rparr>, d'))"
      using Inr by (simp add: createBatch_def Let_def)
    have stored: "\<exists>b. b_id b = be_batch_id e \<and> b_total_count b = int (length items) \<and> batch_into dp b rows d d'"
      "length rows = length ?v" if "?q d = Inr (rows, d')" for rows d'
      using batch_tx_Inr[OF that 3(2)] by auto
    obtain p retry where prob: "tx_problem cid (be_ctx e) err = (Refused (p err) (retry err) :: batch_response reply)" for err
      using refused[OF accepted_tx_problem] by metis
    show ?thesis
      using stored batch_results_accepted[of _ cd e items]
      by (auto simp: out run_tx_def prob split: sum.splits prod.splits fault.splits) (intro exI conjI, assumption+, simp_all)
  qed (use Inr in \<open>auto simp: createBatch_def Let_def WriteValidationProblem_def WriteProblemFull_def\<close>)
qed (simp add: createBatch_def WriteValidationProblem_def WriteProblemFull_def)

text \<open>
  C31: Cancelling does exactly what it may. When no call fails, a notification that is pending, queued or
  scheduled and that the caller owns (or the caller is an admin) becomes cancelled, with nothing else
  changed; otherwise nothing changes and the reply is 404, or 409 for an admin and an existing row.
\<close>

theorem cancel_spec:
  assumes "db_wf d" "uuid_parse dp idp = Some nid" "cl_fault e = NoFault" "recheck = NoFault"
  shows "if \<exists>r. row_of nid d = Some r \<and> cancellable r \<and> may_access dp key (n_created_by r)
    then \<exists>r d'. row_of nid d = Some r \<and> cancellable r \<and> row_set d nid (cancelled (cl_now e) r) d' \<and>
           cancel dp cid e recheck key idp d = (Done 200 (rowToResponse (cancelled (cl_now e) r)), d')
    else \<exists>reply. cancel dp cid e recheck key idp d = (reply, d) \<and>
           reply_status reply = (if is_admin key \<and> row_of nid d \<noteq> None then 409 else 404)"
proof -
  have inv: "reply_status (WriteErrorAsProblem cid (Some (Sentinel ErrInvalidState t))) = 409" for t
    by (simp add: WriteErrorAsProblem_def)
  have get: "GetNotificationByID nid d = Inl ErrNoRows \<longleftrightarrow> row_of nid d = None"
    by (simp add: GetNotificationByID_def row_of_def split: option.splits)
  have gete: "\<exists>x. run_stmt NoFault (GetNotificationByID nid) d = (x, d) \<and> (x = Inl ErrNoRows \<longleftrightarrow> row_of nid d = None)"
    by (auto simp: run_stmt_def GetNotificationByID_def row_of_def split: option.splits)
  show ?thesis
  proof (cases "is_admin key")
    case True
    then show ?thesis
      using cancel_statement[OF assms(1), of cancellable nid "cl_now e"] assms(2-4) gete inv
      by (auto simp: cancel_def Let_def Cancel_cancelled run_stmt_def[of _ "update_notification _ _ _"] may_access_def split: if_splits)
  next
    case False
    show ?thesis
    proof (cases "ownerFromCtx dp key")
      case None
      then show ?thesis using False assms(2) by (auto simp: cancel_def Let_def may_access_def)
    next
      case (Some u)
      then show ?thesis
        using False cancel_statement[OF assms(1), of "\<lambda>r. n_created_by r = Some u \<and> cancellable r" nid "cl_now e"] assms(2-4) gete
        by (auto simp: cancel_def Let_def Cancel_cancelled run_stmt_def[of _ "update_notification _ _ _"] may_access_def split: if_splits)
    qed
  qed
qed

theorem cancel_spec_witness:
  "\<exists>d'. cancel (ex_deps\<lparr>uuid_parse := \<lambda>_. Some 1\<rparr>) ''c'' (ex_call NoFault) NoFault (Some ex_reader) ''id''
      (empty_db\<lparr>notifications := [(ex_row StatusQueued 0)\<lparr>n_created_by := Some 1\<rparr>]\<rparr>) =
     (Done 200 (rowToResponse ((ex_row StatusCancelled 0)\<lparr>n_created_by := Some 1, n_updated_at := 5\<rparr>)), d')"
proof -
  let ?r = "(ex_row StatusQueued 0)\<lparr>n_created_by := Some 1\<rparr>" and ?dp = "ex_deps\<lparr>uuid_parse := \<lambda>_. Some 1\<rparr>"
  let ?d = "empty_db\<lparr>notifications := [?r]\<rparr>"
  have "notif_check ?r" using ex_row_check[of StatusQueued 0] by (simp add: notif_check_def)
  then have wf: "db_wf ?d" by (simp add: db_wf_def empty_db_def)
  have row: "row_of 1 ?d = Some ?r" by (simp add: row_of_def ex_row_def)
  have "cancellable ?r" by (simp add: cancellable_def ex_row_def)
  moreover have "may_access ?dp (Some ex_reader) (n_created_by ?r)" by (simp add: may_access_def ownerFromCtx_def)
  ultimately obtain d' where "cancel ?dp ''c'' (ex_call NoFault) NoFault (Some ex_reader) ''id'' ?d =
      (Done 200 (rowToResponse (cancelled (cl_now (ex_call NoFault)) ?r)), d')"
    using cancel_spec[OF wf, of ?dp "''id''" 1 "ex_call NoFault" NoFault "Some ex_reader" "''c''"] row
    by (auto simp: ex_call_def)
  then show ?thesis by (simp add: cancelled_def ex_call_def ex_row_def)
qed

text \<open>
  C32: A notification of another key cannot be read, cancelled or even noticed. For a caller without
  the admin scope, \<open>get\<close> and \<open>cancel\<close> answer as if no notification had that id, whatever the calls meet,
  and nothing is written. (For a read, a lost reply and a lost request are the same fault.)
\<close>

theorem foreign_notification_hidden:
  assumes "\<not> is_admin key" "uuid_parse dp idp = Some nid" "notification_foreign dp key nid d"
  shows "notifications_get dp cid e key idp d = notifications_get dp cid e key idp (without_notification nid d) \<and>
    cancel dp cid e recheck key idp d = (fst (cancel dp cid e recheck key idp (without_notification nid d)), d)"
proof (cases "ownerFromCtx dp key")
  case None
  then show ?thesis using assms(1,2) by (simp add: notifications_get_def cancel_def)
next
  case (Some u)
  note f = foreign_statements[OF assms(3,1) Some] and w = without_statements[where nid = nid and d = d]
  show ?thesis
    using assms(1,2) Some
    by (auto simp: notifications_get_def cancel_def Let_def run_stmt_def[of "cl_fault e"] f w split: fault.splits)
qed

theorem foreign_notification_hidden_witness:
  "fst (cancel (ex_deps\<lparr>uuid_parse := \<lambda>s. if s = ''a'' then Some 1 else Some 9\<rparr>) ''c'' (ex_call NoFault) NoFault (Some ex_reader) ''n''
     (empty_db\<lparr>notifications := [(ex_row StatusQueued 0)\<lparr>n_id := 9, n_created_by := Some 2\<rparr>]\<rparr>)) =
   WriteErrorAsProblem ''c'' (Some (sentinel ErrNotFound))"
proof -
  let ?dp = "ex_deps\<lparr>uuid_parse := \<lambda>s. if s = ''a'' then Some 1 else Some 9\<rparr>"
  let ?d = "empty_db\<lparr>notifications := [(ex_row StatusQueued 0)\<lparr>n_id := 9, n_created_by := Some 2\<rparr>]\<rparr>"
  have na: "\<not> is_admin (Some ex_reader)" and ow: "ownerFromCtx ?dp (Some ex_reader) = Some 1"
    by (simp_all add: is_admin_def ex_reader_def HasScope_def ownerFromCtx_def)
  moreover have "notification_foreign ?dp (Some ex_reader) 9 ?d"
    using na ow by (simp add: notification_foreign_def may_access_def)
  ultimately have "cancel ?dp ''c'' (ex_call NoFault) NoFault (Some ex_reader) ''n'' ?d =
      (fst (cancel ?dp ''c'' (ex_call NoFault) NoFault (Some ex_reader) ''n'' (without_notification 9 ?d)), ?d)"
    using foreign_notification_hidden[of "Some ex_reader" ?dp "''n''" 9 ?d] by auto
  then show ?thesis
    using na ow by (simp add: cancel_def Let_def run_stmt_def ex_call_def without_statements)
qed

end
