(* ===== verification/Listing.thy ===== *)
theory Listing
  imports Batch
begin

text \<open>
  GET /v1/notifications (\<open>internal/api/notifications_list.go\<close>): filters and keyset pagination. The JSON
  text of a cursor and the RFC 3339 syntax of instants are parameters; the base64url layer around the
  cursor is that of \<open>Base64\<close>.
\<close>

type_synonym cursor = "time \<times> uuid"

text \<open>Go's zero time, January 1 of year 1, counted from the Unix epoch.\<close>

definition zero_time :: time where
  "zero_time = - 62135596800 * second"

record list_deps =
  ld_cursor_text :: "cursor \<Rightarrow> string"
  ld_cursor_parse :: "string \<Rightarrow> cursor option"
  ld_time :: "string \<Rightarrow> time option"

definition cursor_encode :: "list_deps \<Rightarrow> cursor \<Rightarrow> string" where
  "cursor_encode ld c = EncodeToString b64_url (ld_cursor_text ld c)"

definition decodeCursor :: "list_deps \<Rightarrow> string \<Rightarrow> cursor option" where
  "decodeCursor ld s =
     (if s = [] then Some (zero_time, 0)
      else (case DecodeString b64_url s of None \<Rightarrow> None | Some raw \<Rightarrow> ld_cursor_parse ld raw))"

record list_query =
  lq_limit :: string
  lq_cursor :: string
  lq_status :: string
  lq_channel :: string
  lq_batch_id :: string
  lq_created_after :: string
  lq_created_before :: string

record list_response =
  lr_items :: "notification_response list"
  lr_next_cursor :: "string option"
  lr_has_more :: bool

text \<open>The mapping of a scanned row leaves the template columns out.\<close>

definition toResponse :: "notification \<Rightarrow> notification_response" where
  "toResponse r = (rowToResponse r)\<lparr>nr_template_id := None, nr_template_version := None\<rparr>"

text \<open>The predicate built from the query parameters, or the refusal of the first invalid one.\<close>

definition list_filter :: "deps \<Rightarrow> list_deps \<Rightarrow> string \<Rightarrow> list_query \<Rightarrow> 'a reply + (notification \<Rightarrow> bool)" where
  "list_filter dp ld cid q =
     (let invalid = (\<lambda>f m. Inl (WriteValidationProblem cid [field_err f m])) in
      if lq_status q \<noteq> [] \<and> \<not> Status_Valid (lq_status q) then invalid ''status'' ''invalid''
      else if lq_channel q \<noteq> [] \<and> \<not> Channel_Valid (lq_channel q) then invalid ''channel'' ''invalid''
      else if lq_batch_id q \<noteq> [] \<and> uuid_parse dp (lq_batch_id q) = None then invalid ''batch_id'' ''must be a UUID''
      else if lq_created_after q \<noteq> [] \<and> ld_time ld (lq_created_after q) = None then invalid ''created_after'' ''must be RFC3339''
      else if lq_created_before q \<noteq> [] \<and> ld_time ld (lq_created_before q) = None then invalid ''created_before'' ''must be RFC3339''
      else Inr (\<lambda>r.
        (lq_status q = [] \<or> status_string (n_status r) = lq_status q) \<and>
        (lq_channel q = [] \<or> n_channel r = lq_channel q) \<and>
        (lq_batch_id q = [] \<or> n_batch_id r = uuid_parse dp (lq_batch_id q)) \<and>
        (lq_created_after q = [] \<or> n_created_at r \<ge> the (ld_time ld (lq_created_after q))) \<and>
        (lq_created_before q = [] \<or> n_created_at r < the (ld_time ld (lq_created_before q)))))"

definition row_key :: "notification \<Rightarrow> time \<times> uuid" where
  "row_key r = (n_created_at r, n_id r)"

definition after_cursor :: "cursor \<Rightarrow> notification \<Rightarrow> bool" where
  "after_cursor cur r \<longleftrightarrow> fst cur = zero_time \<or> row_key r < cur"

definition list_rows :: "(notification \<Rightarrow> bool) \<Rightarrow> cursor \<Rightarrow> int \<Rightarrow> notification list stmt" where
  "list_rows P cur limit d =
     Inr (take (nat (limit + 1)) (newest_first (filter (\<lambda>r. P r \<and> after_cursor cur r) (notifications d))), d)"

definition page :: "list_deps \<Rightarrow> int \<Rightarrow> notification list \<Rightarrow> list_response" where
  "page ld limit rows =
     (let out = map toResponse rows in
      if int (length out) > limit then
        (let items = take (nat limit) out; l = last items in
         \<lparr>lr_items = items, lr_next_cursor = Some (cursor_encode ld (nr_created_at l, nr_id l)), lr_has_more = True\<rparr>)
      else \<lparr>lr_items = out, lr_next_cursor = None, lr_has_more = False\<rparr>)"

definition notifications_list ::
  "deps \<Rightarrow> list_deps \<Rightarrow> string \<Rightarrow> call_env \<Rightarrow> authed_key option \<Rightarrow> list_query \<Rightarrow> db \<Rightarrow> list_response reply" where
  "notifications_list dp ld cid e key q d =
     (case page_limit (lq_limit q) of
        None \<Rightarrow> WriteValidationProblem cid [field_err ''limit'' ''must be a positive integer'']
      | Some limit \<Rightarrow>
          (case decodeCursor ld (lq_cursor q) of
             None \<Rightarrow> WriteValidationProblem cid [field_err ''cursor'' ''malformed'']
           | Some cur \<Rightarrow>
               if \<not> is_admin key \<and> ownerFromCtx dp key = None then
                 Done 200 \<lparr>lr_items = [], lr_next_cursor = None, lr_has_more = False\<rparr>
               else
                 (case list_filter dp ld cid q of
                    Inl r \<Rightarrow> r
                  | Inr P \<Rightarrow>
                      (case fst (run_stmt (cl_fault e)
                          (list_rows (\<lambda>r. may_access dp key (n_created_by r) \<and> P r) cur limit) d) of
                         Inl err \<Rightarrow> WriteErrorAsProblem cid (Some (wrap_db (cl_ctx e) ''list query'' err))
                       | Inr rows \<Rightarrow> Done 200 (page ld limit rows)))))"

text \<open>A client that follows the cursors; \<open>ds k\<close> is the database when page \<open>k\<close> is read.\<close>

fun follow_pages ::
  "deps \<Rightarrow> list_deps \<Rightarrow> string \<Rightarrow> call_env \<Rightarrow> authed_key option \<Rightarrow> list_query \<Rightarrow> (nat \<Rightarrow> db) \<Rightarrow> nat \<Rightarrow> nat \<Rightarrow> string \<Rightarrow>
   notification_response list option" where
  "follow_pages dp ld cid e key q ds 0 k cur = None"
| "follow_pages dp ld cid e key q ds (Suc n) k cur =
     (case notifications_list dp ld cid e key (q\<lparr>lq_cursor := cur\<rparr>) (ds k) of
        Refused p retry \<Rightarrow> None
      | Done st resp \<Rightarrow>
          (case lr_next_cursor resp of
             None \<Rightarrow> Some (lr_items resp)
           | Some c \<Rightarrow> map_option (\<lambda>rest. lr_items resp @ rest) (follow_pages dp ld cid e key q ds n (Suc k) c)))"

subsection \<open>Lemmas\<close>

text \<open>Everything the caller may see that matches the query, newest first.\<close>

definition matching ::
  "deps \<Rightarrow> list_deps \<Rightarrow> string \<Rightarrow> authed_key option \<Rightarrow> list_query \<Rightarrow> db \<Rightarrow> notification list" where
  "matching dp ld cid key q d =
     (case list_filter dp ld cid q :: list_response reply + (notification \<Rightarrow> bool) of
        Inl _ \<Rightarrow> []
      | Inr P \<Rightarrow> newest_first (filter (\<lambda>r. may_access dp key (n_created_by r) \<and> P r) (notifications d)))"

definition descending :: "notification list \<Rightarrow> bool" where
  "descending rs \<longleftrightarrow> sorted_wrt (\<lambda>a b. row_key b < row_key a) rs"

lemma newest_first_filter: "newest_first (filter P rs) = filter P (newest_first rs)"
  by (simp add: newest_first_def filter_sort rev_filter[symmetric])

lemma newest_first_descending: "distinct (map n_id rs) \<Longrightarrow> descending (newest_first rs)"
proof -
  assume d: "distinct (map n_id rs)"
  let ?xs = "sort_key row_key rs"
  have "distinct (map row_key ?xs)"
  proof -
    have "inj_on n_id (set rs)" "distinct rs" using d by (simp_all add: distinct_map)
    then have "distinct ?xs" "inj_on row_key (set ?xs)" by (auto simp: inj_on_def row_key_def)
    then show ?thesis by (simp add: distinct_map)
  qed
  then have "sorted_wrt (<) (map row_key ?xs)" by (simp add: strict_sorted_iff)
  then show ?thesis
    by (simp add: descending_def newest_first_def row_key_def[abs_def] sorted_wrt_rev sorted_wrt_map)
qed

lemma descending_after:
  assumes "descending (pre @ x # rest)"
  shows "filter (\<lambda>r. row_key r < row_key x) (pre @ x # rest) = rest"
proof -
  have "\<forall>r \<in> set pre. row_key x < row_key r" "\<forall>r \<in> set rest. row_key r < row_key x"
    using assms by (auto simp: descending_def sorted_wrt_append)
  then show ?thesis by (auto simp: filter_empty_conv filter_id_conv)
qed

lemma cursor_roundtrip:
  assumes "ld_cursor_parse ld (ld_cursor_text ld c) = Some c" "ld_cursor_text ld c \<noteq> []"
  shows "decodeCursor ld (cursor_encode ld c) = Some c"
proof -
  have "cursor_encode ld c \<noteq> []"
  proof
    assume "cursor_encode ld c = []"
    then have "DecodeString b64_url [] = Some (ld_cursor_text ld c)"
      using b64_url_roundtrip[of "ld_cursor_text ld c"] by (simp add: cursor_encode_def)
    then show False using assms(2) by (simp add: DecodeString_def)
  qed
  then show ?thesis using assms(1) b64_url_roundtrip by (simp add: decodeCursor_def cursor_encode_def)
qed

lemma matching_descending: "db_wf d \<Longrightarrow> descending (matching dp ld cid key q d)"
  by (auto simp: matching_def db_wf_def descending_def distinct_map_filterI
      intro!: newest_first_descending[unfolded descending_def] split: sum.splits)

lemma list_filter_cursor [simp]: "list_filter dp ld cid (q\<lparr>lq_cursor := c\<rparr>) = list_filter dp ld cid q"
  by (simp add: list_filter_def)

text \<open>A request whose parameters are all valid and whose caller is known.\<close>

definition good_query :: "deps \<Rightarrow> list_deps \<Rightarrow> string \<Rightarrow> authed_key option \<Rightarrow> list_query \<Rightarrow> bool" where
  "good_query dp ld cid key q \<longleftrightarrow>
     page_limit (lq_limit q) \<noteq> None \<and> (is_admin key \<or> ownerFromCtx dp key \<noteq> None) \<and>
     (case list_filter dp ld cid q :: list_response reply + (notification \<Rightarrow> bool) of Inl _ \<Rightarrow> False | Inr _ \<Rightarrow> True)"

lemma list_step:
  assumes "good_query dp ld cid key q" "page_limit (lq_limit q) = Some limit" "decodeCursor ld cur = Some c" "cl_fault e = NoFault"
  shows "notifications_list dp ld cid e key (q\<lparr>lq_cursor := cur\<rparr>) d =
    Done 200 (page ld limit (take (nat (limit + 1)) (filter (after_cursor c) (matching dp ld cid key q d))))"
proof -
  obtain P where "list_filter dp ld cid q = (Inr P :: list_response reply + (notification \<Rightarrow> bool))"
    using assms(1) by (auto simp: good_query_def split: sum.splits)
  then show ?thesis
    using assms
    by (auto simp: notifications_list_def good_query_def run_stmt_def list_rows_def matching_def newest_first_filter
        filter_filter conj_commute conj_left_commute)
qed

lemma page_all: "int (length rows) \<le> limit \<Longrightarrow> page ld limit rows = \<lparr>lr_items = map toResponse rows, lr_next_cursor = None, lr_has_more = False\<rparr>"
  by (simp add: page_def Let_def)

lemma page_more:
  assumes "0 < limit" "int (length rows) > limit"
  shows "page ld limit rows =
    \<lparr>lr_items = map toResponse (take (nat limit) rows), lr_next_cursor = Some (cursor_encode ld (row_key (last (take (nat limit) rows)))),
     lr_has_more = True\<rparr>"
proof -
  have "take (nat limit) rows \<noteq> []" using assms by auto
  then show ?thesis
    using assms by (simp add: page_def Let_def take_map last_map row_key_def toResponse_def rowToResponse_def)
qed

text \<open>Cursors that survive their text form: those of the rows of a list, none of them Go's zero time.\<close>

definition cursors_ok :: "list_deps \<Rightarrow> notification list \<Rightarrow> bool" where
  "cursors_ok ld rs \<longleftrightarrow>
     list_all (\<lambda>r. n_created_at r \<noteq> zero_time \<and> ld_cursor_text ld (row_key r) \<noteq> [] \<and>
                   ld_cursor_parse ld (ld_cursor_text ld (row_key r)) = Some (row_key r)) rs"

lemma follow_pages_suffix:
  assumes q: "good_query dp ld cid key q" "page_limit (lq_limit q) = Some limit" "cl_fault e = NoFault"
    and wf: "\<And>k. db_wf (ds k)" and grow: "\<And>k. \<exists>new. matching dp ld cid key q (ds k) = new @ base" and ok: "cursors_ok ld base"
  shows "base = pre @ M \<Longrightarrow> decodeCursor ld cur = Some c \<Longrightarrow> filter (after_cursor c) (matching dp ld cid key q (ds k)) = M \<Longrightarrow>
    length M < n \<Longrightarrow> follow_pages dp ld cid e key q ds n k cur = Some (map toResponse M)"
proof (induction n arbitrary: k cur c pre M)
  case (Suc n)
  have lim: "1 \<le> limit" using page_limit_bounds[OF q(2)] by simp
  note step = list_step[OF q(1,2) Suc.prems(2) q(3), of "ds k", unfolded Suc.prems(3)]
  show ?case
  proof (cases "int (length M) \<le> limit")
    case True
    then have "take (nat (limit + 1)) M = M" by simp
    then show ?thesis using step True by (simp add: page_all)
  next
    case False
    let ?T = "take (nat limit) M" and ?R = "drop (nat limit) M"
    let ?x = "last ?T"
    have T: "?T \<noteq> []" using lim False by auto
    have M: "M = butlast ?T @ ?x # ?R" using T by (metis append_butlast_last_id append_take_drop_id append.assoc append_Cons append_Nil)
    have x: "?x \<in> set base" using Suc.prems(1) in_set_takeD[OF last_in_set[OF T]] by simp
    have "int (length (take (nat (limit + 1)) M)) > limit" "take (nat limit) (take (nat (limit + 1)) M) = ?T"
      using False lim by (auto simp: min_def)
    then have pg: "notifications_list dp ld cid e key (q\<lparr>lq_cursor := cur\<rparr>) (ds k) =
        Done 200 \<lparr>lr_items = map toResponse ?T, lr_next_cursor = Some (cursor_encode ld (row_key ?x)), lr_has_more = True\<rparr>"
      using step page_more[of limit "take (nat (limit + 1)) M" ld] lim by simp
    have cx: "n_created_at ?x \<noteq> zero_time" "decodeCursor ld (cursor_encode ld (row_key ?x)) = Some (row_key ?x)"
      using ok x by (auto simp: cursors_ok_def list_all_iff intro: cursor_roundtrip)
    obtain new where new: "matching dp ld cid key q (ds (Suc k)) = new @ base" using grow by blast
    have split: "new @ base = (new @ pre @ butlast ?T) @ ?x # ?R" using Suc.prems(1) M by (metis append.assoc)
    have "descending (new @ base)" using matching_descending[OF wf] new by metis
    then have "filter (\<lambda>r. row_key r < row_key ?x) (new @ base) = ?R" unfolding split by (rule descending_after)
    moreover have "after_cursor (row_key ?x) = (\<lambda>r. row_key r < row_key ?x)"
      using cx(1) by (auto simp: after_cursor_def row_key_def)
    ultimately have rest: "filter (after_cursor (row_key ?x)) (matching dp ld cid key q (ds (Suc k))) = ?R"
      unfolding new by simp
    have "follow_pages dp ld cid e key q ds n (Suc k) (cursor_encode ld (row_key ?x)) = Some (map toResponse ?R)"
    proof (rule Suc.IH[OF _ cx(2) rest])
      show "base = (pre @ ?T) @ ?R" using Suc.prems(1) by simp
      show "length ?R < n" using Suc.prems(4) lim False by auto
    qed
    then show ?thesis using pg by (simp add: map_append[symmetric])
  qed
qed simp

lemma after_no_cursor: "filter (after_cursor (zero_time, u)) rs = rs"
  by (simp add: after_cursor_def)

subsection \<open>Properties\<close>

text \<open>
  C23: Following the cursors lists everything exactly once. A client that starts without a cursor and
  follows \<open>next_cursor\<close> to the end receives, newest first, every notification that it may see and that
  matched its filters when it started, each once; notifications that appear at the front meanwhile do
  not disturb the later pages. The number of pages is at most the number of notifications plus one.
\<close>

theorem pagination_complete:
  assumes "good_query dp ld cid key q" "cl_fault e = NoFault" "\<forall>k. db_wf (ds k)"
    and "\<forall>k. \<exists>new. matching dp ld cid key q (ds k) = new @ matching dp ld cid key q (ds 0)"
    and "cursors_ok ld (matching dp ld cid key q (ds 0))"
    and "length (matching dp ld cid key q (ds 0)) < n"
  shows "follow_pages dp ld cid e key q ds n 0 [] = Some (map toResponse (matching dp ld cid key q (ds 0)))"
proof -
  obtain limit where "page_limit (lq_limit q) = Some limit" using assms(1) by (auto simp: good_query_def)
  moreover have "decodeCursor ld [] = Some (zero_time, 0)" by (simp add: decodeCursor_def)
  ultimately show ?thesis
    using assms by (intro follow_pages_suffix[where limit = limit and pre = "[]" and c = "(zero_time, 0)"]) (auto simp: after_no_cursor)
qed

definition ex_ld :: list_deps where
  "ex_ld = \<lparr>ld_cursor_text = (\<lambda>(t, u). replicate (unat u) CHR ''a''), ld_cursor_parse = (\<lambda>s. Some (0, of_nat (length s))),
            ld_time = (\<lambda>_. None)\<rparr>"

definition ex_query :: list_query where
  "ex_query = \<lparr>lq_limit = ''1'', lq_cursor = [], lq_status = [], lq_channel = [], lq_batch_id = [], lq_created_after = [], lq_created_before = []\<rparr>"

definition ex_admin :: authed_key where
  "ex_admin = \<lparr>ak_ID = ''a'', ak_Name = ''k'', ak_Scopes = [ScopeAdmin]\<rparr>"

definition ex_pair :: db where
  "ex_pair = empty_db\<lparr>notifications := [ex_row StatusQueued 0, (ex_row StatusSending 0)\<lparr>n_id := 2\<rparr>]\<rparr>"

theorem pagination_complete_witness:
  "follow_pages ex_deps ex_ld ''c'' (ex_call NoFault) (Some ex_admin) ex_query (\<lambda>_. ex_pair) 3 0 [] =
   Some [toResponse ((ex_row StatusSending 0)\<lparr>n_id := 2\<rparr>), toResponse (ex_row StatusQueued 0)]"
proof -
  have adm: "is_admin (Some ex_admin)" by (simp add: is_admin_def ex_admin_def HasScope_def)
  have lim: "page_limit ''1'' = Some 1" by (simp add: page_limit_def Atoi_def digits_value_def is_digit_def Let_def maxPageSize_def)
  have m: "matching ex_deps ex_ld ''c'' (Some ex_admin) ex_query ex_pair = [(ex_row StatusSending 0)\<lparr>n_id := 2\<rparr>, ex_row StatusQueued 0]"
    using adm by (simp add: matching_def list_filter_def ex_query_def Let_def ex_pair_def newest_first_def may_access_def ex_row_def)
  have "notif_check ((ex_row StatusSending 0)\<lparr>n_id := 2\<rparr>)" using ex_row_check[of StatusSending 0] by (simp add: notif_check_def)
  then have "db_wf ex_pair" using ex_row_check[of StatusQueued 0] by (simp add: db_wf_def ex_pair_def empty_db_def ex_row_def)
  moreover have "good_query ex_deps ex_ld ''c'' (Some ex_admin) ex_query"
    using adm lim by (simp add: good_query_def list_filter_def ex_query_def Let_def)
  moreover have "cursors_ok ex_ld (matching ex_deps ex_ld ''c'' (Some ex_admin) ex_query ex_pair)"
    unfolding m by (simp add: cursors_ok_def ex_ld_def row_key_def ex_row_def zero_time_def second_def)
  ultimately show ?thesis
    using pagination_complete[of ex_deps ex_ld "''c''" "Some ex_admin" ex_query "ex_call NoFault" "\<lambda>_. ex_pair" 3] m
    by (auto simp: ex_call_def)
qed

end
