(* ===== verification/AuditLog.thy ===== *)
theory AuditLog
  imports Request
begin

text \<open>
  The admin audit log: the trigger that chains the rows by their hashes (migrations 0009, 0011, 0012 and
  0014), the statements on the table and the verifier of \<open>internal/audit\<close>. The digest and the text
  forms of JSON values and instants are parameters.

  A row's id comes from a sequence, which hands ids out before the trigger takes its lock, so the id is
  an argument of the insertion.
\<close>

record audit_deps =
  xd_digest :: "string \<Rightarrow> string"
  xd_json_text :: "json \<Rightarrow> string"
  xd_time_text :: "time \<Rightarrow> string"
  xd_uuid_text :: "uuid \<Rightarrow> string"

definition genesis_hash :: string where
  "genesis_hash = replicate 16 (CHR 0x00)"

definition admin_audit_canonical :: "audit_deps \<Rightarrow> audit_row \<Rightarrow> string" where
  "admin_audit_canonical xd r =
     show_int (au_id r) @ ''|'' @ au_actor r @
     ''|'' @ (case au_actor_id r of None \<Rightarrow> [] | Some u \<Rightarrow> xd_uuid_text xd u) @
     ''|'' @ au_action r @
     ''|'' @ (case au_target_id r of None \<Rightarrow> [] | Some t \<Rightarrow> t) @
     ''|'' @ xd_json_text xd (au_details r) @
     ''|'' @ xd_time_text xd (au_at r)"

definition expected_hash :: "audit_deps \<Rightarrow> audit_row \<Rightarrow> string" where
  "expected_hash xd r =
     xd_digest xd ((case au_prev_hash r of None \<Rightarrow> genesis_hash | Some h \<Rightarrow> h) @ admin_audit_canonical xd r)"

text \<open>The row with the largest id below the new one decides what the new row is chained to.\<close>

definition last_hash :: "int \<Rightarrow> audit_row list \<Rightarrow> string" where
  "last_hash nid rows =
     (case rev (sort_key au_id (filter (\<lambda>r. au_id r < nid) rows)) of
        [] \<Rightarrow> genesis_hash
      | r # _ \<Rightarrow> (case au_row_hash r of None \<Rightarrow> genesis_hash | Some h \<Rightarrow> h))"

definition admin_audit_chain_hash :: "audit_deps \<Rightarrow> audit_row list \<Rightarrow> audit_row \<Rightarrow> audit_row" where
  "admin_audit_chain_hash xd rows r =
     (let r1 = r\<lparr>au_prev_hash := Some (last_hash (au_id r) rows)\<rparr> in r1\<lparr>au_row_hash := Some (expected_hash xd r1)\<rparr>)"

definition audit_check :: "audit_row \<Rightarrow> bool" where
  "audit_check r \<longleftrightarrow>
     1 \<le> pg_length (au_actor r) \<and> pg_length (au_actor r) \<le> 100 \<and>
     au_action r \<in> {''dlq_replay'', ''dlq_replay_bulk'', ''dlq_replay_dryrun'', ''dlq_purge'', ''key_revoke''}"

definition InsertAuditEntry ::
  "audit_deps \<Rightarrow> time \<Rightarrow> int \<Rightarrow> string \<Rightarrow> uuid option \<Rightarrow> string \<Rightarrow> string option \<Rightarrow> json \<Rightarrow> audit_row stmt" where
  "InsertAuditEntry xd now serial actor actor_id action target details d =
     (let r = admin_audit_chain_hash xd (admin_audit d)
                \<lparr>au_id = serial, au_actor = actor, au_action = action, au_target_id = target, au_details = details,
                 au_at = now, au_actor_id = actor_id, au_prev_hash = None, au_row_hash = None\<rparr> in
      if \<not> audit_check r then Inl (ErrConstraint ''admin_audit'')
      else if sel au_id serial (admin_audit d) \<noteq> None then Inl (ErrConstraint ''admin_audit_pkey'')
      else if \<not> fk k_id (api_keys d) actor_id then Inl (ErrConstraint ''admin_audit_actor_id_fkey'')
      else Inr (r, d\<lparr>admin_audit := admin_audit d @ [r]\<rparr>))"

definition ListRecentAuditEntries :: "int \<Rightarrow> audit_row list stmt" where
  "ListRecentAuditEntries n d = Inr (take (nat n) (rev (sort_key au_at (admin_audit d))), d)"

text \<open>The rows in id order, each compared with its predecessor and with its own content.\<close>

definition broken :: "audit_deps \<Rightarrow> audit_row option \<Rightarrow> audit_row \<Rightarrow> bool" where
  "broken xd prev r \<longleftrightarrow>
     (case prev of None \<Rightarrow> False | Some p \<Rightarrow> au_prev_hash r \<noteq> au_row_hash p) \<or> au_row_hash r \<noteq> Some (expected_hash xd r)"

fun broken_links :: "audit_deps \<Rightarrow> audit_row option \<Rightarrow> audit_row list \<Rightarrow> nat" where
  "broken_links xd prev [] = 0"
| "broken_links xd prev (r # rs) = (if broken xd prev r then 1 else 0) + broken_links xd (Some r) rs"

definition VerifyAuditChain :: "audit_deps \<Rightarrow> int stmt" where
  "VerifyAuditChain xd d = Inr (int (broken_links xd None (sort_key au_id (admin_audit d))), d)"

subsection \<open>The background verifier\<close>

definition Audit_Default :: time where
  "Audit_Default = 300 * second"

definition VerifyOnce :: "audit_deps \<Rightarrow> fault \<Rightarrow> db \<Rightarrow> db_error + int" where
  "VerifyOnce xd f d = fst (run_stmt f (VerifyAuditChain xd) d)"

datatype audit_log = LogError | LogWarn int | LogDebug

record verifier_state =
  vs_gauge :: "int option"
  vs_log :: "audit_log list"

text \<open>One sample; \<open>cancelled\<close> says that the query failed because the process is stopping.\<close>

definition verifyOnce :: "audit_deps \<Rightarrow> bool \<Rightarrow> fault \<Rightarrow> bool \<Rightarrow> db \<Rightarrow> verifier_state \<Rightarrow> verifier_state" where
  "verifyOnce xd has_metrics f cancelled d s =
     (case VerifyOnce xd f d of
        Inl err \<Rightarrow> if cancelled then s else s\<lparr>vs_log := vs_log s @ [LogError]\<rparr>
      | Inr n \<Rightarrow>
          (let s1 = (if has_metrics then s\<lparr>vs_gauge := Some n\<rparr> else s) in
           s1\<lparr>vs_log := vs_log s1 @ [if n > 0 then LogWarn n else LogDebug]\<rparr>))"

subsection \<open>Lemmas\<close>

lemma broken_links_append:
  "broken_links xd prev (xs @ ys) =
   broken_links xd prev xs + broken_links xd (if xs = [] then prev else Some (last xs)) ys"
  by (induction xs arbitrary: prev) auto

lemma insort_key_snoc: "f x \<le> f r \<Longrightarrow> insort_key f x (zs @ [r]) = insort_key f x zs @ [r]"
  by (induction zs) auto

lemma sort_key_snoc: "(\<And>x. x \<in> set xs \<Longrightarrow> f x < f r) \<Longrightarrow> sort_key f (xs @ [r]) = sort_key f xs @ [r]"
  by (induction xs) (auto simp: insort_key_snoc less_imp_le)

lemma chain_hash_simps [simp]:
  "au_id (admin_audit_chain_hash xd rows r) = au_id r"
  "au_prev_hash (admin_audit_chain_hash xd rows r) = Some (last_hash (au_id r) rows)"
  "au_row_hash (admin_audit_chain_hash xd rows r) = Some (expected_hash xd (admin_audit_chain_hash xd rows r))"
  by (simp_all add: admin_audit_chain_hash_def Let_def expected_hash_def admin_audit_canonical_def)

lemma broken_links_0:
  "broken_links xd prev rs = 0 \<Longrightarrow> r \<in> set rs \<Longrightarrow> au_row_hash r = Some (expected_hash xd r)"
  by (induction rs arbitrary: prev) (auto simp: broken_def split: if_splits)

lemma last_hash_all:
  assumes "\<And>r. r \<in> set rows \<Longrightarrow> au_id r < n" "rows \<noteq> []" "broken_links xd None (sort_key au_id rows) = 0"
  shows "au_row_hash (last (sort_key au_id rows)) = Some (last_hash n rows)"
proof -
  let ?xs = "sort_key au_id rows"
  have ne: "?xs \<noteq> []" using assms(2) by (metis length_0_conv length_sort)
  have "filter (\<lambda>r. au_id r < n) rows = rows" using assms(1) by (simp add: filter_id_conv)
  moreover have "rev ?xs = last ?xs # rev (butlast ?xs)" using ne by (metis append_butlast_last_id rev_eq_Cons_iff rev_rev_ident)
  moreover have "au_row_hash (last ?xs) = Some (expected_hash xd (last ?xs))"
    using broken_links_0[OF assms(3)] last_in_set[OF ne] by blast
  ultimately show ?thesis unfolding last_hash_def by (simp only:) simp
qed

lemma InsertAuditEntry_Inr:
  assumes "InsertAuditEntry xd now serial actor aid action target details d = Inr (r, d')"
  shows "d' = d\<lparr>admin_audit := admin_audit d @ [r]\<rparr>" "au_id r = serial" "au_prev_hash r = Some (last_hash serial (admin_audit d))"
    "au_row_hash r = Some (expected_hash xd r)" "au_actor r = actor" "au_action r = action" "au_target_id r = target"
  using assms by (auto simp: InsertAuditEntry_def Let_def admin_audit_chain_hash_def expected_hash_def admin_audit_canonical_def split: if_splits)

lemma append_intact:
  assumes "VerifyAuditChain xd d = Inr (0, d)" "InsertAuditEntry xd now serial actor aid action target details d = Inr (r, d')"
    and "\<And>x. x \<in> set (admin_audit d) \<Longrightarrow> au_id x < serial"
  shows "VerifyAuditChain xd d' = Inr (0, d')"
proof -
  let ?rows = "admin_audit d"
  note ins = InsertAuditEntry_Inr[OF assms(2)]
  have z: "broken_links xd None (sort_key au_id ?rows) = 0" using assms(1) by (simp add: VerifyAuditChain_def)
  have s: "sort_key au_id (?rows @ [r]) = sort_key au_id ?rows @ [r]" using assms(3) ins(2) by (intro sort_key_snoc) simp
  have "\<not> broken xd (if sort_key au_id ?rows = [] then None else Some (last (sort_key au_id ?rows))) r"
  proof (cases "?rows = []")
    case False
    then show ?thesis using last_hash_all[OF assms(3) False z] ins(3,4) by (simp add: broken_def)
  qed (use ins(4) in \<open>simp add: broken_def\<close>)
  then show ?thesis using z s ins(1) by (simp add: VerifyAuditChain_def broken_links_append)
qed

text \<open>A run of insertions whose ids come in increasing order.\<close>

record audit_entry =
  ae_now :: time
  ae_actor :: string
  ae_actor_id :: "uuid option"
  ae_action :: string
  ae_target :: "string option"
  ae_details :: json

fun audit_run :: "audit_deps \<Rightarrow> (int \<times> audit_entry) list \<Rightarrow> db \<Rightarrow> db" where
  "audit_run xd [] d = d"
| "audit_run xd ((serial, a) # es) d =
     audit_run xd es (snd (run_stmt NoFault
       (InsertAuditEntry xd (ae_now a) serial (ae_actor a) (ae_actor_id a) (ae_action a) (ae_target a) (ae_details a)) d))"

lemma audit_run_intact:
  "VerifyAuditChain xd d = Inr (0, d) \<Longrightarrow> sorted_wrt (<) (map fst es) \<Longrightarrow>
   (\<And>x s. x \<in> set (admin_audit d) \<Longrightarrow> s \<in> set (map fst es) \<Longrightarrow> au_id x < s) \<Longrightarrow>
   VerifyAuditChain xd (audit_run xd es d) = Inr (0, audit_run xd es d)"
proof (induction es arbitrary: d)
  case (Cons e es)
  obtain serial a where e: "e = (serial, a)" by (cases e)
  let ?q = "InsertAuditEntry xd (ae_now a) serial (ae_actor a) (ae_actor_id a) (ae_action a) (ae_target a) (ae_details a)"
  let ?d = "snd (run_stmt NoFault ?q d)"
  have "VerifyAuditChain xd ?d = Inr (0, ?d) \<and> (\<forall>x s. x \<in> set (admin_audit ?d) \<longrightarrow> s \<in> set (map fst es) \<longrightarrow> au_id x < s)"
  proof (cases "?q d")
    case (Inl err)
    then show ?thesis using Cons.prems e by (auto simp: run_stmt_def)
  next
    case (Inr x)
    obtain r d' where q: "?q d = Inr (r, d')" using Inr by (cases x) auto
    have "VerifyAuditChain xd d' = Inr (0, d')" using append_intact[OF Cons.prems(1) q] Cons.prems(3) e by auto
    moreover have "au_id x < s" if "x \<in> set (admin_audit d')" "s \<in> set (map fst es)" for x s
      using that InsertAuditEntry_Inr(1,2)[OF q] Cons.prems(2,3) e by auto
    ultimately show ?thesis using q by (simp add: run_stmt_def)
  qed
  then show ?case using Cons.IH[of ?d] Cons.prems(2) e by auto
qed simp

lemma VerifyAuditChain_0: "VerifyAuditChain xd d = Inr (0, d) \<longleftrightarrow> broken_links xd None (sort_key au_id (admin_audit d)) = 0"
  by (simp add: VerifyAuditChain_def)

text \<open>
  What the chain does not show. Ids are taken before the trigger's lock, so of two concurrent insertions
  the one with the larger id can come first; the chain is then broken without any tampering. Rows can be
  removed from either end unseen, and a target that is NULL cannot be told from an empty one.
\<close>

lemma out_of_order_breaks:
  assumes "xd_digest xd = (\<lambda>s. s)" "fk k_id (api_keys d) None" "admin_audit d = []"
    and a: "InsertAuditEntry xd t 2 ''x'' None ''dlq_purge'' None JNull d = Inr (r2, d1)"
    and b: "InsertAuditEntry xd t 1 ''y'' None ''dlq_purge'' None JNull d1 = Inr (r1, d2)"
  shows "\<exists>n. VerifyAuditChain xd d2 = Inr (n, d2) \<and> n > 0"
proof -
  note r2 = InsertAuditEntry_Inr[OF a] and r1 = InsertAuditEntry_Inr[OF b]
  have "sort_key au_id (admin_audit d2) = [r1, r2]" using r1(1,2) r2(1,2) assms(3) by simp
  moreover have "au_prev_hash r2 = Some genesis_hash" using r2(3) assms(3) by (simp add: last_hash_def)
  moreover have "au_row_hash r1 = Some (genesis_hash @ admin_audit_canonical xd r1)"
    using r1(3,4) r2(1,2) assms(1,3) by (simp add: expected_hash_def last_hash_def)
  moreover have "admin_audit_canonical xd r1 \<noteq> []" by (simp add: admin_audit_canonical_def)
  ultimately have "broken xd (Some r1) r2" by (auto simp: broken_def)
  then show ?thesis using \<open>sort_key au_id (admin_audit d2) = [r1, r2]\<close> by (simp add: VerifyAuditChain_def)
qed

lemma truncation_unseen:
  assumes "broken_links xd None (a # xs @ [b]) = 0"
  shows "broken_links xd None (a # xs) = 0" "broken_links xd None (xs @ [b]) = 0"
proof -
  show "broken_links xd None (a # xs) = 0" using assms broken_links_append[of xd None "a # xs" "[b]"] by simp
  have "broken_links xd (Some a) ys = 0 \<Longrightarrow> broken_links xd None ys = 0" for ys
    by (cases ys) (auto simp: broken_def split: if_splits)
  then show "broken_links xd None (xs @ [b]) = 0" using assms by simp
qed

lemma null_target_unseen: "admin_audit_canonical xd (r\<lparr>au_target_id := None\<rparr>) = admin_audit_canonical xd (r\<lparr>au_target_id := Some []\<rparr>)"
  by (simp add: admin_audit_canonical_def)

subsection \<open>Properties\<close>

text \<open>
  C29: Honest use leaves the chain intact. Starting from an intact log, after any number of insertions
  whose ids come in increasing order (those that violate a constraint add nothing), the verifier
  counts no broken link.
\<close>

theorem audit_chain_intact:
  assumes "VerifyAuditChain xd d = Inr (0, d)" "sorted_wrt (<) (map fst es)"
    and "\<forall>x \<in> set (admin_audit d). \<forall>s \<in> set (map fst es). au_id x < s"
  shows "VerifyAuditChain xd (audit_run xd es d) = Inr (0, audit_run xd es d)"
  using assms by (intro audit_run_intact) auto

definition ex_xd :: audit_deps where
  "ex_xd = \<lparr>xd_digest = (\<lambda>s. s), xd_json_text = (\<lambda>_. ''{}''), xd_time_text = (\<lambda>_. ''t''), xd_uuid_text = (\<lambda>_. ''u'')\<rparr>"

definition ex_entry :: audit_entry where
  "ex_entry = \<lparr>ae_now = 0, ae_actor = ''ops'', ae_actor_id = None, ae_action = ''dlq_purge'', ae_target = Some ''n'', ae_details = JObj []\<rparr>"

lemma ex_entry_check: "au_actor r = ''ops'' \<Longrightarrow> au_action r = ''dlq_purge'' \<Longrightarrow> audit_check r"
  by (simp add: audit_check_def pg_length_def utf8_cont_def)

theorem audit_chain_intact_witness:
  "length (admin_audit (audit_run ex_xd [(1, ex_entry), (4, ex_entry)] empty_db)) = 2 \<and>
   VerifyAuditChain ex_xd (audit_run ex_xd [(1, ex_entry), (4, ex_entry)] empty_db) =
     Inr (0, audit_run ex_xd [(1, ex_entry), (4, ex_entry)] empty_db)"
proof
  show "length (admin_audit (audit_run ex_xd [(1, ex_entry), (4, ex_entry)] empty_db)) = 2"
    by (simp add: InsertAuditEntry_def Let_def run_stmt_def ex_entry_def empty_db_def fk_def admin_audit_chain_hash_def ex_entry_check)
  show "VerifyAuditChain ex_xd (audit_run ex_xd [(1, ex_entry), (4, ex_entry)] empty_db) =
     Inr (0, audit_run ex_xd [(1, ex_entry), (4, ex_entry)] empty_db)"
    by (rule audit_chain_intact) (simp_all add: VerifyAuditChain_def empty_db_def)
qed


definition ex_audit_row :: "int \<Rightarrow> string \<Rightarrow> audit_row" where
  "ex_audit_row i prev =
     (let r = \<lparr>au_id = i, au_actor = ''ops'', au_action = ''dlq_purge'', au_target_id = Some ''n'', au_details = JNull, au_at = 0,
               au_actor_id = None, au_prev_hash = Some prev, au_row_hash = None\<rparr> in r\<lparr>au_row_hash := Some (expected_hash ex_xd r)\<rparr>)"


end
