(* ===== verification/Admin.thy ===== *)
theory Admin
  imports AuditLog Batch
begin

text \<open>
  The admin endpoints of \<open>internal/api/admin.go\<close>: inspecting, replaying and purging dead letters,
  revoking API keys and verifying the audit chain on demand.

  The replay reads the notification without locking it, so other transactions can act between the read
  and the writes; they are the argument \<open>re_between\<close>. Its writes are one transaction: each call can be
  lost, and the commit can fail before or after it takes effect.
\<close>

record dead_letter_response =
  dr_id :: int
  dr_notification_id :: uuid
  dr_reason :: string
  dr_dlq_at :: time
  dr_payload :: json

definition dead_letter_row :: "dead_letter \<Rightarrow> dead_letter_response" where
  "dead_letter_row r =
     \<lparr>dr_id = dl_id r, dr_notification_id = dl_notification_id r, dr_reason = dl_reason r, dr_dlq_at = dl_dlq_at r, dr_payload = dl_payload r\<rparr>"

definition admin_list :: "string \<Rightarrow> call_env \<Rightarrow> string \<Rightarrow> db \<Rightarrow> dead_letter_response list reply" where
  "admin_list cid e ch d =
     (if ch \<noteq> [] \<and> \<not> Channel_Valid ch then WriteValidationProblem cid [field_err ''channel'' ''invalid'']
      else
        (case fst (run_stmt (cl_fault e) (ListDeadLetters ch 100) d) of
           Inl err \<Rightarrow> WriteErrorAsProblem cid (Some (wrap_db (cl_ctx e) ''list dead letters'' err))
         | Inr rows \<Rightarrow> Done 200 (map dead_letter_row rows)))"

definition admin_get :: "deps \<Rightarrow> string \<Rightarrow> call_env \<Rightarrow> string \<Rightarrow> db \<Rightarrow> dead_letter_response reply" where
  "admin_get dp cid e idp d =
     (case uuid_parse dp idp of
        None \<Rightarrow> WriteValidationProblem cid [field_err ''id'' ''must be a notification UUID'']
      | Some nid \<Rightarrow>
          (case fst (run_stmt (cl_fault e) (GetDeadLetterByNotification nid) d) of
             Inl err \<Rightarrow> query_problem cid (cl_ctx e) ErrNotFound ''get dead letter'' err
           | Inr row \<Rightarrow> Done 200 (dead_letter_row row)))"

subsection \<open>Replay\<close>

record replay_env =
  re_now :: time
  re_outbox_id :: uuid
  re_serial :: int
  re_begin_lost :: bool
  re_get_lost :: bool
  re_between :: "db \<Rightarrow> db"
  re_reset_lost :: bool
  re_delete_lost :: bool
  re_insert_lost :: bool
  re_audit_lost :: bool
  re_commit :: fault
  re_ctx :: "string option"

definition key_name :: "authed_key option \<Rightarrow> string" where
  "key_name key = (case key of None \<Rightarrow> [] | Some k \<Rightarrow> ak_Name k)"

definition key_id :: "authed_key option \<Rightarrow> string" where
  "key_id key = (case key of None \<Rightarrow> [] | Some k \<Rightarrow> ak_ID k)"

definition replay_payload :: "deps \<Rightarrow> uuid \<Rightarrow> notification \<Rightarrow> json" where
  "replay_payload dp nid r =
     envelope_json (uuid_str dp nid) (n_channel r) (n_recipient r) (n_content r) (PriorityFromInt (n_priority r)) (n_correlation_id r)"

definition replay_tx :: "deps \<Rightarrow> audit_deps \<Rightarrow> replay_env \<Rightarrow> authed_key option \<Rightarrow> uuid \<Rightarrow> notification \<Rightarrow> unit tx" where
  "replay_tx dp xd e key nid notif =
     bind_tx (tx_step ''reset notification'' (re_reset_lost e) (ResetNotification (re_now e) nid)) (\<lambda>_.
     bind_tx (tx_step ''delete dead letter'' (re_delete_lost e) (DeleteDeadLetter nid)) (\<lambda>_.
     bind_tx (tx_step ''insert outbox'' (re_insert_lost e)
       (InsertOutbox (re_now e) (re_outbox_id e) nid (''notification.'' @ n_channel notif) (replay_payload dp nid notif)
         (JObj [(''x-correlation-id'', JStr (n_correlation_id notif))]) (n_priority notif))) (\<lambda>_.
     bind_tx (tx_step ''audit insert'' (re_audit_lost e)
       (InsertAuditEntry xd (re_now e) (re_serial e) (key_name key) (parseActorID dp (key_id key)) ''dlq_replay''
         (Some (uuid_str dp nid)) (JObj [(''reason'', JStr ''manual replay'')]))) (\<lambda>_.
     return_tx ()))))"

definition replay ::
  "deps \<Rightarrow> audit_deps \<Rightarrow> string \<Rightarrow> replay_env \<Rightarrow> authed_key option \<Rightarrow> string \<Rightarrow> db \<Rightarrow> (uuid \<times> string) reply \<times> db" where
  "replay dp xd cid e key idp d =
     (case uuid_parse dp idp of
        None \<Rightarrow> (WriteValidationProblem cid [field_err ''id'' ''must be a notification UUID''], d)
      | Some nid \<Rightarrow>
          if re_begin_lost e then (WriteErrorAsProblem cid (Some (wrap_db (re_ctx e) ''begin tx'' ErrInfra)), d)
          else
            (case guard_stmt (re_get_lost e) (GetNotificationByID nid) d of
               Inl err \<Rightarrow> (query_problem cid (re_ctx e) ErrNotFound ''get notification'' err, d)
             | Inr (notif, _) \<Rightarrow>
                 if n_status notif \<noteq> StatusDeadLetter then
                   (WriteErrorAsProblem cid (Some (Sentinel ErrInvalidState
                      (sentinel_text ErrInvalidState @ '': only dead_letter is replayable, got '' @ status_string (n_status notif)))), d)
                 else
                   (case run_tx False (re_commit e) (replay_tx dp xd e key nid notif) (re_between e d) of
                      (Inl err, d') \<Rightarrow> (tx_problem cid (re_ctx e) err, d')
                    | (Inr _, d') \<Rightarrow> (Done 200 (nid, ''pending''), d'))))"

subsection \<open>Purge, revocation and verification\<close>

record purge_env =
  ue_now :: time
  ue_serial :: int
  ue_delete :: fault
  ue_audit :: fault
  ue_ctx :: "string option"

definition purge :: "deps \<Rightarrow> audit_deps \<Rightarrow> string \<Rightarrow> purge_env \<Rightarrow> authed_key option \<Rightarrow> string \<Rightarrow> db \<Rightarrow> unit reply \<times> db" where
  "purge dp xd cid e key idp d =
     (case uuid_parse dp idp of
        None \<Rightarrow> (WriteValidationProblem cid [field_err ''id'' ''must be a notification UUID''], d)
      | Some nid \<Rightarrow>
          (case run_stmt (ue_delete e) (DeleteDeadLetter nid) d of
             (Inl err, d') \<Rightarrow> (WriteErrorAsProblem cid (Some (wrap_db (ue_ctx e) ''delete dead letter'' err)), d')
           | (Inr _, d') \<Rightarrow>
               (Done 204 (),
                snd (run_stmt (ue_audit e)
                  (InsertAuditEntry xd (ue_now e) (ue_serial e) (key_name key) (parseActorID dp (key_id key)) ''dlq_purge''
                    (Some (uuid_str dp nid)) (JObj [])) d'))))"

record revoke_env =
  ve_now :: time
  ve_serial :: int
  ve_redis :: bool
  ve_revoke :: fault
  ve_mark :: fault
  ve_audit :: fault
  ve_ctx :: "string option"

definition revokeAPIKey ::
  "deps \<Rightarrow> audit_deps \<Rightarrow> string \<Rightarrow> revoke_env \<Rightarrow> authed_key option \<Rightarrow> string \<Rightarrow> db \<Rightarrow> auth_val redis \<Rightarrow>
   (uuid \<times> bool) reply \<times> db \<times> auth_val redis" where
  "revokeAPIKey dp xd cid e key idp d s =
     (case uuid_parse dp idp of
        None \<Rightarrow> (WriteValidationProblem cid [field_err ''id'' ''must be an api_key UUID''], d, s)
      | Some kid \<Rightarrow>
          (case run_stmt (ve_revoke e) (RevokeAPIKey (ve_now e) kid) d of
             (Inl err, d') \<Rightarrow> (WriteErrorAsProblem cid (Some (wrap_db (ve_ctx e) ''revoke api key'' err)), d', s)
           | (Inr _, d') \<Rightarrow>
               (Done 200 (kid, ve_redis e),
                snd (run_stmt (ve_audit e)
                  (InsertAuditEntry xd (ve_now e) (ve_serial e) (key_name key) (parseActorID dp (key_id key)) ''key_revoke''
                    (Some (uuid_str dp kid)) (JObj [(''revoked_via_cache_marker'', JBool (ve_redis e))])) d'),
                if ve_redis e then MarkKeyRevoked (ve_mark e) (ve_now e) (uuid_str dp kid) s else s)))"

definition verifyAuditChain :: "audit_deps \<Rightarrow> string \<Rightarrow> bool \<Rightarrow> fault \<Rightarrow> string option \<Rightarrow> db \<Rightarrow> (int \<times> bool) reply" where
  "verifyAuditChain xd cid configured f ctx d =
     (if \<not> configured then WriteErrorAsProblem cid (Some (OtherErr ''audit verifier not configured''))
      else
        (case VerifyOnce xd f d of
           Inl err \<Rightarrow> WriteErrorAsProblem cid (Some (wrap_db ctx ''verify audit chain'' err))
         | Inr n \<Rightarrow> Done 200 (n, n = 0)))"

subsection \<open>Lemmas\<close>

lemma InsertAuditEntry_wf [wf_intros]: "keeps_wf (InsertAuditEntry xd now serial actor aid action target details)"
  by (rule keeps_wfI) (auto dest!: InsertAuditEntry_Inr(1) simp: db_wf_def)

lemma replay_tx_wf: "tx_keeps_wf (replay_tx dp xd e key nid notif)"
  unfolding replay_tx_def by (intro wf_intros)

definition reset_row :: "time \<Rightarrow> notification \<Rightarrow> notification" where
  "reset_row now r =
     r\<lparr>n_status := StatusPending, n_attempt_count := 0, n_last_error := None, n_sent_at := None, n_updated_at := now\<rparr>"

text \<open>
  The effect of a committed replay: the notification starts over, its dead letter is gone, one outbox
  row carries it again and one audit row names the caller; nothing else changes.
\<close>

definition replayed :: "deps \<Rightarrow> authed_key option \<Rightarrow> time \<Rightarrow> uuid \<Rightarrow> notification \<Rightarrow> notification \<Rightarrow> db \<Rightarrow> db \<Rightarrow> bool" where
  "replayed dp key now nid notif r d d' \<longleftrightarrow>
     row_of nid d = Some r \<and> row_of nid d' = Some (reset_row now r) \<and> (\<forall>k. k \<noteq> nid \<longrightarrow> row_of k d' = row_of k d) \<and>
     dead_letters d' = filter (\<lambda>x. dl_notification_id x \<noteq> nid) (dead_letters d) \<and>
     (\<exists>o1. outbox d' = outbox d @ [o1] \<and> carries dp notif o1) \<and>
     (\<exists>a. admin_audit d' = admin_audit d @ [a] \<and> au_action a = ''dlq_replay'' \<and> au_actor a = key_name key \<and>
          au_target_id a = Some (uuid_str dp nid)) \<and>
     scheduled_notifications d' = scheduled_notifications d \<and> delivery_attempts d' = delivery_attempts d \<and>
     batches d' = batches d \<and> templates d' = templates d \<and> api_keys d' = api_keys d"

lemma replay_tx_Inr:
  assumes "replay_tx dp xd e key nid notif d = Inr (u, d')" "n_id notif = nid"
  shows "\<exists>r. replayed dp key (re_now e) nid notif r d d'"
proof -
  obtain d1 d2 d3 o1 a where
    r: "ResetNotification (re_now e) nid d = Inr ((), d1)" and x: "DeleteDeadLetter nid d1 = Inr ((), d2)"
    and o: "InsertOutbox (re_now e) (re_outbox_id e) nid (''notification.'' @ n_channel notif) (replay_payload dp nid notif)
         (JObj [(''x-correlation-id'', JStr (n_correlation_id notif))]) (n_priority notif) d2 = Inr (o1, d3)"
    and a: "InsertAuditEntry xd (re_now e) (re_serial e) (key_name key) (parseActorID dp (key_id key)) ''dlq_replay''
         (Some (uuid_str dp nid)) (JObj [(''reason'', JStr ''manual replay'')]) d3 = Inr (a, d')"
    using assms(1) by (auto simp: replay_tx_def tx_Inr)
  have d1: "d1 = d\<lparr>notifications := upd (\<lambda>r. n_id r = nid) (reset_row (re_now e)) (notifications d)\<rparr>"
    using update_notification_exec_Inr[OF r[unfolded ResetNotification_def]] by (simp add: reset_row_def[abs_def])
  have d2: "d2 = d1\<lparr>dead_letters := filter (\<lambda>x. dl_notification_id x \<noteq> nid) (dead_letters d1)\<rparr>"
    using x by (simp add: DeleteDeadLetter_def)
  note d3 = InsertOutbox_db[OF o] and a' = InsertAuditEntry_Inr[OF a]
  have c: "carries dp notif o1"
    by (rule carries_payload, rule trans[OF _ o]) (simp add: replay_payload_def RoutingKey_def assms(2))
  have look: "row_of k d' = map_option (\<lambda>r. if n_id r = nid then reset_row (re_now e) r else r) (row_of k d)" for k
    by (simp add: row_of_def a'(1) d3 d2 d1 sel_upd reset_row_def)
  have "sel n_id nid (notifications d2) \<noteq> None" using o by (auto simp: InsertOutbox_def Let_def split: if_splits)
  then have "row_of nid d2 \<noteq> None" by (simp add: row_of_def)
  moreover have "row_of nid d2 = row_of nid d'" by (simp add: row_of_def a'(1) d3)
  ultimately obtain r0 where r0: "row_of nid d = Some r0" using look[of nid] by (cases "row_of nid d") auto
  have "n_id r0 = nid" using r0 by (auto simp: row_of_def dest: sel_key)
  moreover have "row_of k d' = row_of k d" if "k \<noteq> nid" for k
    using look[of k] that by (auto simp: row_of_def map_option_case dest: sel_key split: option.splits)
  ultimately show ?thesis
    using r0 look[of nid] c a' by (auto simp: replayed_def d3 d2 d1)
qed

text \<open>Purging touches the dead letters and the audit log only.\<close>

lemma purge_effect:
  assumes "purge dp xd cid e key idp d = (reply, d')"
  shows "notifications d' = notifications d" "outbox d' = outbox d"
    "accepted reply \<Longrightarrow> uuid_parse dp idp = Some nid \<Longrightarrow> sel dl_notification_id nid (dead_letters d') = None"
proof -
  have ins: "notifications (snd (run_stmt f (InsertAuditEntry xd t s a i act tg x) d1)) = notifications d1 \<and>
      outbox (snd (run_stmt f (InsertAuditEntry xd t s a i act tg x) d1)) = outbox d1 \<and>
      dead_letters (snd (run_stmt f (InsertAuditEntry xd t s a i act tg x) d1)) = dead_letters d1" for f t s a i act tg x d1
    using run_stmt_cases[of f "InsertAuditEntry xd t s a i act tg x" d1] by (auto dest!: InsertAuditEntry_Inr(1))
  have del: "DeleteDeadLetter n d = Inr ((), d\<lparr>dead_letters := filter (\<lambda>r. dl_notification_id r \<noteq> n) (dead_letters d)\<rparr>)" for n
    by (simp add: DeleteDeadLetter_def)
  show "notifications d' = notifications d" "outbox d' = outbox d"
    using assms ins by (auto simp: purge_def run_stmt_def[of _ "DeleteDeadLetter _"] del split: option.splits fault.splits)
  show "accepted reply \<Longrightarrow> uuid_parse dp idp = Some nid \<Longrightarrow> sel dl_notification_id nid (dead_letters d') = None"
    using assms ins by (auto simp: purge_def run_stmt_def[of _ "DeleteDeadLetter _"] del sel_filter_out split: fault.splits)
qed

subsection \<open>Properties\<close>


end
