(* ===== verification/Ws.thy ===== *)
theory Ws
  imports Request Events
begin

text \<open>
  The WebSocket fan-out of \<open>internal/ws\<close>: filters, the hub and the life of a connection, with the
  subject resolver of \<open>internal/api/router.go\<close>.

  The hub's map of subscribers is a list with distinct ids; Go's random iteration order over it has no
  effect on the outcome, since a dispatch treats every subscriber by itself. A subscriber's buffered
  channel is the list \<open>su_send\<close>; \<open>su_got\<close> is what its write pump has written to the connection and
  \<open>su_seen\<close>, a history variable, every matching event dispatched since it registered. Decoding an
  event, the WebSocket library and URL syntax are parameters.
\<close>

subsection \<open>Filters\<close>

record ws_filter =
  wf_BatchID :: "uuid option"
  wf_Channel :: string
  wf_OwnerID :: "uuid option"
  wf_AdminBypass :: bool

definition zero_filter :: ws_filter where
  "zero_filter = \<lparr>wf_BatchID = None, wf_Channel = [], wf_OwnerID = None, wf_AdminBypass = False\<rparr>"

datatype filter_error = Malformed string | BadBatchID string | BadChannel string | UnknownKey string

text \<open>\<open>strings.SplitN(s, ":", 2)\<close> when there is a colon.\<close>

definition split_colon :: "string \<Rightarrow> (string \<times> string) option" where
  "split_colon s =
     (case dropWhile (\<lambda>c. c \<noteq> CHR '':'') s of
        [] \<Rightarrow> None
      | _ # rest \<Rightarrow> Some (takeWhile (\<lambda>c. c \<noteq> CHR '':'') s, rest))"

fun parse_parts :: "deps \<Rightarrow> string list \<Rightarrow> ws_filter \<Rightarrow> filter_error + ws_filter" where
  "parse_parts dp [] f = Inr f"
| "parse_parts dp (part # parts) f =
     (case split_colon (trim_space part) of
        None \<Rightarrow> Inl (Malformed part)
      | Some (k0, v0) \<Rightarrow>
          (let k = trim_space k0; v = trim_space v0 in
           if k = ''batch_id'' then
             (case uuid_parse dp v of
                None \<Rightarrow> Inl (BadBatchID v)
              | Some u \<Rightarrow> parse_parts dp parts (f\<lparr>wf_BatchID := Some u\<rparr>))
           else if k = ''channel'' then
             (if v = ''sms'' \<or> v = ''email'' \<or> v = ''push'' then parse_parts dp parts (f\<lparr>wf_Channel := v\<rparr>)
              else Inl (BadChannel v))
           else Inl (UnknownKey k)))"

definition ParseFilter :: "deps \<Rightarrow> string \<Rightarrow> filter_error + ws_filter" where
  "ParseFilter dp s = (if s = [] then Inr zero_filter else parse_parts dp (split_on CHR '','' s) zero_filter)"

definition Matches :: "ws_filter \<Rightarrow> uuid option \<Rightarrow> string \<Rightarrow> uuid option \<Rightarrow> bool" where
  "Matches f batch ch owner =
     (if \<not> wf_AdminBypass f \<and> (wf_OwnerID f = None \<or> owner = None \<or> owner \<noteq> wf_OwnerID f) then False
      else if wf_Channel f \<noteq> [] \<and> wf_Channel f \<noteq> ch then False
      else if wf_BatchID f \<noteq> None \<and> (batch = None \<or> batch \<noteq> wf_BatchID f) then False
      else True)"

record subject =
  sj_OwnerID :: "uuid option"
  sj_AdminBypass :: bool

definition resolveWSSubject :: "deps \<Rightarrow> authed_key option \<Rightarrow> subject" where
  "resolveWSSubject dp key =
     (case key of
        None \<Rightarrow> \<lparr>sj_OwnerID = None, sj_AdminBypass = False\<rparr>
      | Some k \<Rightarrow> \<lparr>sj_OwnerID = uuid_parse dp (ak_ID k), sj_AdminBypass = HasScope k ScopeAdmin\<rparr>)"

definition loadAllowedOrigins :: "(string \<Rightarrow> string option) \<Rightarrow> string \<Rightarrow> string list" where
  "loadAllowedOrigins url_host env =
     (if trim_space env = [] then []
      else map (\<lambda>p. case url_host p of Some h \<Rightarrow> if h \<noteq> [] then h else p | None \<Rightarrow> p)
             (filter (\<lambda>p. p \<noteq> []) (map trim_space (split_on CHR '','' (trim_space env)))))"

subsection \<open>The hub\<close>

type_synonym payload = string

text \<open>The fields of an event the hub reads: batch, channel and owner.\<close>

type_synonym decoder = "payload \<Rightarrow> (uuid option \<times> string \<times> uuid option) option"

record subscriber =
  su_id :: "64 word"
  su_key :: "authed_key option"
  su_filter :: ws_filter
  su_send :: "payload list"
  su_closed :: "string option"
  su_pumping :: bool
  su_got :: "payload list"
  su_seen :: "payload list"

record hub =
  h_nextID :: "64 word"
  h_subs :: "subscriber list"

definition sendBuffer :: nat where "sendBuffer = 256"

definition NewHub :: hub where
  "NewHub = \<lparr>h_nextID = 0, h_subs = []\<rparr>"

definition Register :: "authed_key option \<Rightarrow> ws_filter \<Rightarrow> hub \<Rightarrow> 64 word \<times> hub" where
  "Register key f h =
     (let i = h_nextID h + 1;
          s = \<lparr>su_id = i, su_key = key, su_filter = f, su_send = [], su_closed = None, su_pumping = True, su_got = [], su_seen = []\<rparr>
      in (i, h\<lparr>h_nextID := i, h_subs := filter (\<lambda>s. su_id s \<noteq> i) (h_subs h) @ [s]\<rparr>))"

definition Unregister :: "64 word \<Rightarrow> hub \<Rightarrow> hub" where
  "Unregister i h = h\<lparr>h_subs := filter (\<lambda>s. su_id s \<noteq> i) (h_subs h)\<rparr>"

text \<open>The connection's close function runs once.\<close>

definition close_sub :: "string \<Rightarrow> subscriber \<Rightarrow> subscriber" where
  "close_sub reason s = (if su_closed s = None then s\<lparr>su_closed := Some reason\<rparr> else s)"

definition offer :: "payload \<Rightarrow> subscriber \<Rightarrow> subscriber" where
  "offer p s =
     (let s1 = s\<lparr>su_seen := su_seen s @ [p]\<rparr> in
      if length (su_send s) < sendBuffer then s1\<lparr>su_send := su_send s @ [p]\<rparr> else close_sub ''slow_consumer'' s1)"

definition dispatch :: "decoder \<Rightarrow> payload \<Rightarrow> hub \<Rightarrow> hub" where
  "dispatch dec p h =
     (case dec p of
        None \<Rightarrow> h
      | Some (batch, ch, owner) \<Rightarrow>
          h\<lparr>h_subs := map (\<lambda>s. if Matches (su_filter s) batch ch owner then offer p s else s) (h_subs h)\<rparr>)"

definition broadcastClose :: "string \<Rightarrow> hub \<Rightarrow> hub" where
  "broadcastClose reason h = h\<lparr>h_subs := map (close_sub reason) (h_subs h)\<rparr>"

definition Count :: "hub \<Rightarrow> nat" where
  "Count h = length (h_subs h)"

text \<open>The upgrade handler up to the registration; \<open>None\<close> when the upgrade itself fails.\<close>

definition ws_Handler :: "deps \<Rightarrow> authed_key option \<Rightarrow> string \<Rightarrow> bool \<Rightarrow> hub \<Rightarrow> (filter_error + 64 word) option \<times> hub" where
  "ws_Handler dp key q upgraded h =
     (case ParseFilter dp q of
        Inl err \<Rightarrow> (Some (Inl err), h)
      | Inr f \<Rightarrow>
          (let subj = resolveWSSubject dp key; f' = f\<lparr>wf_OwnerID := sj_OwnerID subj, wf_AdminBypass := sj_AdminBypass subj\<rparr> in
           if \<not> upgraded then (None, h)
           else (case Register key f' h of (i, h') \<Rightarrow> (Some (Inr i), h'))))"

text \<open>One turn of the write pump: the next message is written, or the write fails and the pump ends.\<close>

definition writePump :: "bool \<Rightarrow> subscriber \<Rightarrow> subscriber" where
  "writePump ok s =
     (case su_send s of
        [] \<Rightarrow> s
      | p # ps \<Rightarrow>
          if \<not> su_pumping s \<or> su_closed s \<noteq> None then s
          else if ok then s\<lparr>su_send := ps, su_got := su_got s @ [p]\<rparr>
          else s\<lparr>su_send := ps, su_pumping := False\<rparr>)"

text \<open>Everything that can happen to a hub, in any order.\<close>

inductive hub_step :: "deps \<Rightarrow> decoder \<Rightarrow> hub \<Rightarrow> hub \<Rightarrow> bool" for dp dec where
  connect: "ws_Handler dp key q up h = (r, h') \<Longrightarrow> hub_step dp dec h h'"
| leave: "hub_step dp dec h (Unregister i h)"
| event: "hub_step dp dec h (dispatch dec p h)"
| pump: "hub_step dp dec h (h\<lparr>h_subs := upd (\<lambda>s. su_id s = i) (writePump ok) (h_subs h)\<rparr>)"
| heartbeat_lost: "hub_step dp dec h (h\<lparr>h_subs := upd (\<lambda>s. su_id s = i) (su_pumping_update (\<lambda>_. False)) (h_subs h)\<rparr>)"
| shutdown: "hub_step dp dec h (broadcastClose ''server shutdown'' h)"

inductive_cases hub_stepE: "hub_step dp dec h h'"

subsection \<open>The invariant\<close>

definition visible_to :: "deps \<Rightarrow> decoder \<Rightarrow> subscriber \<Rightarrow> payload \<Rightarrow> bool" where
  "visible_to dp dec s p =
     (case dec p of None \<Rightarrow> False | Some (batch, ch, owner) \<Rightarrow> may_access dp (su_key s) owner \<and> Matches (su_filter s) batch ch owner)"

definition sub_ok :: "deps \<Rightarrow> decoder \<Rightarrow> subscriber \<Rightarrow> bool" where
  "sub_ok dp dec s \<longleftrightarrow>
     wf_OwnerID (su_filter s) = ownerFromCtx dp (su_key s) \<and> wf_AdminBypass (su_filter s) = is_admin (su_key s) \<and>
     length (su_send s) \<le> sendBuffer \<and> list_all (visible_to dp dec s) (su_seen s) \<and>
     set (su_got s) \<subseteq> set (su_seen s) \<and> set (su_send s) \<subseteq> set (su_seen s) \<and>
     (su_closed s = None \<and> su_pumping s \<longrightarrow> su_got s @ su_send s = su_seen s)"

definition hub_ok :: "deps \<Rightarrow> decoder \<Rightarrow> hub \<Rightarrow> bool" where
  "hub_ok dp dec h \<longleftrightarrow> list_all (sub_ok dp dec) (h_subs h) \<and> distinct (map su_id (h_subs h))"

lemma Matches_access:
  "Matches f batch ch owner \<Longrightarrow> wf_OwnerID f = ownerFromCtx dp key \<Longrightarrow> wf_AdminBypass f = is_admin key \<Longrightarrow> may_access dp key owner"
  by (auto simp: Matches_def may_access_def split: if_splits)

lemma resolve_subject: "sj_OwnerID (resolveWSSubject dp key) = ownerFromCtx dp key" "sj_AdminBypass (resolveWSSubject dp key) = is_admin key"
  by (simp_all add: resolveWSSubject_def ownerFromCtx_def is_admin_def split: option.splits)

lemma visible_to_cong: "su_key s' = su_key s \<Longrightarrow> su_filter s' = su_filter s \<Longrightarrow> visible_to dp dec s' = visible_to dp dec s"
  by (simp add: visible_to_def fun_eq_iff split: option.splits)

lemma close_sub_simps [simp]:
  "su_id (close_sub m s) = su_id s" "su_key (close_sub m s) = su_key s" "su_filter (close_sub m s) = su_filter s"
  "su_send (close_sub m s) = su_send s" "su_got (close_sub m s) = su_got s" "su_seen (close_sub m s) = su_seen s"
  "su_pumping (close_sub m s) = su_pumping s" "su_closed (close_sub m s) \<noteq> None"
  by (auto simp: close_sub_def)

lemma close_sub_ok: "sub_ok dp dec s \<Longrightarrow> sub_ok dp dec (close_sub m s)"
  using visible_to_cong[of "close_sub m s" s] by (simp add: sub_ok_def)

lemma offer_simps [simp]: "su_id (offer p s) = su_id s" "su_key (offer p s) = su_key s" "su_filter (offer p s) = su_filter s"
  by (simp_all add: offer_def Let_def)

lemma offer_ok:
  assumes "sub_ok dp dec s" "dec p = Some (batch, ch, owner)" "Matches (su_filter s) batch ch owner"
  shows "sub_ok dp dec (offer p s)"
proof -
  have v: "visible_to dp dec s p"
    using assms Matches_access[OF assms(3)] by (auto simp: visible_to_def sub_ok_def)
  have vc: "visible_to dp dec (offer p s) = visible_to dp dec s" by (rule visible_to_cong) simp_all
  have seen: "su_seen (offer p s) = su_seen s @ [p]" by (simp add: offer_def Let_def)
  have cl: "su_closed (offer p s) = None \<Longrightarrow> length (su_send s) < sendBuffer \<and> su_closed s = None"
    by (auto simp: offer_def Let_def split: if_splits)
  have send: "su_send (offer p s) = (if length (su_send s) < sendBuffer then su_send s @ [p] else su_send s)"
    "su_got (offer p s) = su_got s" "su_pumping (offer p s) = su_pumping s"
    by (simp_all add: offer_def Let_def)
  show ?thesis
    using assms(1) v cl by (auto simp: sub_ok_def vc seen send list_all_iff append_assoc[symmetric] simp del: append_assoc)
qed

lemma writePump_simps [simp]:
  "su_id (writePump ok s) = su_id s" "su_key (writePump ok s) = su_key s" "su_filter (writePump ok s) = su_filter s"
  "su_seen (writePump ok s) = su_seen s" "su_closed (writePump ok s) = su_closed s"
  by (simp_all add: writePump_def split: list.splits)

lemma writePump_ok: "sub_ok dp dec s \<Longrightarrow> sub_ok dp dec (writePump ok s)"
proof -
  assume s: "sub_ok dp dec s"
  have vc: "visible_to dp dec (writePump ok s) = visible_to dp dec s" by (rule visible_to_cong) simp_all
  show ?thesis
  proof (cases "su_send s")
    case Nil
    then have "writePump ok s = s" by (simp add: writePump_def)
    then show ?thesis using s by simp
  next
    case (Cons p ps)
    then show ?thesis using s by (auto simp: sub_ok_def vc) (auto simp: writePump_def split: if_splits)
  qed
qed

lemma hub_step_ok:
  assumes "hub_step dp dec h h'" "hub_ok dp dec h"
  shows "hub_ok dp dec h'"
  using assms
proof (cases rule: hub_step.cases)
  case (connect key q up r)
  show ?thesis
  proof (cases "h' = h")
    case False
    then obtain f i where h': "Register key
        (f\<lparr>wf_OwnerID := sj_OwnerID (resolveWSSubject dp key), wf_AdminBypass := sj_AdminBypass (resolveWSSubject dp key)\<rparr>) h = (i, h')"
      using connect by (auto simp: ws_Handler_def Let_def split: sum.splits if_splits prod.splits)
    show ?thesis
      using assms(2) h'
      by (auto simp: Register_def Let_def hub_ok_def list_all_iff sub_ok_def resolve_subject distinct_map_filterI)
  qed (use assms in simp)
next
  case (leave i)
  then show ?thesis using assms(2) by (auto simp: Unregister_def hub_ok_def list_all_iff distinct_map_filterI)
next
  case (event p)
  show ?thesis
  proof (cases "dec p")
    case None
    then show ?thesis using event assms(2) by (simp add: dispatch_def)
  next
    case (Some x)
    obtain batch ch owner where x: "x = (batch, ch, owner)" by (cases x) auto
    have "map su_id (map (\<lambda>s. if Matches (su_filter s) batch ch owner then offer p s else s) (h_subs h)) = map su_id (h_subs h)"
      by (simp add: comp_def if_distrib)
    then show ?thesis
      using event assms(2) offer_ok Some x by (auto simp: dispatch_def hub_ok_def list_all_iff simp del: map_map)
  qed
next
  case (pump i ok)
  then show ?thesis
    using assms(2) writePump_ok by (auto simp: hub_ok_def list_all_iff map_key_upd elim!: set_updE)
next
  case (heartbeat_lost i)
  have "sub_ok dp dec s \<Longrightarrow> sub_ok dp dec (s\<lparr>su_pumping := False\<rparr>)" for s
    using visible_to_cong[of "s\<lparr>su_pumping := False\<rparr>" s] by (simp add: sub_ok_def)
  then show ?thesis
    using heartbeat_lost assms(2) by (auto simp: hub_ok_def list_all_iff map_key_upd elim!: set_updE)
next
  case shutdown
  then show ?thesis using assms(2) close_sub_ok by (auto simp: broadcastClose_def hub_ok_def list_all_iff comp_def)
qed

lemma reachable_ok: "(hub_step dp dec)\<^sup>*\<^sup>* NewHub h \<Longrightarrow> hub_ok dp dec h"
  by (induction rule: rtranclp_induct) (auto simp: NewHub_def hub_ok_def dest: hub_step_ok)

subsection \<open>Properties\<close>

text \<open>
  A connection receives only events it may see. In every state the hub can reach, whatever connects,
  leaves, stalls or is published, each event written to a connection is one of a notification that the
  connection's key owns (any event when the key is an admin's) and that matches the connection's
  filter: the same rule as for reading notifications over HTTP.
\<close>

theorem ws_owner_gate:
  assumes "(hub_step dp dec)\<^sup>*\<^sup>* NewHub h" "s \<in> set (h_subs h)" "p \<in> set (su_got s)"
  shows "\<exists>batch ch owner. dec p = Some (batch, ch, owner) \<and> may_access dp (su_key s) owner \<and> Matches (su_filter s) batch ch owner"
proof -
  have "sub_ok dp dec s" using reachable_ok[OF assms(1)] assms(2) by (simp add: hub_ok_def list_all_iff)
  then have "visible_to dp dec s p" using assms(3) by (auto simp: sub_ok_def list_all_iff)
  then show ?thesis by (auto simp: visible_to_def split: option.splits)
qed

definition ex_dec :: decoder where
  "ex_dec p = (if p = ''mine'' then Some (None, ''sms'', Some 1) else Some (None, ''sms'', Some 2))"

definition ex_ws_key :: authed_key where
  "ex_ws_key = \<lparr>ak_ID = ''a'', ak_Name = ''k'', ak_Scopes = [ScopeRead]\<rparr>"

definition ex_ws_deps :: deps where
  "ex_ws_deps = \<lparr>uuid_str = (\<lambda>_. []), uuid_parse = (\<lambda>_. Some 1), fmt_q = id, json_of = (\<lambda>_. NotJson), time_ok = (\<lambda>_. True),
                 http_time = (\<lambda>_. None), err_open_state = [], err_too_many = [], db_err_text = (\<lambda>_. [])\<rparr>"

definition ex_hub :: hub where
  "ex_hub = snd (ws_Handler ex_ws_deps (Some ex_ws_key) [] True NewHub)"

definition ex_hub2 :: hub where
  "ex_hub2 = dispatch ex_dec ''other'' (dispatch ex_dec ''mine'' ex_hub)"

definition ex_hub3 :: hub where
  "ex_hub3 = ex_hub2\<lparr>h_subs := upd (\<lambda>s. su_id s = 1) (writePump True) (h_subs ex_hub2)\<rparr>"

lemma ex_hub_reachable: "(hub_step ex_ws_deps ex_dec)\<^sup>*\<^sup>* NewHub ex_hub2" "(hub_step ex_ws_deps ex_dec)\<^sup>*\<^sup>* NewHub ex_hub3"
proof -
  have "hub_step ex_ws_deps ex_dec NewHub ex_hub" unfolding ex_hub_def by (rule connect[OF prod.collapse[symmetric]])
  then show *: "(hub_step ex_ws_deps ex_dec)\<^sup>*\<^sup>* NewHub ex_hub2"
    unfolding ex_hub2_def by (meson event r_into_rtranclp rtranclp.rtrancl_into_rtrancl)
  show "(hub_step ex_ws_deps ex_dec)\<^sup>*\<^sup>* NewHub ex_hub3"
    unfolding ex_hub3_def by (rule rtranclp.rtrancl_into_rtrancl[OF *]) (rule pump)
qed

lemma ex_hub_subs:
  "\<exists>s. h_subs ex_hub2 = [s] \<and> su_send s = [''mine''] \<and> su_got s = [] \<and> su_seen s = [''mine''] \<and> su_closed s = None \<and> su_pumping s"
  "\<exists>s. h_subs ex_hub3 = [s] \<and> su_got s = [''mine''] \<and> su_key s = Some ex_ws_key"
  by (simp_all add: ex_hub3_def ex_hub2_def ex_hub_def dispatch_def ex_dec_def ws_Handler_def ParseFilter_def Let_def Register_def NewHub_def
      zero_filter_def resolve_subject Matches_def ownerFromCtx_def is_admin_def ex_ws_key_def ex_ws_deps_def HasScope_def offer_def sendBuffer_def
      writePump_def)

theorem ws_owner_gate_witness:
  "\<exists>s. s \<in> set (h_subs ex_hub3) \<and> su_got s = [''mine''] \<and> (\<exists>batch ch owner. ex_dec ''mine'' = Some (batch, ch, owner) \<and> may_access ex_ws_deps (Some ex_ws_key) owner)"
proof -
  obtain s where s: "h_subs ex_hub3 = [s]" "su_got s = [''mine'']" "su_key s = Some ex_ws_key" using ex_hub_subs(2) by blast
  then show ?thesis using ws_owner_gate[OF ex_hub_reachable(2), of s "''mine''"] by auto
qed

text \<open>
  C33: No event is lost silently. At every moment, for a connection that has not been closed and whose
  write pump runs, what was written followed by what is buffered is exactly the sequence of matching
  events since it connected, in order, with at most 256 of them buffered; a consumer that is too slow
  is closed rather than skipped.
\<close>

theorem ws_no_silent_loss:
  assumes "(hub_step dp dec)\<^sup>*\<^sup>* NewHub h" "s \<in> set (h_subs h)"
  shows "length (su_send s) \<le> 256 \<and> (su_got s @ su_send s = su_seen s \<or> su_closed s \<noteq> None \<or> \<not> su_pumping s)"
proof -
  have "sub_ok dp dec s" using reachable_ok[OF assms(1)] assms(2) by (simp add: hub_ok_def list_all_iff)
  then show ?thesis by (auto simp: sub_ok_def sendBuffer_def)
qed

theorem ws_no_silent_loss_witness:
  "\<exists>s. s \<in> set (h_subs ex_hub2) \<and> su_closed s = None \<and> su_pumping s \<and> su_got s @ su_send s = [''mine'']"
proof -
  obtain s where s: "h_subs ex_hub2 = [s]" "su_seen s = [''mine'']" "su_closed s = None" "su_pumping s" using ex_hub_subs(1) by blast
  then show ?thesis using ws_no_silent_loss[OF ex_hub_reachable(1), of s] by auto
qed

end
