(* ===== verification/Logging.thy ===== *)
theory Logging
  imports Worker
begin

text \<open>
  The log redaction of \<open>internal/observability/slog.go\<close>. An attribute is a key with the text of its
  value; SHA-256 is a parameter. Keys are the constants of the program, so lower-casing is ASCII.
\<close>

definition redacted :: string where "redacted = ''[REDACTED]''"

definition maskPhone :: "string \<Rightarrow> string" where
  "maskPhone s =
     (if length s < 6 then redacted
      else take 3 s @ replicate (max 1 (length s - 5)) (CHR ''*'') @ drop (length s - 2) s)"

text \<open>\<open>strings.IndexByte\<close>, when the byte occurs.\<close>

definition before_at :: "string \<Rightarrow> string" where "before_at s = takeWhile (\<lambda>c. c \<noteq> CHR ''@'') s"
definition from_at :: "string \<Rightarrow> string" where "from_at s = dropWhile (\<lambda>c. c \<noteq> CHR ''@'') s"

definition maskEmail :: "string \<Rightarrow> string" where
  "maskEmail s =
     (if from_at s = [] \<or> before_at s = [] then redacted
      else if length (before_at s) \<le> 1 then before_at s @ ''***'' @ from_at s
      else take 1 (before_at s) @ ''***'' @ from_at s)"

definition shortHash :: "(string \<Rightarrow> string) \<Rightarrow> string \<Rightarrow> string" where
  "shortHash sha4_hex s = (if s = [] then ''empty'' else sha4_hex s)"

text \<open>The digits are written from the right into a buffer.\<close>

fun itoa_loop :: "nat \<Rightarrow> string \<Rightarrow> string" where
  "itoa_loop n buf = (if n = 0 then buf else itoa_loop (n div 10) (digit (n mod 10) # buf))"

declare itoa_loop.simps [simp del]

definition itoa :: "nat \<Rightarrow> string" where
  "itoa n = (if n = 0 then ''0'' else itoa_loop n [])"

definition redact :: "(string \<Rightarrow> string) \<Rightarrow> string \<times> string \<Rightarrow> string \<times> string" where
  "redact sha4_hex a =
     (let k = map to_lower (fst a); v = snd a in
      if k = ''recipient'' \<or> k = ''phone'' then (fst a, maskPhone v)
      else if k = ''email'' then (fst a, maskEmail v)
      else if k = ''content'' \<or> k = ''body'' then (fst a, ''len='' @ itoa (length v) @ '' sha256:'' @ shortHash sha4_hex v)
      else if k \<in> {''api_key'', ''apikey'', ''secret'', ''password'', ''token''} then (fst a, redacted)
      else a)"

text \<open>The handler redacts the attributes of a record, and those bound to a logger.\<close>

definition PIIRedactHandler_Handle :: "(string \<Rightarrow> string) \<Rightarrow> (string \<times> string) list \<Rightarrow> (string \<times> string) list" where
  "PIIRedactHandler_Handle sha4_hex attrs = map (redact sha4_hex) attrs"

definition PIIRedactHandler_WithAttrs :: "(string \<Rightarrow> string) \<Rightarrow> (string \<times> string) list \<Rightarrow> (string \<times> string) list" where
  "PIIRedactHandler_WithAttrs sha4_hex attrs = map (redact sha4_hex) attrs"

lemma itoa_loop_show: "0 < n \<Longrightarrow> itoa_loop n buf = show_nat n @ buf"
proof (induction n arbitrary: buf rule: less_induct)
  case (less n)
  show ?case
  proof (cases "n < 10")
    case True
    then show ?thesis
      using less.prems by (simp add: itoa_loop.simps[of n] itoa_loop.simps[of 0] show_nat.simps[of n])
  next
    case False
    then have "itoa_loop (n div 10) (digit (n mod 10) # buf) = show_nat (n div 10) @ digit (n mod 10) # buf"
      by (intro less.IH) simp_all
    then show ?thesis using less.prems False by (simp add: itoa_loop.simps[of n] show_nat.simps[of n])
  qed
qed

text \<open>The hand-written decimal conversion agrees with the reference one.\<close>

lemma itoa_show: "itoa n = show_nat n"
  by (cases "n = 0") (simp_all add: itoa_def itoa_loop_show show_nat.simps[of 0] digit_def char_of_def bit_Suc_0_iff)

text \<open>What a masked value still shows of the original.\<close>

definition shown :: "(string \<Rightarrow> string) \<Rightarrow> string \<Rightarrow> string \<Rightarrow> string list" where
  "shown sha4_hex key v =
     (let k = map to_lower key in
      if k = ''recipient'' \<or> k = ''phone'' then
        (if length v < 6 then [] else [take 3 v, drop (length v - 2) v, show_nat (length v)])
      else if k = ''email'' then
        (if from_at v = [] \<or> before_at v = [] then [] else [take 1 (before_at v), from_at v])
      else if k = ''content'' \<or> k = ''body'' then [show_nat (length v), if v = [] then [] else sha4_hex v]
      else if k \<in> {''api_key'', ''apikey'', ''secret'', ''password'', ''token''} then []
      else [v])"

lemma show_nat_inj_length: "show_nat a = show_nat b \<Longrightarrow> a = b"
proof (induction a arbitrary: b rule: less_induct)
  case (less a)
  have ne: "show_nat n \<noteq> []" for n by (subst show_nat.simps) simp
  have dig: "digit x = digit y \<Longrightarrow> x < 10 \<Longrightarrow> y < 10 \<Longrightarrow> x = y" for x y
    by (auto simp: digit_def dest!: arg_cong[where f = "of_char :: char \<Rightarrow> nat"])
  show ?case
  proof (cases "a < 10"; cases "b < 10")
    assume "a < 10" "b < 10"
    then show ?thesis using less.prems dig by (simp add: show_nat.simps[of a] show_nat.simps[of b])
  next
    assume "a < 10" "\<not> b < 10"
    then show ?thesis using less.prems ne[of "b div 10"] by (simp add: show_nat.simps[of a] show_nat.simps[of b])
  next
    assume "\<not> a < 10" "b < 10"
    then show ?thesis using less.prems ne[of "a div 10"] by (simp add: show_nat.simps[of a] show_nat.simps[of b])
  next
    assume ab: "\<not> a < 10" "\<not> b < 10"
    then have eq: "show_nat (a div 10) = show_nat (b div 10)" "digit (a mod 10) = digit (b mod 10)"
      using less.prems by (simp_all add: show_nat.simps[of a] show_nat.simps[of b])
    have "a div 10 = b div 10" using less.IH[OF _ eq(1)] ab(1) by simp
    moreover have "a mod 10 = b mod 10" using dig[OF eq(2)] by simp
    ultimately show ?thesis by (metis div_mult_mod_eq)
  qed
qed

subsection \<open>Properties\<close>

text \<open>
  The log shows no more of a sensitive value than its mask allows. The redacted attribute depends
  only on the key and on: the first three and last two bytes and the length of a phone number, nothing
  of a short one; the first byte and the domain of an e-mail address; the length and a four-byte hash
  of a content; nothing of a credential. Two values that agree in these produce the same log line.
\<close>

theorem redact_shows_only:
  assumes "shown sha4_hex key v = shown sha4_hex key w"
  shows "redact sha4_hex (key, v) = redact sha4_hex (key, w)"
proof -
  have len: "length (before_at u) \<le> 1 \<Longrightarrow> before_at u \<noteq> [] \<Longrightarrow> before_at u = take 1 (before_at u)" for u
    by simp
  have em: "maskEmail u = (if from_at u = [] \<or> before_at u = [] then redacted else take 1 (before_at u) @ ''***'' @ from_at u)" for u
    using len by (auto simp: maskEmail_def)
  define k where "k = map to_lower key"
  let ?c = "\<lambda>u. ''len='' @ itoa (length u) @ '' sha256:'' @ shortHash sha4_hex u"
  define sec where "sec = (k \<in> {''api_key'', ''apikey'', ''secret'', ''password'', ''token''})"
  define ph where "ph = (k = ''recipient'' \<or> k = ''phone'')"
  define co where "co = (k = ''content'' \<or> k = ''body'')"
  have red: "redact sha4_hex (key, u) =
      (if ph then (key, maskPhone u) else if k = ''email'' then (key, maskEmail u) else if co then (key, ?c u)
       else if sec then (key, redacted) else (key, u))" for u
    unfolding redact_def Let_def fst_conv snd_conv k_def[symmetric] sec_def ph_def co_def ..
  have sh: "shown sha4_hex key u =
      (if ph then (if length u < 6 then [] else [take 3 u, drop (length u - 2) u, show_nat (length u)])
       else if k = ''email'' then (if from_at u = [] \<or> before_at u = [] then [] else [take 1 (before_at u), from_at u])
       else if co then [show_nat (length u), if u = [] then [] else sha4_hex u]
       else if sec then [] else [u])" for u
    unfolding shown_def Let_def k_def[symmetric] sec_def ph_def co_def ..
  consider (phone) ph | (email) "\<not> ph" "k = ''email''" | (content) "\<not> ph" "k \<noteq> ''email''" co
    | (secret) "\<not> ph" "k \<noteq> ''email''" "\<not> co" sec | (other) "\<not> ph" "k \<noteq> ''email''" "\<not> co" "\<not> sec" by argo
  then show ?thesis
  proof cases
    case phone
    then show ?thesis
      using assms show_nat_inj_length[of "length v" "length w"] unfolding red sh by (simp add: maskPhone_def split: if_splits)
  next
    case email
    then show ?thesis using assms unfolding red sh by (auto simp: em split: if_splits)
  next
    case content
    then have "length v = length w" using assms show_nat_inj_length[of "length v" "length w"] unfolding sh by simp
    then have "v = [] \<longleftrightarrow> w = []" by auto
    then show ?thesis using assms content \<open>length v = length w\<close> unfolding red sh by (simp add: shortHash_def split: if_splits)
  next
    case secret
    then show ?thesis unfolding red by simp
  next
    case other
    then show ?thesis using assms unfolding sh by simp
  qed
qed

theorem redact_shows_only_witness:
  "redact id (''phone'', ''+905551234567'') = redact id (''phone'', ''+901110000067'') \<and>
   snd (redact id (''phone'', ''+905551234567'')) = ''+90********67''"
proof
  show "redact id (''phone'', ''+905551234567'') = redact id (''phone'', ''+901110000067'')"
    by (rule redact_shows_only) (simp add: shown_def Let_def to_lower_def)
  show "snd (redact id (''phone'', ''+905551234567'')) = ''+90********67''"
    by (simp add: redact_def Let_def to_lower_def maskPhone_def eval_nat_numeral)
qed

end
