(* ===== verification/System.thy ===== *)
theory System
  imports Sweeper Scheduler Delivery Admin Listing
begin

text \<open>
  The whole service around its database. Every change of the database is the commit of one statement
  or of one transaction by some component; the commits of all components, in any order and from any
  number of replicas, make up the runs of the system. The components are shown to produce such runs,
  and the properties of runs hold for whatever the components do together.
\<close>

subsection \<open>Commits and runs\<close>

text \<open>
  One rule for each statement that the service executes outside a transaction and for each
  transaction except the replay of a dead letter. A lost call is a commit or nothing at all.
\<close>

inductive committed :: "deps \<Rightarrow> audit_deps \<Rightarrow> db \<Rightarrow> db \<Rightarrow> bool" for dp xd where
  create_tx: "persist_tx dp e req idemKey corrID version owner d = Inr (row, d') \<Longrightarrow> storable req \<Longrightarrow> committed dp xd d d'"
| batch_create: "batch_tx dp cd be items corrID idemKey owner d = Inr (rows, d') \<Longrightarrow> length items \<le> MaxBatchItems \<Longrightarrow>
    committed dp xd d d'"
| cancel_admin: "CancelPendingOrQueued now nid d = Inr (row, d') \<Longrightarrow> committed dp xd d d'"
| cancel_owner: "CancelPendingOrQueuedScoped now nid own d = Inr (row, d') \<Longrightarrow> committed dp xd d d'"
| schedule_claim: "ClaimDueScheduled now sid ttl n locked d = Inr (srows, d') \<Longrightarrow> committed dp xd d d'"
| schedule_dispatch: "dispatchOne_tx dp se nid d = Inr ((), d') \<Longrightarrow> committed dp xd d d'"
| sweep: "sweeper_tx dp cfg we d = Inr ((), d') \<Longrightarrow> committed dp xd d d'"
| outbox_claim: "ClaimOutboxBatch now did ttl n locked d = Inr (orows, d') \<Longrightarrow> committed dp xd d d'"
| outbox_published: "MarkOutboxPublished now oid d = Inr ((), d') \<Longrightarrow> committed dp xd d d'"
| outbox_failed: "MarkOutboxFailed oid err d = Inr ((), d') \<Longrightarrow> committed dp xd d d'"
| queued: "MarkQueued now nid d = Inr (row, d') \<Longrightarrow> committed dp xd d d'"
| sending: "MarkSendingCAS now nid d = Inr (row, d') \<Longrightarrow> committed dp xd d d'"
| sent: "MarkSent now nid d = Inr (row, d') \<Longrightarrow> committed dp xd d d'"
| reverted: "RevertToQueued now nid er d = Inr ((), d') \<Longrightarrow> committed dp xd d d'"
| reverted_no_attempt: "RevertToQueuedNoAttempt now nid er d = Inr ((), d') \<Longrightarrow> committed dp xd d d'"
| dead_lettered: "MarkDeadLetter now nid err d = Inr (row, d') \<Longrightarrow> committed dp xd d d'"
| dead_letter_filed: "InsertDeadLetter now nid reason j d = Inr (dl, d') \<Longrightarrow> committed dp xd d d'"
| dead_letter_purged: "DeleteDeadLetter nid d = Inr ((), d') \<Longrightarrow> committed dp xd d d'"
| attempt_filed: "InsertDeliveryAttempt nid att t0 t1 ok mid http er rb d = Inr (da, d') \<Longrightarrow> committed dp xd d d'"
| audited: "InsertAuditEntry xd now serial actor aid action target details d = Inr (au, d') \<Longrightarrow> committed dp xd d d'"
| key_revoked: "RevokeAPIKey now kid d = Inr ((), d') \<Longrightarrow> committed dp xd d d'"
| key_seeded: "SeedDevKey argon salt now kid raw d = Inr ((), d') \<Longrightarrow> committed dp xd d d'"
| template_created: "InsertTemplate now tid name ch ver text vars owner d = Inr (t, d') \<Longrightarrow> committed dp xd d d'"
| template_bumped: "BumpTemplateVersion now tid text vars d = Inr (t, d') \<Longrightarrow> committed dp xd d d'"
| template_bumped_owner: "BumpTemplateVersionScoped now tid text vars own d = Inr (t, d') \<Longrightarrow> committed dp xd d d'"
| template_retired: "DeprecateTemplate now tid d = Inr ((), d') \<Longrightarrow> committed dp xd d d'"
| template_retired_owner: "DeprecateTemplateScoped now tid own d = Inr (cnt, d') \<Longrightarrow> committed dp xd d d'"

text \<open>
  A run; \<open>replays\<close> tells whether dead letters are replayed in it. A replay reads the notification first
  and commits its transaction later: whatever else is committed between the two is part of the run.
\<close>

inductive run :: "deps \<Rightarrow> audit_deps \<Rightarrow> bool \<Rightarrow> db \<Rightarrow> db \<Rightarrow> bool" for dp xd replays where
  start: "run dp xd replays d d"
| commit: "run dp xd replays d d1 \<Longrightarrow> committed dp xd d1 d2 \<Longrightarrow> run dp xd replays d d2"
| replay_tx: "run dp xd replays d d1 \<Longrightarrow> replays \<Longrightarrow> row_of nid d1 = Some notif \<Longrightarrow> n_status notif = StatusDeadLetter \<Longrightarrow>
    run dp xd replays d1 d2 \<Longrightarrow> Admin.replay_tx dp xd e key nid notif d2 = Inr ((), d3) \<Longrightarrow> run dp xd replays d d3"

lemma run_trans:
  assumes "run dp xd b d1 d2" "run dp xd b d d1"
  shows "run dp xd b d d2"
  using assms
proof (induction rule: run.induct)
  case (replay_tx d0 d1 nid notif d2 e key d3)
  then show ?case using run.replay_tx[OF replay_tx.IH(1)] by simp
next
  case (commit d0 d1 d2)
  then show ?case using run.commit by fast
qed

lemma run_commit: "committed dp xd d d' \<Longrightarrow> run dp xd b d d'"
  by (rule run.commit[OF run.start])

subsection \<open>What a commit does to the notifications and to the outbox\<close>

text \<open>The columns of a notification that no statement ever changes.\<close>

definition frozen :: "notification \<Rightarrow> notification" where
  "frozen r = r\<lparr>n_status := StatusPending, n_attempt_count := 0, n_last_error := None, n_updated_at := 0, n_sent_at := None\<rparr>"

text \<open>The status graph of the service, replays apart.\<close>

fun status_edge :: "status \<Rightarrow> status \<Rightarrow> bool" where
  "status_edge StatusScheduled s = (s \<in> {StatusPending, StatusCancelled, StatusDeadLetter})"
| "status_edge StatusPending s = (s \<in> {StatusQueued, StatusSending, StatusCancelled, StatusDeadLetter})"
| "status_edge StatusQueued s = (s \<in> {StatusSending, StatusCancelled, StatusDeadLetter})"
| "status_edge StatusSending s = (s \<in> {StatusSent, StatusQueued, StatusDeadLetter})"
| "status_edge StatusSent s = False"
| "status_edge StatusFailed s = (s = StatusDeadLetter)"
| "status_edge StatusCancelled s = (s = StatusDeadLetter)"
| "status_edge StatusDeadLetter s = (s = StatusDeadLetter)"

definition advance :: "notification \<Rightarrow> notification \<Rightarrow> bool" where
  "advance r r' \<longleftrightarrow> r' = r \<or> (frozen r' = frozen r \<and> status_edge (n_status r) (n_status r'))"

text \<open>The message of an outbox row is that of its notification.\<close>

definition carried :: "deps \<Rightarrow> notification \<Rightarrow> outbox_row \<Rightarrow> bool" where
  "carried dp r o1 \<longleftrightarrow>
     o_notification_id o1 = n_id r \<and> o_routing_key o1 = RoutingKey (n_channel r) \<and>
     unmarshal_envelope (Json (o_payload o1)) =
       (\<lparr>env_NotificationID = uuid_str dp (n_id r), env_Channel = n_channel r, env_Recipient = n_recipient r,
         env_Content = n_content r, env_Priority = PriorityFromInt (n_priority r), env_CorrelationID = n_correlation_id r\<rparr>, True)"

definition message_of :: "outbox_row \<Rightarrow> uuid \<times> string \<times> json" where
  "message_of o1 = (o_notification_id o1, o_routing_key o1, o_payload o1)"

definition rows_advance :: "db \<Rightarrow> db \<Rightarrow> bool" where
  "rows_advance d d' \<longleftrightarrow> (\<forall>nid r. row_of nid d = Some r \<longrightarrow> (\<exists>r'. row_of nid d' = Some r' \<and> advance r r'))"

definition outbox_from :: "deps \<Rightarrow> db \<Rightarrow> db \<Rightarrow> bool" where
  "outbox_from dp d d' \<longleftrightarrow>
     (\<forall>o1 \<in> set (outbox d'). message_of o1 \<in> message_of ` set (outbox d) \<or>
        (\<exists>r. row_of (o_notification_id o1) d' = Some r \<and> carried dp r o1))"

lemma advance_refl [simp]: "advance r r"
  by (simp add: advance_def)

lemma rows_advance_same: "notifications d' = notifications d \<Longrightarrow> rows_advance d d'"
  by (simp add: rows_advance_def row_of_def)

lemma rows_advance_append: "notifications d' = notifications d @ ns \<Longrightarrow> rows_advance d d'"
  by (auto simp: rows_advance_def row_of_def sel_append)

lemma outbox_from_same: "outbox d' = outbox d \<Longrightarrow> outbox_from dp d d'"
  by (auto simp: outbox_from_def)

lemma carries_carried: "carries dp r o1 \<Longrightarrow> carried dp r o1"
  by (simp add: carries_def carried_def)

lemma frozenD:
  assumes "frozen r' = frozen r"
  shows "n_id r' = n_id r" "n_channel r' = n_channel r" "n_recipient r' = n_recipient r" "n_content r' = n_content r"
    "n_priority r' = n_priority r" "n_correlation_id r' = n_correlation_id r" "n_created_by r' = n_created_by r"
    "n_idempotency_key r' = n_idempotency_key r"
  using arg_cong[OF assms, of n_id] arg_cong[OF assms, of n_channel] arg_cong[OF assms, of n_recipient]
    arg_cong[OF assms, of n_content] arg_cong[OF assms, of n_priority] arg_cong[OF assms, of n_correlation_id]
    arg_cong[OF assms, of n_created_by] arg_cong[OF assms, of n_idempotency_key]
  by (simp_all add: frozen_def)

lemma carried_frozen:
  assumes "frozen r' = frozen r"
  shows "carried dp r' o1 = carried dp r o1"
  using frozenD[OF assms] by (simp add: carried_def)

lemma advanceI: "frozen r' = frozen r \<Longrightarrow> status_edge (n_status r) (n_status r') \<Longrightarrow> advance r r'"
  by (simp add: advance_def)

context guarded_update
begin

text \<open>A guarded update moves its row along the graph when every row that passes its guard may move so.\<close>

lemma advances:
  assumes "stmt p d = Inr (a, d')" "db_wf d"
    and "\<And>r. guard p r \<Longrightarrow> notif_check r \<Longrightarrow> notif_check (change p r) \<Longrightarrow> advance r (change p r)"
  shows "rows_advance d d' \<and> outbox_from dp d d'"
proof
  show "outbox_from dp d d'" using others[OF assms(1)] by (simp add: outbox_from_same same_other_tablesD(1))
  have dist: "distinct (map n_id (notifications d))" using assms(2) by (simp add: db_wf_def)
  have "\<exists>r'. row_of nid d' = Some r' \<and> advance r r'" if r: "row_of nid d = Some r" for nid r
  proof -
    obtain r' where "row_of nid d' = Some r'" "row_edge guard change p r r'"
      using edge[OF assms(1) dist, of nid r] r by (auto simp: row_of_def)
    then show ?thesis using assms(3)[of r] row_of_check[OF assms(2) r] by (auto simp: row_edge_def)
  qed
  then show "rows_advance d d'" by (simp add: rows_advance_def)
qed

end

lemma not_sent: "notif_check (r\<lparr>n_status := s, n_last_error := er, n_updated_at := t\<rparr>) \<Longrightarrow> s \<noteq> StatusSent \<Longrightarrow> notif_check r \<Longrightarrow> n_status r \<noteq> StatusSent"
  by (auto simp: notif_check_def)

lemma status_edge_dead: "s \<noteq> StatusSent \<Longrightarrow> status_edge s StatusDeadLetter"
  by (cases s) auto

lemma status_edge_cancel: "cancellable r \<Longrightarrow> status_edge (n_status r) StatusCancelled"
  by (auto simp: cancellable_def)

lemmas edges = frozen_def status_edge_cancel status_edge_dead

lemma commits_advance:
  assumes "db_wf d"
  shows "CancelPendingOrQueued now nid d = Inr (row, d') \<Longrightarrow> rows_advance d d' \<and> outbox_from dp d d'"
    "CancelPendingOrQueuedScoped now nid own d = Inr (row, d') \<Longrightarrow> rows_advance d d' \<and> outbox_from dp d d'"
    "MarkQueued now nid d = Inr (row, d') \<Longrightarrow> rows_advance d d' \<and> outbox_from dp d d'"
    "MarkSendingCAS now nid d = Inr (row, d') \<Longrightarrow> rows_advance d d' \<and> outbox_from dp d d'"
    "MarkSent now nid d = Inr (row, d') \<Longrightarrow> rows_advance d d' \<and> outbox_from dp d d'"
    "RevertToQueued now nid er d = Inr ((), d') \<Longrightarrow> rows_advance d d' \<and> outbox_from dp d d'"
    "RevertToQueuedNoAttempt now nid er d = Inr ((), d') \<Longrightarrow> rows_advance d d' \<and> outbox_from dp d d'"
    "MarkDeadLetter now nid err d = Inr (row, d') \<Longrightarrow> rows_advance d d' \<and> outbox_from dp d d'"
    "MarkScheduledPending now nid d = Inr (row, d') \<Longrightarrow> rows_advance d d' \<and> outbox_from dp d d'"
  subgoal by (rule cancel.advances[of "(now, nid)" d "row" d', OF _ assms]) (auto simp: edges dest: not_sent intro!: advanceI)
  subgoal by (rule cancel_scoped.advances[of "(now, nid, own)" d "row" d', OF _ assms]) (auto simp: edges dest: not_sent intro!: advanceI)
  subgoal by (rule queued.advances[of "(now, nid)" d "row" d', OF _ assms]) (auto simp: edges dest: not_sent intro!: advanceI)
  subgoal by (rule sending.advances[of "(now, nid)" d "row" d', OF _ assms]) (auto simp: edges dest: not_sent intro!: advanceI)
  subgoal by (rule sent.advances[of "(now, nid)" d "row" d', OF _ assms]) (auto simp: edges dest: not_sent intro!: advanceI)
  subgoal by (rule revert.advances[of "(now, nid, er)" d "()" d', OF _ assms]) (auto simp: edges dest: not_sent intro!: advanceI)
  subgoal by (rule revert_no_attempt.advances[of "(now, nid, er)" d "()" d', OF _ assms]) (auto simp: edges dest: not_sent intro!: advanceI)
  subgoal by (rule dead_letter.advances[of "(now, nid, err)" d "row" d', OF _ assms]) (auto simp: edges dest: not_sent intro!: advanceI)
  subgoal by (rule scheduled_pending.advances[of "(now, nid)" d "row" d', OF _ assms]) (auto simp: edges dest: not_sent intro!: advanceI)
  done

text \<open>Statements on the other tables, and statements that only claim, release or close outbox rows.\<close>

lemma other_tables:
  "ClaimDueScheduled now sid ttl n locked d = Inr (srows, d') \<Longrightarrow> notifications d' = notifications d \<and> outbox d' = outbox d"
  "InsertDeadLetter now nid reason j d = Inr (dl, d') \<Longrightarrow> notifications d' = notifications d \<and> outbox d' = outbox d"
  "DeleteDeadLetter nid d = Inr ((), d') \<Longrightarrow> notifications d' = notifications d \<and> outbox d' = outbox d"
  "InsertDeliveryAttempt nid att t0 t1 ok mid http er rb d = Inr (da, d') \<Longrightarrow> notifications d' = notifications d \<and> outbox d' = outbox d"
  "InsertAuditEntry xd now serial actor aid action target details d = Inr (au, d') \<Longrightarrow> notifications d' = notifications d \<and> outbox d' = outbox d"
  "RevokeAPIKey now kid d = Inr ((), d') \<Longrightarrow> notifications d' = notifications d \<and> outbox d' = outbox d"
  "SeedDevKey argon salt now kid raw d = Inr ((), d') \<Longrightarrow> notifications d' = notifications d \<and> outbox d' = outbox d"
  "InsertTemplate now tid name ch ver text vars owner d = Inr (t, d') \<Longrightarrow> notifications d' = notifications d \<and> outbox d' = outbox d"
  "BumpTemplateVersion now tid text vars d = Inr (t, d') \<Longrightarrow> notifications d' = notifications d \<and> outbox d' = outbox d"
  "BumpTemplateVersionScoped now tid text vars own d = Inr (t, d') \<Longrightarrow> notifications d' = notifications d \<and> outbox d' = outbox d"
  "DeprecateTemplate now tid d = Inr ((), d') \<Longrightarrow> notifications d' = notifications d \<and> outbox d' = outbox d"
  "DeprecateTemplateScoped now tid own d = Inr (cnt, d') \<Longrightarrow> notifications d' = notifications d \<and> outbox d' = outbox d"
  by (auto simp: ClaimDueScheduled_def InsertDeadLetter_def DeleteDeadLetter_def InsertDeliveryAttempt_def InsertAuditEntry_def
      RevokeAPIKey_def SeedDevKey_def UpsertAPIKey_def InsertAPIKey_def InsertTemplate_def BumpTemplateVersion_def
      BumpTemplateVersionScoped_def DeprecateTemplate_def DeprecateTemplateScoped_def update_template_def Let_def
      split: if_splits option.splits sum.splits prod.splits)

lemma outbox_tables:
  "ClaimOutboxBatch now did ttl n locked d = Inr (orows, d') \<Longrightarrow>
     notifications d' = notifications d \<and> map message_of (outbox d') = map message_of (outbox d)"
  "MarkOutboxPublished now oid d = Inr ((), d') \<Longrightarrow>
     notifications d' = notifications d \<and> map message_of (outbox d') = map message_of (outbox d)"
  "MarkOutboxFailed oid err d = Inr ((), d') \<Longrightarrow>
     notifications d' = notifications d \<and> map message_of (outbox d') = map message_of (outbox d)"
  by (auto simp: ClaimOutboxBatch_def Let_def message_of_def dest!: MarkOutboxPublished_Inr MarkOutboxFailed_Inr
      intro!: map_key_upd)

lemma outbox_from_messages: "map message_of (outbox d') = map message_of (outbox d) \<Longrightarrow> outbox_from dp d d'"
  unfolding outbox_from_def by (drule arg_cong[where f = set]) (auto simp: image_iff)

lemma outbox_from_append:
  assumes "outbox d' = outbox d @ os"
    and "\<And>o1. o1 \<in> set os \<Longrightarrow> \<exists>r. row_of (o_notification_id o1) d' = Some r \<and> carried dp r o1"
  shows "outbox_from dp d d'"
  using assms by (auto simp: outbox_from_def)

text \<open>The transactions.\<close>

lemma accepted_into_effect:
  assumes "accepted_into dp row d d'" "sel n_id (n_id row) (notifications d) = None"
  shows "rows_advance d d' \<and> outbox_from dp d d'"
proof -
  have row': "row_of (n_id row) (d\<lparr>notifications := notifications d @ [row]\<rparr>) = Some row"
    using assms(2) by (simp add: row_of_def sel_append)
  show ?thesis
    using assms(1) unfolding accepted_into_def
  proof (elim disjE conjE exE)
    fix o1 assume c: "carries dp row o1"
      and d': "d' = d\<lparr>notifications := notifications d @ [row], outbox := outbox d @ [o1]\<rparr>"
    have "carried dp row o1" "o_notification_id o1 = n_id row" using c by (auto simp: carries_carried carries_def)
    then show ?thesis unfolding d'
      by (intro conjI rows_advance_append[of _ _ "[row]"] outbox_from_append[of _ _ "[o1]"]) (auto simp: row')
  qed (auto intro: rows_advance_append outbox_from_same)
qed

lemma list_all2_member_right: "list_all2 R xs ys \<Longrightarrow> y \<in> set ys \<Longrightarrow> \<exists>x \<in> set xs. R x y"
  by (induction rule: list_all2_induct) auto

lemma batch_into_effect:
  assumes "batch_into dp b rows d d'" "db_wf d'"
  shows "rows_advance d d' \<and> outbox_from dp d d'"
proof -
  obtain os where os: "list_all2 (carries dp) rows os"
    and d': "notifications d' = notifications d @ rows" "outbox d' = outbox d @ os"
    using assms(1) by (auto simp: batch_into_def)
  have "\<exists>r. row_of (o_notification_id o1) d' = Some r \<and> carried dp r o1" if o: "o1 \<in> set os" for o1
  proof -
    obtain r where r: "r \<in> set rows" "carries dp r o1"
      using list_all2_member_right[OF os o] by blast
    then have "row_of (n_id r) d' = Some r"
      using assms(2) d'(1) sel_distinct[of n_id "notifications d'" r] by (simp add: row_of_def db_wf_def)
    then show ?thesis using r(2) by (auto simp: carries_carried carries_def)
  qed
  then show ?thesis using d' by (intro conjI rows_advance_append[of _ _ rows] outbox_from_append[of _ _ os]) auto
qed

lemma rows_advanceD: "rows_advance d d' \<Longrightarrow> row_of nid d = Some r \<Longrightarrow> \<exists>r'. row_of nid d' = Some r' \<and> advance r r'"
  by (simp add: rows_advance_def)

lemma advance_frozen: "advance r r' \<Longrightarrow> frozen r' = frozen r"
  by (auto simp: advance_def)

lemma rows_advance_cong: "notifications d' = notifications d1 \<Longrightarrow> rows_advance d d1 \<Longrightarrow> rows_advance d d'"
  by (simp add: rows_advance_def row_of_def)

lemma dispatch_tx_advances:
  assumes "dispatchOne_tx dp e nid d = Inr ((), d')" "db_wf d"
  shows "rows_advance d d' \<and> outbox_from dp d d'"
  using assms(1)
proof (cases rule: dispatchOne_tx_cases)
  case dropped
  then show ?thesis by (simp add: DeleteScheduled_simps rows_advance_same outbox_from_same)
next
  case (sent n r d1 o1 d2)
  note o = InsertOutbox_Inr[OF sent(3)] and x = DeleteScheduled_simps[OF sent(4)]
  have ra: "rows_advance d d1" using commits_advance(9)[OF assms(2) sent(2)] by blast
  then obtain r' where r': "row_of nid d1 = Some r'" "advance n r'" using rows_advanceD[OF _ sent(1)] by blast
  have n: "n_id n = nid" using row_of_check[OF assms(2) sent(1)] by simp
  have "carries dp n o1"
    by (rule carries_payload, rule trans[OF _ sent(3)]) (simp add: n scheduled_payload_def RoutingKey_def priorityLabel_eq)
  then have "carried dp r' o1" using carried_frozen[OF advance_frozen[OF r'(2)]] by (simp add: carries_carried)
  moreover have "outbox d1 = outbox d"
    using scheduled_pending.others[of "(se_now e, nid)" d r d1] sent(2) by (simp add: same_other_tablesD)
  moreover have "row_of nid d' = Some r'" using r'(1) x(1) o(1) by (simp add: row_of_def)
  ultimately show ?thesis
    using rows_advance_cong[OF _ ra, of d'] o x by (auto intro!: outbox_from_append[of _ _ "[o1]"])
qed

lemma frozen_sweep [simp]: "frozen (sweep_row now r) = frozen r"
  by (simp add: frozen_def sweep_row_def)

lemma sweeper_tx_rows:
  assumes "sweeper_tx dp cfg e d = Inr ((), d')" "db_wf d"
  shows "rows_advance d d' \<and> outbox_from dp d d'"
proof -
  define stuck where "stuck = stuck_sending (we_now e) (i32 (sw_stuck_after cfg div second))"
  note eff = sweeper_tx_effect[OF assms(1), folded stuck_def]
  have row: "row_of nid d' = map_option (\<lambda>r. if stuck r then sweep_row (we_now e) r else r) (row_of nid d)" for nid
    by (simp add: row_of_def eff(1) sel_upd)
  have adv: "advance r (if stuck r then sweep_row (we_now e) r else r)" for r
    by (auto intro!: advanceI simp: stuck_def stuck_sending_def sweep_row_def[of _ r] frozen_def)
  obtain os where os: "outbox d' = outbox d @ os" "list_all2 (carries dp) (filter stuck (notifications d)) os"
    using eff(2) by blast
  have "\<exists>r. row_of (o_notification_id o1) d' = Some r \<and> carried dp r o1" if o: "o1 \<in> set os" for o1
  proof -
    obtain r where r: "r \<in> set (notifications d)" "stuck r" "carries dp r o1"
      using list_all2_member_right[OF os(2) o] by auto
    then have "row_of (n_id r) d = Some r"
      using assms(2) sel_distinct[of n_id "notifications d" r] by (simp add: row_of_def db_wf_def)
    then show ?thesis
      using r carried_frozen[of "sweep_row (we_now e) r" r dp o1] by (auto simp: row carries_carried carries_def[of dp r])
  qed
  then show ?thesis
    using adv os(1) by (auto simp: rows_advance_def row intro!: outbox_from_append[of _ _ os])
qed

lemma db_wf_side_tables [simp]: "db_wf (d\<lparr>api_keys := ks\<rparr>) = db_wf d" "db_wf (d\<lparr>templates := ts\<rparr>) = db_wf d"
  by (simp_all add: db_wf_def)

lemma side_tables_wf:
  "keeps_wf (RevokeAPIKey now kid)" "keeps_wf (SeedDevKey argon salt now kid raw)"
  "keeps_wf (InsertTemplate now tid name ch ver text vars owner)" "keeps_wf (BumpTemplateVersion now tid text vars)"
  "keeps_wf (BumpTemplateVersionScoped now tid text vars own)" "keeps_wf (DeprecateTemplate now tid)"
  "keeps_wf (DeprecateTemplateScoped now tid own)"
  by (auto simp: keeps_wf_def RevokeAPIKey_def SeedDevKey_def UpsertAPIKey_def InsertAPIKey_def InsertTemplate_def
      BumpTemplateVersion_def BumpTemplateVersionScoped_def DeprecateTemplate_def DeprecateTemplateScoped_def
      update_template_def Let_def split: if_splits option.splits sum.splits prod.splits)

lemmas stmt_wf =
  update_wf[THEN keeps_wfD, rotated] scheduled_wf[THEN keeps_wfD, rotated] dead_letters_wf[THEN keeps_wfD, rotated]
  side_tables_wf[THEN keeps_wfD, rotated] ClaimOutboxBatch_wf[THEN keeps_wfD, rotated] MarkOutboxFailed_wf[THEN keeps_wfD, rotated]
  MarkOutboxPublished_wf[THEN keeps_wfD, rotated] InsertDeliveryAttempt_wf[THEN keeps_wfD, rotated]
  InsertAuditEntry_wf[THEN keeps_wfD, rotated]

lemma tx_keeps_wfD: "tx_keeps_wf q \<Longrightarrow> q d = Inr (a, d') \<Longrightarrow> db_wf d \<Longrightarrow> db_wf d'"
  by (simp add: tx_keeps_wf_def)

lemma sweeper_tx_wf: "keeps_wf (sweeper_tx dp cfg we)"
  unfolding sweeper_tx_def by (intro wf_intros reclaim_rows_wf)

lemma committed_wf:
  assumes "committed dp xd d d'" "db_wf d"
  shows "db_wf d'"
  using assms(1)
  by cases
     (((erule stmt_wf | erule tx_keeps_wfD[OF persist_tx_wf] | erule tx_keeps_wfD[OF batch_tx_wf] |
        erule keeps_wfD[OF dispatchOne_tx_wf, rotated] | erule keeps_wfD[OF sweeper_tx_wf, rotated]), rule assms(2))+)

lemma committed_effect:
  assumes "committed dp xd d d'" "db_wf d"
  shows "rows_advance d d' \<and> outbox_from dp d d'"
proof -
  have other: "notifications d' = notifications d \<and> outbox d' = outbox d \<Longrightarrow> ?thesis"
    using rows_advance_same outbox_from_same by blast
  have msgs: "notifications d' = notifications d \<and> map message_of (outbox d') = map message_of (outbox d) \<Longrightarrow> ?thesis"
    using rows_advance_same outbox_from_messages by blast
  show ?thesis
    using assms(1)
  proof cases
    case (create_tx e req idemKey corrID version owner row)
    then show ?thesis using accepted_into_effect persist_tx_Inr(2,4)[OF create_tx] by blast
  next
    case (batch_create cd be items corrID idemKey owner rows)
    then show ?thesis
      using batch_into_effect committed_wf[OF assms] batch_tx_Inr(2)[OF batch_create] by blast
  next
    case (schedule_dispatch se nid)
    then show ?thesis by (rule dispatch_tx_advances[OF _ assms(2)])
  next
    case (sweep cfg we)
    then show ?thesis by (rule sweeper_tx_rows[OF _ assms(2)])
  qed ((erule commits_advance[OF assms(2)] | rule other, erule other_tables | rule msgs, erule outbox_tables)+)
qed

subsection \<open>Invariants of runs\<close>

lemma run_wf: "run dp xd b d d' \<Longrightarrow> db_wf d \<Longrightarrow> db_wf d'"
proof (induction rule: run.induct)
  case (replay_tx d d1 nid notif d2 e key d3)
  then show ?case using tx_keeps_wfD[OF replay_tx_wf] by blast
qed (auto dest: committed_wf)

text \<open>Rows are never removed and their frozen columns never change; without replays they only advance.\<close>

definition rows_kept :: "(notification \<Rightarrow> notification \<Rightarrow> bool) \<Rightarrow> db \<Rightarrow> db \<Rightarrow> bool" where
  "rows_kept R d d' \<longleftrightarrow> (\<forall>nid r. row_of nid d = Some r \<longrightarrow> (\<exists>r'. row_of nid d' = Some r' \<and> R r r'))"

lemma rows_kept_trans:
  assumes "rows_kept R d d1" "rows_kept S d1 d2" "\<And>r r1 r'. R r r1 \<Longrightarrow> S r1 r' \<Longrightarrow> T r r'"
  shows "rows_kept T d d2"
  unfolding rows_kept_def
proof (intro allI impI)
  fix nid r assume "row_of nid d = Some r"
  then obtain r1 where r1: "row_of nid d1 = Some r1" "R r r1" using assms(1) by (auto simp: rows_kept_def)
  then obtain r2 where "row_of nid d2 = Some r2" "S r1 r2" using assms(2) by (auto simp: rows_kept_def)
  then show "\<exists>r'. row_of nid d2 = Some r' \<and> T r r'" using assms(3) r1(2) by blast
qed

lemma committed_kept: "committed dp xd d d' \<Longrightarrow> db_wf d \<Longrightarrow> rows_kept advance d d'"
  using committed_effect by (auto simp: rows_kept_def rows_advance_def)

lemma replayed_kept:
  assumes "replayed dp key now nid notif r d d'"
  shows "rows_kept (\<lambda>r r'. frozen r' = frozen r) d d'"
  unfolding rows_kept_def
proof (intro allI impI)
  fix k q assume q: "row_of k d = Some q"
  show "\<exists>r'. row_of k d' = Some r' \<and> frozen r' = frozen q"
    using assms q by (cases "k = nid") (auto simp: replayed_def frozen_def reset_row_def)
qed

lemma run_kept: "run dp xd b d d' \<Longrightarrow> db_wf d \<Longrightarrow> rows_kept (\<lambda>r r'. frozen r' = frozen r) d d'"
proof (induction rule: run.induct)
  case (start d)
  then show ?case by (simp add: rows_kept_def)
next
  case (commit d d1 d2)
  show ?case
    by (rule rows_kept_trans[OF commit.IH[OF commit.prems] committed_kept[OF commit.hyps(2) run_wf[OF commit.hyps(1) commit.prems]]])
       (simp add: advance_frozen)
next
  case (replay_tx d d1 nid notif d2 e key d3)
  have wf1: "db_wf d1" by (rule run_wf[OF replay_tx.hyps(1) replay_tx.prems])
  have "n_id notif = nid" using row_of_check[OF wf1 replay_tx.hyps(3)] by simp
  then obtain r where "replayed dp key (re_now e) nid notif r d2 d3" using replay_tx_Inr[OF replay_tx.hyps(6)] by blast
  then have "rows_kept (\<lambda>r r'. frozen r' = frozen r) d1 d3"
    by (rule rows_kept_trans[OF replay_tx.IH(2)[OF wf1] replayed_kept]) simp
  then show ?case by (rule rows_kept_trans[OF replay_tx.IH(1)[OF replay_tx.prems]]) simp
qed

lemma run_advance: "run dp xd False d d' \<Longrightarrow> db_wf d \<Longrightarrow> rows_kept advance\<^sup>*\<^sup>* d d'"
proof (induction rule: run.induct)
  case (commit d d1 d2)
  show ?case
    by (rule rows_kept_trans[OF commit.IH[OF commit.prems] committed_kept[OF commit.hyps(2) run_wf[OF commit.hyps(1) commit.prems]]])
       simp
qed (simp_all add: rows_kept_def)

text \<open>Every outbox row carries its notification, at any time.\<close>

definition outbox_ok :: "deps \<Rightarrow> db \<Rightarrow> bool" where
  "outbox_ok dp d \<longleftrightarrow> (\<forall>o1 \<in> set (outbox d). \<exists>r. row_of (o_notification_id o1) d = Some r \<and> carried dp r o1)"

lemma carried_message: "message_of o1 = message_of o2 \<Longrightarrow> carried dp r o1 = carried dp r o2"
  by (simp add: carried_def message_of_def)

lemma outbox_ok_step:
  assumes "outbox_ok dp d" "rows_kept (\<lambda>r r'. frozen r' = frozen r) d d'" "outbox_from dp d d'"
  shows "outbox_ok dp d'"
  unfolding outbox_ok_def
proof
  fix o1 assume "o1 \<in> set (outbox d')"
  then consider o0 where "o0 \<in> set (outbox d)" "message_of o1 = message_of o0"
    | r where "row_of (o_notification_id o1) d' = Some r" "carried dp r o1"
    using assms(3) by (auto simp: outbox_from_def)
  then show "\<exists>r. row_of (o_notification_id o1) d' = Some r \<and> carried dp r o1"
  proof cases
    case 1
    then obtain r where r: "row_of (o_notification_id o0) d = Some r" "carried dp r o0"
      using assms(1) by (auto simp: outbox_ok_def)
    moreover obtain r' where "row_of (o_notification_id o0) d' = Some r'" "frozen r' = frozen r"
      using assms(2) r(1) by (auto simp: rows_kept_def)
    ultimately show ?thesis
      using 1(2) carried_message[OF 1(2), of dp r'] carried_frozen[of r' r dp o0] by (auto simp: message_of_def)
  qed blast
qed

lemma run_outbox: "run dp xd b d d' \<Longrightarrow> db_wf d \<Longrightarrow> outbox_ok dp d \<Longrightarrow> outbox_ok dp d'"
proof (induction rule: run.induct)
  case (commit d d1 d2)
  have wf: "db_wf d1" by (rule run_wf[OF commit.hyps(1) commit.prems(1)])
  have "rows_kept (\<lambda>r r'. frozen r' = frozen r) d1 d2"
    by (rule run_kept[OF run_commit[OF commit.hyps(2)] wf])
  then show ?case
    using outbox_ok_step[OF commit.IH[OF commit.prems]] committed_effect[OF commit.hyps(2) wf] by blast
next
  case (replay_tx d d1 nid notif d2 e key d3)
  have wf1: "db_wf d1" by (rule run_wf[OF replay_tx.hyps(1) replay_tx.prems(1)])
  have nid: "n_id notif = nid" using row_of_check[OF wf1 replay_tx.hyps(3)] by simp
  obtain r where rp: "replayed dp key (re_now e) nid notif r d2 d3" using replay_tx_Inr[OF replay_tx.hyps(6) nid] by blast
  obtain o1 where o: "outbox d3 = outbox d2 @ [o1]" "carries dp notif o1" using rp by (auto simp: replayed_def)
  have k: "rows_kept (\<lambda>r r'. frozen r' = frozen r) d1 d3"
    by (rule rows_kept_trans[OF run_kept[OF replay_tx.hyps(5) wf1] replayed_kept[OF rp]]) simp
  then obtain r' where "row_of nid d3 = Some r'" "frozen r' = frozen notif"
    using replay_tx.hyps(3) by (auto simp: rows_kept_def)
  then have "outbox_from dp d2 d3"
    using o carried_frozen[of r' notif dp o1] nid
    by (intro outbox_from_append[of _ _ "[o1]"]) (auto simp: carries_carried carries_def[of dp notif])
  moreover have "outbox_ok dp d2" using replay_tx.IH replay_tx.prems wf1 by blast
  ultimately show ?case using outbox_ok_step replayed_kept[OF rp] by blast
qed simp

text \<open>Idempotency keys are never shared.\<close>

definition idem_keys :: "db \<Rightarrow> string list" where
  "idem_keys d = List.map_filter n_idempotency_key (notifications d)"

lemma idem_keys_same: "map n_idempotency_key (notifications d') = map n_idempotency_key (notifications d) \<Longrightarrow> idem_keys d' = idem_keys d"
proof -
  have "idem_keys x = List.map_filter id (map n_idempotency_key (notifications x))" for x
    by (simp add: idem_keys_def map_filter_def comp_def filter_map)
  then show "map n_idempotency_key (notifications d') = map n_idempotency_key (notifications d) \<Longrightarrow> ?thesis" by simp
qed

context guarded_update
begin

lemma idem_kept:
  "stmt p d = Inr (a, d') \<Longrightarrow> (\<And>r. n_idempotency_key (change p r) = n_idempotency_key r) \<Longrightarrow> idem_keys d' = idem_keys d"
  by (drule applied) (auto intro!: idem_keys_same simp: map_key_upd)

end

lemma committed_idem:
  assumes "committed dp xd d d'"
  shows "idem_keys d' = idem_keys d \<or> (\<exists>k. k \<notin> set (idem_keys d) \<and> idem_keys d' = idem_keys d @ [k])"
proof -
  have same: "notifications d' = notifications d \<Longrightarrow> idem_keys d' = idem_keys d" by (simp add: idem_keys_def)
  show ?thesis
    using assms
  proof cases
    case (create_tx e req idemKey corrID version owner row)
    note t = persist_tx_Inr(2,5)[OF create_tx]
    have "idem_keys d' = idem_keys d @ List.map_filter n_idempotency_key [row]"
      using t(1) by (auto simp: accepted_into_def idem_keys_def map_filter_def)
    then show ?thesis
      using t(2) by (auto simp: map_filter_def idem_free_def list_all_iff idem_keys_def split: option.splits)
  next
    case (batch_create cd be items corrID idemKey owner rows)
    note t = batch_tx_Inr[OF batch_create]
    have "List.map_filter n_idempotency_key rows = []"
      by (simp add: t(1) item_row_def new_notification_def item_params_def map_filter_def)
    moreover have "idem_keys d' = idem_keys d @ List.map_filter n_idempotency_key rows"
      using t(2) by (auto simp: batch_into_def idem_keys_def map_filter_def)
    ultimately show ?thesis by simp
  next
    case (schedule_dispatch se nid)
    then show ?thesis
    proof (cases rule: dispatchOne_tx_cases)
      case dropped
      then show ?thesis by (simp add: same DeleteScheduled_simps)
    next
      case (sent n r d1 o1 d2)
      have "idem_keys d1 = idem_keys d"
        using scheduled_pending.idem_kept[of "(se_now se, nid)" d r d1] sent(2) by auto
      moreover have "notifications d' = notifications d1" using InsertOutbox_Inr(1)[OF sent(3)] DeleteScheduled_simps(4)[OF sent(4)] by simp
      ultimately show ?thesis by (simp add: idem_keys_def)
    qed
  next
    case (sweep cfg we)
    then show ?thesis
      using idem_keys_same[of d' d] sweeper_tx_effect(1)[OF sweep] by (auto simp: map_key_upd sweep_row_def)
  next
    case (cancel_admin now nid row)
    then show ?thesis using cancel.idem_kept[of "(now, nid)" d row d'] by auto
  next
    case (cancel_owner now nid own row)
    then show ?thesis using cancel_scoped.idem_kept[of "(now, nid, own)" d row d'] by auto
  next
    case (queued now nid row)
    then show ?thesis using queued.idem_kept[of "(now, nid)" d row d'] by auto
  next
    case (sending now nid row)
    then show ?thesis using sending.idem_kept[of "(now, nid)" d row d'] by auto
  next
    case (sent now nid row)
    then show ?thesis using sent.idem_kept[of "(now, nid)" d row d'] by auto
  next
    case (reverted now nid er)
    then show ?thesis using revert.idem_kept[of "(now, nid, er)" d "()" d'] by auto
  next
    case (reverted_no_attempt now nid er)
    then show ?thesis using revert_no_attempt.idem_kept[of "(now, nid, er)" d "()" d'] by auto
  next
    case (dead_lettered now nid err row)
    then show ?thesis using dead_letter.idem_kept[of "(now, nid, err)" d row d'] by auto
  qed ((drule other_tables outbox_tables, simp add: same)+)
qed

lemma replay_tx_idem: "Admin.replay_tx dp xd e key nid notif d = Inr ((), d') \<Longrightarrow> idem_keys d' = idem_keys d"
proof -
  assume "Admin.replay_tx dp xd e key nid notif d = Inr ((), d')"
  then obtain d1 d2 d3 o1 a where r: "ResetNotification (re_now e) nid d = Inr ((), d1)"
    and x: "DeleteDeadLetter nid d1 = Inr ((), d2)"
    and o: "InsertOutbox (re_now e) (re_outbox_id e) nid (''notification.'' @ n_channel notif) (replay_payload dp nid notif)
         (JObj [(''x-correlation-id'', JStr (n_correlation_id notif))]) (n_priority notif) d2 = Inr (o1, d3)"
    and a: "InsertAuditEntry xd (re_now e) (re_serial e) (key_name key) (parseActorID dp (key_id key)) ''dlq_replay''
         (Some (uuid_str dp nid)) (JObj [(''reason'', JStr ''manual replay'')]) d3 = Inr (a, d')"
    by (auto simp: Admin.replay_tx_def tx_Inr)
  have "idem_keys d1 = idem_keys d" using reset.idem_kept[of "(re_now e, nid)" d "()" d1] r by auto
  moreover have "notifications d' = notifications d1"
    using other_tables(3)[OF x] other_tables(5)[OF a] InsertOutbox_Inr(1)[OF o] by simp
  ultimately show ?thesis by (simp add: idem_keys_def)
qed

lemma run_idem: "run dp xd b d d' \<Longrightarrow> distinct (idem_keys d) \<Longrightarrow> distinct (idem_keys d')"
proof (induction rule: run.induct)
  case (commit d d1 d2)
  then show ?case using committed_idem[OF commit.hyps(2)] by auto
next
  case (replay_tx d d1 nid notif d2 e key d3)
  then show ?case using replay_tx_idem[OF replay_tx.hyps(6)] by simp
qed simp

lemma distinct_idem:
  assumes "distinct (List.map_filter f rs)" "r \<in> set rs" "r' \<in> set rs" "f r = Some k" "f r' = Some k"
  shows "r = r'"
  using distinct_key_eq[of "the \<circ> f" "filter (\<lambda>x. f x \<noteq> None) rs" r r'] assms by (simp add: map_filter_def)

subsection \<open>The components produce runs\<close>

lemma keeps_run_from: "(\<And>d a d'. q d = Inr (a, d') \<Longrightarrow> committed dp xd d d') \<Longrightarrow> keeps (run dp xd b d0) q"
  by (auto simp: keeps_def intro: run.commit)

interpretation delivery_run: delivery_invariant "run dp xd b d0" for dp xd b d0
  by unfold_locales (rule keeps_run_from, auto intro: committed.intros)+

interpretation publishing_run: publishing_invariant "run dp xd b d0" for dp xd b d0
  by unfold_locales (rule keeps_run_from, auto intro: committed.intros)+

lemma run_stmt_run: "(\<And>a d'. q d = Inr (a, d') \<Longrightarrow> committed dp xd d d') \<Longrightarrow> run_stmt f q d = (r, d') \<Longrightarrow> run dp xd b d d'"
  using run_stmt_cases[of f q d] run.start run_commit by (metis snd_conv)

lemma run_tx_run: "(\<And>a d'. q d = Inr (a, d') \<Longrightarrow> committed dp xd d d') \<Longrightarrow> run_tx l f q d = (r, d') \<Longrightarrow> run dp xd b d d'"
  using run_tx_cases[of l f q d] run.start run_commit by (metis snd_conv)

lemma scheduler_tick_run: "run dp xd b d (scheduler_tick dp cfg f now locked es d)"
proof -
  have one: "run dp xd b d (dispatchOne dp e nid d)" for e nid d
    using run_stmt_cases[of "se_commit e" "dispatchOne_tx dp e nid" d]
    by (auto simp: dispatchOne_def run.start intro: run_commit committed.schedule_dispatch)
  have rows: "run dp xd b d (dispatch_rows dp es k rows d)" for es k rows d
    by (induction rows arbitrary: k d) (auto simp: run.start intro: run_trans[OF _ one])
  obtain r d' where q: "run_stmt f (ClaimDueScheduled now (sc_scheduler_id cfg) (i32 (sc_claim_ttl cfg div second))
      (i32 (sc_batch_size cfg)) locked) d = (r, d')" by fastforce
  then have "run dp xd b d d'" by (rule run_stmt_run[rotated]) (rule committed.schedule_claim)
  then show ?thesis using q rows[of d'] run_trans by (fastforce simp: scheduler_tick_def split: sum.splits)
qed

lemma sweeper_tick_run: "run dp xd b d (sweeper_tick dp cfg e d)"
  using sweeper_tick_cases[of dp cfg e d] run.start run_commit committed.sweep by metis

lemma persist_run:
  assumes "persist dp e req idemKey corrID version owner d = (r, d')" "storable req"
  shows "run dp xd b d d'"
proof -
  obtain x where "run_tx (pe_begin_lost e) (pe_commit e) (persist_tx dp e req idemKey corrID version owner) d = (x, d')"
    using assms(1) by (auto simp: persist_def split: prod.splits sum.splits)
  then show ?thesis by (rule run_tx_run[rotated]) (rule committed.create_tx[OF _ assms(2)])
qed

lemma notifications_create_run:
  assumes "notifications_create dp cd cid e key idemKey body d s = (reply, d', s')"
  shows "run dp xd b d d'"
proof -
  have claimed: "run dp xd b d d'" if "create_claimed dp cd cid e key idemKey req v d s = (reply, d', s')" "storable req"
    for req v s reply d' s'
    using that by (auto simp: create_claimed_def Let_def split: prod.splits sum.splits intro: persist_run)
  have resolved: "run dp xd b d d'" if "create_resolved dp cd cid e key idemKey req v d s = (reply, d', s')" "storable req"
    for req v s reply d' s'
    using that claimed by (auto simp: create_resolved_def run.start split: if_splits prod.splits idem_result.splits)
  show ?thesis
  proof (cases body)
    case (Inr req0)
    show ?thesis
    proof (cases "resolve_template dp cd cid (cv_template e) key (default_priority req0) d :: created reply + create_request \<times> int option")
      case (Inl r)
      then show ?thesis using assms Inr by (auto simp: notifications_create_def Let_def run.start split: if_splits)
    next
      case ok: (Inr rv)
      obtain req v where rv: "rv = (req, v)" by fastforce
      have st: "validateCreate cd (cv_now e) (default_priority req0) = [] \<Longrightarrow> storable req"
        using resolve_template_request(6)[OF ok[unfolded rv]] validated_storable by blast
      show ?thesis
        using assms Inr ok rv resolved[OF _ st]
        by (auto simp: notifications_create_def Let_def run.start split: if_splits)
    qed
  qed (use assms in \<open>simp add: notifications_create_def run.start\<close>)
qed

lemma createBatch_run:
  assumes "createBatch dp cd cid e key idemKey body d = (reply, d')"
  shows "run dp xd b d d'"
proof -
  have tx: "run dp xd b d d'"
    if "run_tx l f (batch_tx dp cd e items cid idemKey owner) d = (r, d')" "length items \<le> MaxBatchItems" for l f items owner r d'
    using that(1) by (rule run_tx_run[rotated]) (rule committed.batch_create[OF _ that(2)])
  show ?thesis
    using assms by (auto simp: createBatch_def Let_def run.start split: sum.splits if_splits prod.splits intro: tx)
qed

lemma run_keeps:
  "keeps (run dp xd b d0) (CancelPendingOrQueued now nid)" "keeps (run dp xd b d0) (CancelPendingOrQueuedScoped now nid own)"
  "keeps (run dp xd b d0) (InsertTemplate now tid name ch ver text vars owner)"
  "keeps (run dp xd b d0) (BumpTemplateVersion now tid text vars)" "keeps (run dp xd b d0) (BumpTemplateVersionScoped now tid text vars own)"
  "keeps (run dp xd b d0) (DeprecateTemplate now tid)" "keeps (run dp xd b d0) (DeprecateTemplateScoped now tid own)"
  "keeps (run dp xd b d0) (DeleteDeadLetter nid)" "keeps (run dp xd b d0) (RevokeAPIKey now kid)"
  "keeps (run dp xd b d0) (InsertAuditEntry xd now serial actor aid action target details)"
  by (rule keeps_run_from, auto intro: committed.intros)+

lemma stmt_run: "run_stmt f q d = (r, d') \<Longrightarrow> keeps (run dp xd b d0) q \<Longrightarrow> run dp xd b d0 d \<Longrightarrow> run dp xd b d0 d'"
  using keeps_run[of "run dp xd b d0" q d f] by simp

lemma cancel_run:
  assumes "cancel dp cid e recheck key idp d = (reply, d')"
  shows "run dp xd b d d'"
  using assms
  by (auto simp: cancel_def Let_def run.start split: option.splits if_splits sum.splits prod.splits
      intro: run.start elim!: stmt_run intro!: run_keeps)

lemma templates_run:
  "templates_create dp te cid e tid key body d = (r1, d') \<Longrightarrow> run dp xd b d d'"
  "templates_put dp te cid e key idp text d = (r2, d') \<Longrightarrow> run dp xd b d d'"
  "templates_del dp cid e key idp d = (r3, d') \<Longrightarrow> run dp xd b d d'"
  by (auto simp: templates_create_def templates_put_def templates_del_def Let_def run.start
      split: option.splits if_splits sum.splits prod.splits intro: run.start elim!: stmt_run intro!: run_keeps)

lemma admin_run:
  "purge dp xd cid e key idp d = (r1, d') \<Longrightarrow> run dp xd b d d'"
  "revokeAPIKey dp xd cid e2 key idp d s = (r2, d', s') \<Longrightarrow> run dp xd b d d'"
  by (auto simp: purge_def revokeAPIKey_def run.start split: option.splits sum.splits prod.splits
      intro!: keeps_run[OF run_keeps(10)]
      dest: stmt_run[OF _ run_keeps(8) run.start] stmt_run[OF _ run_keeps(9) run.start])

lemma replay_run:
  assumes "replay dp xd cid e key idp d = (reply, d')" "db_wf d" "run dp xd True d (re_between e d)"
  shows "run dp xd True d d'"
proof -
  have tx: "run dp xd True d d'"
    if "run_tx l f (Admin.replay_tx dp xd e key nid notif) (re_between e d) = (r, d')" "row_of nid d = Some notif"
      "n_status notif = StatusDeadLetter" for l f nid notif r d'
    using run_tx_cases[of l f "Admin.replay_tx dp xd e key nid notif" "re_between e d"] that assms(3)
      run.replay_tx[OF run.start _ that(2,3) assms(3)] by auto
  show ?thesis
    using assms(1)
    by (auto simp: replay_def run.start GetNotificationByID_def row_of_def guard_stmt_def
        split: option.splits if_splits sum.splits prod.splits intro!: tx)
qed

subsection \<open>Statuses that are never left for a delivery\<close>

lemma settled:
  assumes "advance\<^sup>*\<^sup>* r r'"
  shows "n_status r = StatusSent \<Longrightarrow> r' = r"
    "n_status r \<in> {StatusCancelled, StatusDeadLetter} \<Longrightarrow> n_status r' \<in> {StatusCancelled, StatusDeadLetter}"
  using assms by (induction rule: rtranclp_induct) (auto simp: advance_def)

lemma advance_path:
  assumes "advance\<^sup>*\<^sup>* r r'"
  shows "frozen r' = frozen r \<and> status_edge\<^sup>*\<^sup>* (n_status r) (n_status r')"
  using assms
proof (induction rule: rtranclp_induct)
  case (step y z)
  then show ?case by (auto simp: advance_def)
qed simp

lemma not_Done: "WriteErrorAsProblem cid err \<noteq> Done st r"
proof
  assume eq: "WriteErrorAsProblem cid err = Done st r"
  have "\<not> accepted (WriteErrorAsProblem cid err :: 'a reply)" by simp
  then show False unfolding eq by simp
qed

lemma cancelled_row:
  assumes "db_wf d" "CancelPendingOrQueued now nid d = Inr (row, d') \<or> CancelPendingOrQueuedScoped now nid own d = Inr (row, d')"
  shows "\<exists>r. row_of nid d' = Some r \<and> n_status r = StatusCancelled"
  using assms(2) update_row_after[OF assms(1), of cancellable "\<lambda>r. r\<lparr>n_status := StatusCancelled, n_updated_at := now\<rparr>" nid row d']
    update_row_after[OF assms(1), of "\<lambda>r. n_created_by r = Some own \<and> cancellable r"
      "\<lambda>r. r\<lparr>n_status := StatusCancelled, n_updated_at := now\<rparr>" nid row d']
  by (auto simp: CancelPendingOrQueued_def CancelPendingOrQueuedScoped_def)

lemma cancel_Done:
  assumes "cancel dp cid e recheck key idp d = (Done st resp, d')" "db_wf d" "uuid_parse dp idp = Some nid"
  shows "\<exists>r. row_of nid d' = Some r \<and> n_status r = StatusCancelled"
proof (cases "is_admin key")
  case True
  obtain x d2 where q: "run_stmt (cl_fault e) (CancelPendingOrQueued (cl_now e) nid) d = (x, d2)" by fastforce
  then obtain row where "x = Inr row" "d2 = d'"
    using assms(1,3) True by (cases x) (simp_all add: cancel_def not_Done split: if_splits)
  then have "CancelPendingOrQueued (cl_now e) nid d = Inr (row, d')" using run_stmt_Inr q by fast
  then show ?thesis using cancelled_row[OF assms(2)] by blast
next
  case False
  show ?thesis
  proof (cases "ownerFromCtx dp key")
    case None
    then show ?thesis using assms(1,3) False by (simp add: cancel_def not_Done)
  next
    case (Some owner)
    obtain x d2 where q: "run_stmt (cl_fault e) (CancelPendingOrQueuedScoped (cl_now e) nid owner) d = (x, d2)" by fastforce
    then obtain row where "x = Inr row" "d2 = d'"
      using assms(1,3) False Some by (cases x) (simp_all add: cancel_def not_Done split: if_splits)
    then have "CancelPendingOrQueuedScoped (cl_now e) nid owner d = Inr (row, d')" using run_stmt_Inr q by fast
    then show ?thesis using cancelled_row[OF assms(2)] by blast
  qed
qed

subsection \<open>A concrete run\<close>

definition ex_outbox_row :: outbox_row where
  "ex_outbox_row =
     \<lparr>o_id = 1, o_notification_id = 1, o_routing_key = RoutingKey ''sms'',
      o_payload = envelope_json ''a'' ''sms'' ''+15550100'' ''hi'' ''normal'' ''c'',
      o_headers = JObj [(''x-correlation-id'', JStr ''c'')], o_priority = 5, o_created_at = 0, o_claimed_at = None,
      o_claimed_by = None, o_published_at = None, o_attempt_count = 0, o_last_error = None\<rparr>"

definition ex_stored :: db where
  "ex_stored = empty_db\<lparr>notifications := [ex_row StatusPending 0], outbox := [ex_outbox_row]\<rparr>"

lemma ex_stored_tx:
  "persist_tx ex_deps (cv_persist (ex_create 0)) (default_priority ex_request) [] ''c'' None None empty_db =
     Inr (ex_row StatusPending 0, ex_stored)"
proof -
  have chk: "notif_check (ex_row StatusPending 0)" by (rule ex_row_check) simp_all
  have row: "new_notification 0 (create_params (cv_persist (ex_create 0)) (default_priority ex_request) [] ''c'' None None) = ex_row StatusPending 0"
    by (simp add: new_notification_def create_params_def ex_create_def default_priority_def ex_request_def ex_row_def
        scheduled_later_def nullableString_def Priority_Int16_def)
  then have i: "InsertNotification 0 (create_params (cv_persist (ex_create 0)) (default_priority ex_request) [] ''c'' None None) empty_db =
      Inr (ex_row StatusPending 0, empty_db\<lparr>notifications := [ex_row StatusPending 0]\<rparr>)"
    using chk by (simp add: InsertNotification_def Let_def empty_db_def idem_free_def fk_def create_params_def nullableString_def ex_request_now(2))
  have e: "pe_db_now (cv_persist (ex_create 0)) = 0" "pe_id (cv_persist (ex_create 0)) = 1" "pe_outbox_id (cv_persist (ex_create 0)) = 1"
    "pe_trace (cv_persist (ex_create 0)) = []"
    by (simp_all add: ex_create_def)
  have o: "InsertOutbox 0 1 1 (''notification.'' @ cr_channel ex_request)
      (create_payload ex_deps 1 (default_priority ex_request) ''c'') (create_headers [] ''c'' [])
      (Priority_Int16 (cr_priority (default_priority ex_request))) (empty_db\<lparr>notifications := [ex_row StatusPending 0]\<rparr>) =
    Inr (ex_outbox_row, ex_stored)"
    by (simp add: InsertOutbox_def Let_def ex_outbox_row_def ex_stored_def empty_db_def ex_row_def create_payload_def create_headers_def
        ex_request_def default_priority_def Priority_Int16_def outbox_check_def priority_check_def int4_def i32_range_def ex_deps_def RoutingKey_def sorted_entries_def to_map_def)
  have ns: "\<not> scheduled_later t (default_priority ex_request)" for t
    by (simp add: scheduled_later_def ex_request_now)
  show ?thesis
    by (simp add: persist_tx_def bind_tx_def tx_step_def guard_stmt_def return_tx_def e i o[simplified] ex_create_clean ns)
qed

lemma ex_stored_run: "run ex_deps xd b empty_db ex_stored"
  by (rule run_commit, rule committed.create_tx[OF ex_stored_tx]) (rule validated_storable[OF ex_request_valid])

end
