(* ===== verification/Router.thy ===== *)
theory Router
  imports Admin Listing Ws
begin

text \<open>
  The HTTP server around the handlers: \<open>NewRouter\<close> with its middleware chain, the operational endpoints
  and the route table (\<open>internal/api/router.go\<close>, \<open>middleware.go\<close>, \<open>metrics_middleware.go\<close>, \<open>pprof.go\<close>).

  The chi library picks the route of a request; that choice is a parameter (\<open>rd_chi\<close>), of which only
  \<open>chi_ok\<close> is used: a match is a registered route of the request's method, and a request that matches none
  still passes the middleware of the sub-router that its path leads to.
\<close>

subsection \<open>Request bodies\<close>

text \<open>The bytes that can be read, and whether reading past them fails because a limit was reached.\<close>

type_synonym body_in = "string \<times> bool"

definition MaxBodyBytesDefault :: int where "MaxBodyBytesDefault = 2 ^ 20"
definition MaxBodyBytesBatch :: int where "MaxBodyBytesBatch = 4 * 2 ^ 20"

definition MaxBytesReader :: "int \<Rightarrow> body_in \<Rightarrow> body_in" where
  "MaxBytesReader limit b = (if limit < int (length (fst b)) then (take (nat limit) (fst b), True) else b)"

subsection \<open>The route table\<close>

datatype endpoint =
    Livez | Readyz | VersionInfo | MetricsPage | OpenAPIPage | DocsPage | PProf string
  | NotifCreate | NotifBatch | NotifCancel | NotifGet | NotifByBatch | NotifList | WsNotifications
  | DeadLetterList | DeadLetterGet | DeadLetterReplay | DeadLetterPurge | KeyRevoke | AuditVerify
  | TmplCreate | TmplList | TmplGet | TmplPut | TmplDel

text \<open>The middleware that can stop a request or change what the handler sees.\<close>

datatype mw = MaxBodyBytes int | Authenticate | Scoped string

record route =
  rt_method :: string
  rt_pattern :: string
  rt_chain :: "mw list"
  rt_endpoint :: endpoint

abbreviation mk_route :: "mw list \<Rightarrow> string \<Rightarrow> string \<Rightarrow> endpoint \<Rightarrow> route" where
  "mk_route c m p ep \<equiv> \<lparr>rt_method = m, rt_pattern = p, rt_chain = c, rt_endpoint = ep\<rparr>"

definition v1_use :: "mw list" where
  "v1_use = [MaxBodyBytes MaxBodyBytesDefault, Authenticate]"

definition op_routes :: "bool \<Rightarrow> route list" where
  "op_routes metrics =
     [mk_route [] ''GET'' ''/livez'' Livez, mk_route [] ''GET'' ''/readyz'' Readyz, mk_route [] ''GET'' ''/version'' VersionInfo] @
     (if metrics then [mk_route [] ''GET'' ''/metrics'' MetricsPage] else []) @
     [mk_route [] ''GET'' ''/openapi.yaml'' OpenAPIPage, mk_route [] ''GET'' ''/docs'' DocsPage]"

definition mountPProf :: "route list" where
  "mountPProf =
     [mk_route [] ''GET'' ''/debug/pprof/'' (PProf ''index''), mk_route [] ''GET'' ''/debug/pprof/cmdline'' (PProf ''cmdline''),
      mk_route [] ''GET'' ''/debug/pprof/profile'' (PProf ''profile''), mk_route [] ''GET'' ''/debug/pprof/symbol'' (PProf ''symbol''),
      mk_route [] ''POST'' ''/debug/pprof/symbol'' (PProf ''symbol''), mk_route [] ''GET'' ''/debug/pprof/trace'' (PProf ''trace''),
      mk_route [] ''GET'' ''/debug/pprof/{name}'' (PProf ''named'')]"

definition notification_routes :: "route list" where
  "notification_routes =
     [mk_route (v1_use @ [Scoped ScopeWrite]) ''POST'' ''/v1/notifications/'' NotifCreate,
      mk_route (v1_use @ [MaxBodyBytes MaxBodyBytesBatch, Scoped ScopeWrite]) ''POST'' ''/v1/notifications/batch'' NotifBatch,
      mk_route (v1_use @ [Scoped ScopeWrite]) ''DELETE'' ''/v1/notifications/{id}'' NotifCancel,
      mk_route (v1_use @ [Scoped ScopeRead]) ''GET'' ''/v1/notifications/{id}'' NotifGet,
      mk_route (v1_use @ [Scoped ScopeRead]) ''GET'' ''/v1/notifications/batch/{batchId}'' NotifByBatch,
      mk_route (v1_use @ [Scoped ScopeRead]) ''GET'' ''/v1/notifications/'' NotifList]"

definition ws_routes :: "bool \<Rightarrow> route list" where
  "ws_routes hub =
     (if hub then [mk_route (v1_use @ [Scoped ScopeRead]) ''GET'' ''/v1/ws/notifications'' WsNotifications] else [])"

definition admin_use :: "mw list" where
  "admin_use = v1_use @ [Scoped ScopeAdmin]"

definition admin_routes :: "route list" where
  "admin_routes =
     [mk_route admin_use ''GET'' ''/v1/admin/dead-letters'' DeadLetterList,
      mk_route admin_use ''GET'' ''/v1/admin/dead-letters/{id}'' DeadLetterGet,
      mk_route admin_use ''POST'' ''/v1/admin/dead-letters/{id}/replay'' DeadLetterReplay,
      mk_route admin_use ''DELETE'' ''/v1/admin/dead-letters/{id}'' DeadLetterPurge,
      mk_route admin_use ''POST'' ''/v1/admin/api-keys/{id}/revoke'' KeyRevoke,
      mk_route admin_use ''GET'' ''/v1/admin/audit/verify'' AuditVerify]"

definition template_routes :: "route list" where
  "template_routes =
     [mk_route (v1_use @ [Scoped ScopeWrite]) ''POST'' ''/v1/templates/'' TmplCreate,
      mk_route (v1_use @ [Scoped ScopeRead]) ''GET'' ''/v1/templates/'' TmplList,
      mk_route (v1_use @ [Scoped ScopeRead]) ''GET'' ''/v1/templates/{id}'' TmplGet,
      mk_route (v1_use @ [Scoped ScopeWrite]) ''PUT'' ''/v1/templates/{id}'' TmplPut,
      mk_route (v1_use @ [Scoped ScopeWrite]) ''DELETE'' ''/v1/templates/{id}'' TmplDel]"

text \<open>
  What the library answers: a route with its URL parameters, or no route, with the middleware of the
  sub-router reached, the pattern reported for it and whether the path exists under another method.
\<close>

datatype routing = Matched route "string \<Rightarrow> string" | Unmatched "mw list" string bool

record router_deps =
  rd_deps :: deps
  rd_create :: create_deps
  rd_engine :: template_engine
  rd_list :: list_deps
  rd_audit :: audit_deps
  rd_auth :: auth_deps
  rd_pool :: bool
  rd_redis :: bool
  rd_metrics :: bool
  rd_hub :: bool
  rd_pprof :: bool
  rd_verifier :: bool
  rd_build :: "string \<times> string \<times> string"
  rd_go_version :: string
  rd_decode_create :: "body_in \<Rightarrow> create_request decoded"
  rd_decode_batch :: "body_in \<Rightarrow> create_request list decoded"
  rd_decode_template :: "body_in \<Rightarrow> template_create_request decoded"
  rd_decode_update :: "body_in \<Rightarrow> string decoded"
  rd_chi :: "route list \<Rightarrow> string \<Rightarrow> string \<Rightarrow> routing"

definition NewRouter :: "router_deps \<Rightarrow> route list" where
  "NewRouter rd =
     op_routes (rd_metrics rd) @ (if rd_pprof rd then mountPProf else []) @
     notification_routes @ ws_routes (rd_hub rd) @ admin_routes @ template_routes"

definition chi_ok :: "router_deps \<Rightarrow> bool" where
  "chi_ok rd \<longleftrightarrow>
     (\<forall>m p. case rd_chi rd (NewRouter rd) m p of
              Matched r ps \<Rightarrow> r \<in> set (NewRouter rd) \<and> rt_method r = m
            | Unmatched c pat other \<Rightarrow> c \<in> {[], v1_use, admin_use})"

subsection \<open>Requests, replies and the state of the server\<close>

record http_request =
  rq_method :: string
  rq_path :: string
  rq_request_id :: string
  rq_authorization :: string
  rq_idempotency_key :: string
  rq_query :: "string \<Rightarrow> string"
  rq_body :: string

text \<open>What the calls made for one request meet; \<open>rv_upgrade\<close> is the status of a failed WebSocket upgrade.\<close>

record request_env =
  rv_uuid7 :: "string option"
  rv_uuid4 :: string
  rv_auth :: auth_env
  rv_call :: call_env
  rv_second :: call_env
  rv_recheck :: fault
  rv_create :: create_env
  rv_batch :: batch_env
  rv_replay :: replay_env
  rv_purge :: purge_env
  rv_revoke :: revoke_env
  rv_template_id :: uuid
  rv_upgrade :: "int option"
  rv_pg_ping :: "string option"
  rv_redis_ping :: "string option"
  rv_page_status :: int
  rv_panics :: bool

datatype http_reply =
    PlainReply int string | JsonReply int json | PageReply int | MethodNotAllowed | Refusal "unit reply"
  | CreateReply "created reply" | BatchReply "batch_response reply" | NotificationReply "notification_response reply"
  | BatchDetailReply "batch_detail reply" | ListReply "list_response reply" | WsReply int
  | DeadLettersReply "dead_letter_response list reply" | DeadLetterReply "dead_letter_response reply"
  | ReplayReply "(uuid \<times> string) reply" | PurgeReply "unit reply" | RevokeReply "(uuid \<times> bool) reply"
  | VerifyReply "(int \<times> bool) reply" | TemplateReply "template_response reply"
  | TemplatesReply "template_response list reply" | DeletedReply "unit reply"

fun http_status :: "http_reply \<Rightarrow> int" where
  "http_status (PlainReply st _) = st"
| "http_status (JsonReply st _) = st"
| "http_status (PageReply st) = st"
| "http_status MethodNotAllowed = 405"
| "http_status (Refusal r) = reply_status r"
| "http_status (CreateReply r) = reply_status r"
| "http_status (BatchReply r) = reply_status r"
| "http_status (NotificationReply r) = reply_status r"
| "http_status (BatchDetailReply r) = reply_status r"
| "http_status (ListReply r) = reply_status r"
| "http_status (WsReply st) = st"
| "http_status (DeadLettersReply r) = reply_status r"
| "http_status (DeadLetterReply r) = reply_status r"
| "http_status (ReplayReply r) = reply_status r"
| "http_status (PurgeReply r) = reply_status r"
| "http_status (RevokeReply r) = reply_status r"
| "http_status (VerifyReply r) = reply_status r"
| "http_status (TemplateReply r) = reply_status r"
| "http_status (TemplatesReply r) = reply_status r"
| "http_status (DeletedReply r) = reply_status r"

datatype log_level = LevelInfo | LevelWarn | LevelError

record http_world =
  hw_db :: db
  hw_auth :: "auth_val redis"
  hw_idem :: "idem_record redis"
  hw_hub :: hub
  hw_pub :: "publisher option"
  hw_log :: "(log_level \<times> string \<times> string \<times> int) list"
  hw_panics :: nat
  hw_in_flight :: int
  hw_requests :: "(string \<times> string \<times> int) list"

type_synonym http_handler = "http_world \<Rightarrow> http_reply \<times> http_world"

subsection \<open>Middleware\<close>

definition CorrelationID :: "request_env \<Rightarrow> http_request \<Rightarrow> string" where
  "CorrelationID e rq =
     (if rq_request_id rq = [] then (case rv_uuid7 e of Some u \<Rightarrow> u | None \<Rightarrow> rv_uuid4 e) else rq_request_id rq)"

text \<open>The paths that the access log and the request metrics leave out.\<close>

definition unlogged :: "string \<Rightarrow> bool" where
  "unlogged p = (p \<in> {''/livez'', ''/readyz'', ''/metrics''})"

definition uncounted :: "string \<Rightarrow> bool" where
  "uncounted p = (p \<in> {''/livez'', ''/readyz'', ''/metrics'', ''/version'', ''/openapi.yaml'', ''/docs''})"

definition log_level_for :: "int \<Rightarrow> log_level" where
  "log_level_for st = (if 500 \<le> st then LevelError else if 400 \<le> st then LevelWarn else LevelInfo)"

definition AccessLog :: "http_request \<Rightarrow> http_handler \<Rightarrow> http_handler" where
  "AccessLog rq next w =
     (if unlogged (rq_path rq) then next w
      else (case next w of
              (r, w') \<Rightarrow>
                (r, w'\<lparr>hw_log := hw_log w' @ [(log_level_for (http_status r), rq_method rq, rq_path rq, http_status r)]\<rparr>)))"

definition MetricsMiddleware :: "bool \<Rightarrow> http_request \<Rightarrow> string \<Rightarrow> http_handler \<Rightarrow> http_handler" where
  "MetricsMiddleware enabled rq pattern next w =
     (if \<not> enabled \<or> uncounted (rq_path rq) then next w
      else (case next (w\<lparr>hw_in_flight := hw_in_flight w + 1\<rparr>) of
              (r, w') \<Rightarrow>
                (r, w'\<lparr>hw_requests := hw_requests w' @ [(rq_method rq, if pattern = [] then ''unknown'' else pattern, http_status r)],
                       hw_in_flight := hw_in_flight w' - 1\<rparr>)))"

text \<open>A handler that panics gives no reply; a panic is possible while the reply is written.\<close>

definition Recoverer :: "string \<Rightarrow> (http_world \<Rightarrow> http_reply option \<times> http_world) \<Rightarrow> http_handler" where
  "Recoverer cid next w =
     (case next w of
        (Some r, w') \<Rightarrow> (r, w')
      | (None, w') \<Rightarrow>
          (Refusal (WriteProblem cid 500 ''about:blank'' ''Internal Server Error'' ''an unexpected error occurred''),
           w'\<lparr>hw_panics := hw_panics w' + 1\<rparr>))"

definition noStaticFiles :: "string \<Rightarrow> http_request \<Rightarrow> http_reply" where
  "noStaticFiles cid rq =
     Refusal (WriteProblem cid 404 ''about:blank'' ''Not Found'' (''no route for '' @ rq_method rq @ '' '' @ rq_path rq))"

text \<open>The chain of a route: the caller's key and the limited body, or the refusal of the first middleware that stops.\<close>

fun run_chain ::
  "router_deps \<Rightarrow> request_env \<Rightarrow> string \<Rightarrow> string \<Rightarrow> db \<Rightarrow> mw list \<Rightarrow> authed_key option \<Rightarrow> body_in \<Rightarrow> auth_val redis \<Rightarrow>
   (unit reply + authed_key option \<times> body_in) \<times> auth_val redis" where
  "run_chain rd e cid hdr d [] key b s = (Inr (key, b), s)"
| "run_chain rd e cid hdr d (MaxBodyBytes n # c) key b s = run_chain rd e cid hdr d c key (MaxBytesReader n b) s"
| "run_chain rd e cid hdr d (Authenticate # c) key b s =
     (case AuthMiddleware (rd_auth rd) (rv_auth e) cid hdr d s of
        (Inl r, s1) \<Rightarrow> (Inl r, s1)
      | (Inr k, s1) \<Rightarrow> run_chain rd e cid hdr d c (Some k) b s1)"
| "run_chain rd e cid hdr d (Scoped sc # c) key b s =
     (case RequireScope cid sc key of
        Some r \<Rightarrow> (Inl r, s)
      | None \<Rightarrow> run_chain rd e cid hdr d c key b s)"

subsection \<open>Handlers\<close>

definition livezHandler :: http_reply where
  "livezHandler = PlainReply 200 (''ok'' @ [CHR 0x0A])"

definition dep_check :: "bool \<Rightarrow> string \<Rightarrow> string option \<Rightarrow> (string \<times> json) list" where
  "dep_check wired name err =
     (if wired then [(name, JStr (case err of None \<Rightarrow> ''ok'' | Some m \<Rightarrow> ''unreachable: '' @ m))] else [])"

definition readyzHandler :: "router_deps \<Rightarrow> request_env \<Rightarrow> publisher option \<Rightarrow> http_reply" where
  "readyzHandler rd e pub =
     (let checks = dep_check (rd_pool rd) ''postgres'' (rv_pg_ping e) @ dep_check (rd_redis rd) ''redis'' (rv_redis_ping e) @
                   (case pub of None \<Rightarrow> [] | Some p \<Rightarrow> dep_check True ''rabbitmq'' (Ping p));
          ok = (rd_pool rd \<longrightarrow> rv_pg_ping e = None) \<and> (rd_redis rd \<longrightarrow> rv_redis_ping e = None) \<and>
               (case pub of None \<Rightarrow> True | Some p \<Rightarrow> Ping p = None) in
      JsonReply (if ok then 200 else 503) (JObj [(''checks'', JObj (sorted_entries checks)), (''ok'', JBool ok)]))"

definition versionHandler :: "string \<times> string \<times> string \<Rightarrow> string \<Rightarrow> http_reply" where
  "versionHandler bi go =
     (case bi of (v, c, t) \<Rightarrow>
        JsonReply 200 (JObj [(''version'', JStr v), (''commit'', JStr c), (''build_time'', JStr t), (''go_version'', JStr go)]))"

definition query_of :: "http_request \<Rightarrow> list_query" where
  "query_of rq =
     \<lparr>lq_limit = rq_query rq ''limit'', lq_cursor = rq_query rq ''cursor'', lq_status = rq_query rq ''status'',
      lq_channel = rq_query rq ''channel'', lq_batch_id = rq_query rq ''batch_id'',
      lq_created_after = rq_query rq ''created_after'', lq_created_before = rq_query rq ''created_before''\<rparr>"

text \<open>The handler of an endpoint, with the request values it reads. Each body is limited once more by its handler.\<close>

fun endpoint_handler ::
  "router_deps \<Rightarrow> request_env \<Rightarrow> string \<Rightarrow> http_request \<Rightarrow> (string \<Rightarrow> string) \<Rightarrow> authed_key option \<Rightarrow> body_in \<Rightarrow> endpoint \<Rightarrow>
   http_handler" where
  "endpoint_handler rd e cid rq ps key b Livez w = (livezHandler, w)"
| "endpoint_handler rd e cid rq ps key b Readyz w = (readyzHandler rd e (hw_pub w), w)"
| "endpoint_handler rd e cid rq ps key b VersionInfo w = (versionHandler (rd_build rd) (rd_go_version rd), w)"
| "endpoint_handler rd e cid rq ps key b MetricsPage w = (PageReply (rv_page_status e), w)"
| "endpoint_handler rd e cid rq ps key b OpenAPIPage w = (PageReply (rv_page_status e), w)"
| "endpoint_handler rd e cid rq ps key b DocsPage w = (PageReply (rv_page_status e), w)"
| "endpoint_handler rd e cid rq ps key b (PProf _) w = (PageReply (rv_page_status e), w)"
| "endpoint_handler rd e cid rq ps key b NotifCreate w =
     (case notifications_create (rd_deps rd) (rd_create rd) cid (rv_create e) key (rq_idempotency_key rq)
             (rd_decode_create rd (MaxBytesReader MaxBodyBytesDefault b)) (hw_db w) (hw_idem w) of
        (r, d, s) \<Rightarrow> (CreateReply r, w\<lparr>hw_db := d, hw_idem := s\<rparr>))"
| "endpoint_handler rd e cid rq ps key b NotifBatch w =
     (case createBatch (rd_deps rd) (rd_create rd) cid (rv_batch e) key (rq_idempotency_key rq)
             (rd_decode_batch rd (MaxBytesReader MaxBodyBytesBatch b)) (hw_db w) of
        (r, d) \<Rightarrow> (BatchReply r, w\<lparr>hw_db := d\<rparr>))"
| "endpoint_handler rd e cid rq ps key b NotifCancel w =
     (case cancel (rd_deps rd) cid (rv_call e) (rv_recheck e) key (ps ''id'') (hw_db w) of
        (r, d) \<Rightarrow> (NotificationReply r, w\<lparr>hw_db := d\<rparr>))"
| "endpoint_handler rd e cid rq ps key b NotifGet w =
     (NotificationReply (notifications_get (rd_deps rd) cid (rv_call e) key (ps ''id'') (hw_db w)), w)"
| "endpoint_handler rd e cid rq ps key b NotifByBatch w =
     (BatchDetailReply (getByBatch (rd_deps rd) cid (rv_call e) (rv_second e) key (ps ''batchId'') (hw_db w)), w)"
| "endpoint_handler rd e cid rq ps key b NotifList w =
     (ListReply (notifications_list (rd_deps rd) (rd_list rd) cid (rv_call e) key (query_of rq) (hw_db w)), w)"
| "endpoint_handler rd e cid rq ps key b WsNotifications w =
     (case ws_Handler (rd_deps rd) key (rq_query rq ''filter'') (rv_upgrade e = None) (hw_hub w) of
        (r, h) \<Rightarrow>
          (WsReply (case r of Some (Inl _) \<Rightarrow> 400 | Some (Inr _) \<Rightarrow> 101 | None \<Rightarrow> the (rv_upgrade e)), w\<lparr>hw_hub := h\<rparr>))"
| "endpoint_handler rd e cid rq ps key b DeadLetterList w =
     (DeadLettersReply (admin_list cid (rv_call e) (rq_query rq ''channel'') (hw_db w)), w)"
| "endpoint_handler rd e cid rq ps key b DeadLetterGet w =
     (DeadLetterReply (admin_get (rd_deps rd) cid (rv_call e) (ps ''id'') (hw_db w)), w)"
| "endpoint_handler rd e cid rq ps key b DeadLetterReplay w =
     (case replay (rd_deps rd) (rd_audit rd) cid (rv_replay e) key (ps ''id'') (hw_db w) of
        (r, d) \<Rightarrow> (ReplayReply r, w\<lparr>hw_db := d\<rparr>))"
| "endpoint_handler rd e cid rq ps key b DeadLetterPurge w =
     (case purge (rd_deps rd) (rd_audit rd) cid (rv_purge e) key (ps ''id'') (hw_db w) of
        (r, d) \<Rightarrow> (PurgeReply r, w\<lparr>hw_db := d\<rparr>))"
| "endpoint_handler rd e cid rq ps key b KeyRevoke w =
     (case revokeAPIKey (rd_deps rd) (rd_audit rd) cid (rv_revoke e) key (ps ''id'') (hw_db w) (hw_auth w) of
        (r, d, s) \<Rightarrow> (RevokeReply r, w\<lparr>hw_db := d, hw_auth := s\<rparr>))"
| "endpoint_handler rd e cid rq ps key b AuditVerify w =
     (VerifyReply (verifyAuditChain (rd_audit rd) cid (rd_verifier rd) (cl_fault (rv_call e)) (cl_ctx (rv_call e)) (hw_db w)), w)"
| "endpoint_handler rd e cid rq ps key b TmplCreate w =
     (case templates_create (rd_deps rd) (rd_engine rd) cid (rv_call e) (rv_template_id e) key
             (rd_decode_template rd (MaxBytesReader MaxBodyBytesDefault b)) (hw_db w) of
        (r, d) \<Rightarrow> (TemplateReply r, w\<lparr>hw_db := d\<rparr>))"
| "endpoint_handler rd e cid rq ps key b TmplList w =
     (TemplatesReply (templates_list (rd_deps rd) cid (rv_call e) key (rq_query rq ''limit'') (hw_db w)), w)"
| "endpoint_handler rd e cid rq ps key b TmplGet w =
     (TemplateReply (templates_get (rd_deps rd) cid (rv_call e) key (ps ''id'') (hw_db w)), w)"
| "endpoint_handler rd e cid rq ps key b TmplPut w =
     (case templates_put (rd_deps rd) (rd_engine rd) cid (rv_call e) key (ps ''id'')
             (rd_decode_update rd (MaxBytesReader MaxBodyBytesDefault b)) (hw_db w) of
        (r, d) \<Rightarrow> (TemplateReply r, w\<lparr>hw_db := d\<rparr>))"
| "endpoint_handler rd e cid rq ps key b TmplDel w =
     (case templates_del (rd_deps rd) cid (rv_call e) key (ps ''id'') (hw_db w) of
        (r, d) \<Rightarrow> (DeletedReply r, w\<lparr>hw_db := d\<rparr>))"

subsection \<open>Serving a request\<close>

definition routed :: "router_deps \<Rightarrow> http_request \<Rightarrow> routing" where
  "routed rd rq = rd_chi rd (NewRouter rd) (rq_method rq) (rq_path rq)"

fun routing_pattern :: "routing \<Rightarrow> string" where
  "routing_pattern (Matched r ps) = rt_pattern r"
| "routing_pattern (Unmatched c pat other) = pat"

fun routing_chain :: "routing \<Rightarrow> mw list" where
  "routing_chain (Matched r ps) = rt_chain r"
| "routing_chain (Unmatched c pat other) = c"

definition route_request :: "router_deps \<Rightarrow> request_env \<Rightarrow> string \<Rightarrow> http_request \<Rightarrow> http_world \<Rightarrow> http_reply option \<times> http_world" where
  "route_request rd e cid rq w =
     (case run_chain rd e cid (rq_authorization rq) (hw_db w) (routing_chain (routed rd rq)) None (rq_body rq, False) (hw_auth w) of
        (Inl r, s) \<Rightarrow> (Some (Refusal r), w\<lparr>hw_auth := s\<rparr>)
      | (Inr (key, b), s) \<Rightarrow>
          (case routed rd rq of
             Matched r ps \<Rightarrow>
               (case endpoint_handler rd e cid rq ps key b (rt_endpoint r) (w\<lparr>hw_auth := s\<rparr>) of
                  (reply, w') \<Rightarrow> (if rv_panics e then None else Some reply, w'))
           | Unmatched c pat other \<Rightarrow> (Some (if other then MethodNotAllowed else noStaticFiles cid rq), w\<lparr>hw_auth := s\<rparr>)))"

definition ServeHTTP :: "router_deps \<Rightarrow> request_env \<Rightarrow> http_request \<Rightarrow> http_handler" where
  "ServeHTTP rd e rq =
     AccessLog rq
       (MetricsMiddleware (rd_metrics rd) rq (routing_pattern (routed rd rq))
         (Recoverer (CorrelationID e rq) (route_request rd e (CorrelationID e rq) rq)))"

subsection \<open>What the routes demand\<close>

text \<open>The scope that each endpoint needs; the operational endpoints are open.\<close>

fun endpoint_scope :: "endpoint \<Rightarrow> string option" where
  "endpoint_scope NotifCreate = Some ScopeWrite"
| "endpoint_scope NotifBatch = Some ScopeWrite"
| "endpoint_scope NotifCancel = Some ScopeWrite"
| "endpoint_scope NotifGet = Some ScopeRead"
| "endpoint_scope NotifByBatch = Some ScopeRead"
| "endpoint_scope NotifList = Some ScopeRead"
| "endpoint_scope WsNotifications = Some ScopeRead"
| "endpoint_scope DeadLetterList = Some ScopeAdmin"
| "endpoint_scope DeadLetterGet = Some ScopeAdmin"
| "endpoint_scope DeadLetterReplay = Some ScopeAdmin"
| "endpoint_scope DeadLetterPurge = Some ScopeAdmin"
| "endpoint_scope KeyRevoke = Some ScopeAdmin"
| "endpoint_scope AuditVerify = Some ScopeAdmin"
| "endpoint_scope TmplCreate = Some ScopeWrite"
| "endpoint_scope TmplList = Some ScopeRead"
| "endpoint_scope TmplGet = Some ScopeRead"
| "endpoint_scope TmplPut = Some ScopeWrite"
| "endpoint_scope TmplDel = Some ScopeWrite"
| "endpoint_scope _ = None"

text \<open>The caller's key passes authentication and holds the scope.\<close>

definition authorized :: "router_deps \<Rightarrow> request_env \<Rightarrow> http_request \<Rightarrow> http_world \<Rightarrow> string \<Rightarrow> bool" where
  "authorized rd e rq w sc \<longleftrightarrow>
     (\<exists>k. fst (AuthMiddleware (rd_auth rd) (rv_auth e) (CorrelationID e rq) (rq_authorization rq) (hw_db w) (hw_auth w) ::
                (unit reply + authed_key) \<times> auth_val redis) = Inr k \<and> HasScope k sc)"

text \<open>The parts of the state that handlers share with the rest of the service.\<close>

definition shared :: "http_world \<Rightarrow> db \<times> auth_val redis \<times> idem_record redis \<times> hub \<times> publisher option" where
  "shared w = (hw_db w, hw_auth w, hw_idem w, hw_hub w, hw_pub w)"

definition data_of :: "http_world \<Rightarrow> db \<times> idem_record redis \<times> hub" where
  "data_of w = (hw_db w, hw_idem w, hw_hub w)"

lemma route_shape:
  assumes "r \<in> set (NewRouter rd)"
  shows "case endpoint_scope (rt_endpoint r) of
           None \<Rightarrow> rt_chain r = []
         | Some sc \<Rightarrow> rt_chain r \<in> {v1_use @ [Scoped sc], v1_use @ [MaxBodyBytes MaxBodyBytesBatch, Scoped sc]}"
  using assms
  by (auto simp: NewRouter_def op_routes_def mountPProf_def notification_routes_def ws_routes_def admin_routes_def
      admin_use_def template_routes_def split: if_splits)

lemma MaxBytesReader_le: "0 \<le> n \<Longrightarrow> int (length (fst (MaxBytesReader n b))) \<le> min n (int (length (fst b)))"
  by (auto simp: MaxBytesReader_def)

lemma MaxBytesReader_full: "int (length (fst b)) \<le> n \<Longrightarrow> MaxBytesReader n b = b"
  by (simp add: MaxBytesReader_def)

text \<open>What a request that passes a guarded chain brings along.\<close>

lemma chain_passed:
  assumes "run_chain rd e cid hdr d c None b s = (Inr (key, b'), s')"
    and "c \<in> {v1_use @ [Scoped sc], v1_use @ [MaxBodyBytes MaxBodyBytesBatch, Scoped sc]}"
  shows "\<exists>k. AuthMiddleware (rd_auth rd) (rv_auth e) cid hdr d s = (Inr k :: unit reply + authed_key, s') \<and> key = Some k \<and> HasScope k sc \<and>
    b' = MaxBytesReader MaxBodyBytesDefault b"
proof -
  have "MaxBytesReader MaxBodyBytesBatch (MaxBytesReader MaxBodyBytesDefault b) = MaxBytesReader MaxBodyBytesDefault b"
    using MaxBytesReader_le[of MaxBodyBytesDefault b]
    by (intro MaxBytesReader_full) (simp add: MaxBodyBytesDefault_def MaxBodyBytesBatch_def)
  then show ?thesis
    using assms by (auto simp: v1_use_def RequireScope_def split: prod.splits sum.splits if_splits)
qed

lemma chain_refused:
  assumes "run_chain rd e cid hdr d c key b s = (Inl r, s')"
  shows "\<not> accepted r"
  using assms
proof (induction c arbitrary: key b s)
  case (Cons m c)
  have "\<not> accepted x" if "AuthMiddleware ad ae cid hdr d s0 = (Inl x, s1)" for ad ae s0 s1 and x :: "unit reply"
    using that by (auto simp: AuthMiddleware_def auth_problem_def accepted_problems accepted_error
        split: option.splits prod.splits auth_step.splits sum.splits if_splits)
  then show ?case
    using Cons by (cases m) (auto simp: RequireScope_def accepted_problems split: prod.splits sum.splits option.splits if_splits)
qed simp

lemma endpoint_open:
  "endpoint_scope ep = None \<Longrightarrow> snd (endpoint_handler rd e cid rq ps key b ep w) = w"
  by (cases ep) auto

lemma endpoint_reads:
  "endpoint_scope ep = Some ScopeRead \<Longrightarrow> hw_db (snd (endpoint_handler rd e cid rq ps key b ep w)) = hw_db w"
  by (cases ep) (auto split: prod.splits)

text \<open>The outer middleware leaves the shared state to the routed handler and hands its reply on.\<close>

lemma ServeHTTP_routed:
  assumes "ServeHTTP rd e rq w = (reply, w')"
  obtains w0 ro w1 where "route_request rd e (CorrelationID e rq) rq w0 = (ro, w1)" "shared w0 = shared w" "shared w' = shared w1"
    "ro = Some reply \<or> (ro = None \<and> reply = Refusal (WriteProblem (CorrelationID e rq) 500 ''about:blank'' ''Internal Server Error''
       ''an unexpected error occurred''))"
proof -
  let ?w = "if \<not> rd_metrics rd \<or> uncounted (rq_path rq)
    then w else w\<lparr>hw_in_flight := hw_in_flight w + 1\<rparr>"
  obtain ro w1 where r: "route_request rd e (CorrelationID e rq) rq ?w = (ro, w1)" by fastforce
  have "shared ?w = shared w" by (simp add: shared_def)
  moreover have "shared w' = shared w1"
    using assms r by (auto simp: ServeHTTP_def AccessLog_def MetricsMiddleware_def Recoverer_def shared_def
        split: if_splits prod.splits option.splits)
  moreover have "ro = Some reply \<or> (ro = None \<and> reply = Refusal (WriteProblem (CorrelationID e rq) 500 ''about:blank'' ''Internal Server Error''
       ''an unexpected error occurred''))"
    using assms r by (auto simp: ServeHTTP_def AccessLog_def MetricsMiddleware_def Recoverer_def
        split: if_splits prod.splits option.splits)
  ultimately show thesis using that[OF r] by blast
qed

lemma routed_chain:
  assumes "chi_ok rd" "routed rd rq = Matched r ps"
  shows "case endpoint_scope (rt_endpoint r) of
           None \<Rightarrow> rt_chain r = []
         | Some sc \<Rightarrow> rt_chain r \<in> {v1_use @ [Scoped sc], v1_use @ [MaxBodyBytes MaxBodyBytesBatch, Scoped sc]}"
proof -
  have "r \<in> set (NewRouter rd)" using spec[OF spec[OF assms(1)[unfolded chi_ok_def], of "rq_method rq"], of "rq_path rq"] assms(2) by (simp add: routed_def)
  then show ?thesis by (rule route_shape)
qed

text \<open>What the routed handler does to the data, by the scope of the endpoint.\<close>

lemma route_request_effect:
  assumes "chi_ok rd" "route_request rd e (CorrelationID e rq) rq w = (ro, w')"
  obtains (refused) x where "ro = Some (Refusal x)" "\<not> accepted x" "data_of w' = data_of w"
  | (public) "\<And>r ps. routed rd rq = Matched r ps \<Longrightarrow> endpoint_scope (rt_endpoint r) = None" "data_of w' = data_of w"
  | (scoped) r ps sc where "routed rd rq = Matched r ps" "endpoint_scope (rt_endpoint r) = Some sc" "authorized rd e rq w sc"
      "sc = ScopeRead \<Longrightarrow> hw_db w' = hw_db w"
proof -
  obtain v s where c: "run_chain rd e (CorrelationID e rq) (rq_authorization rq) (hw_db w) (routing_chain (routed rd rq)) None
      (rq_body rq, False) (hw_auth w) = (v, s)" by fastforce
  note rr = assms(2)[unfolded route_request_def c]
  show thesis
  proof (cases v)
    case (Inl x)
    then have "ro = Some (Refusal x)" "w' = w\<lparr>hw_auth := s\<rparr>" using rr by simp_all
    then show ?thesis using chain_refused[OF c[unfolded Inl]] by (intro refused[of x]) (simp_all add: data_of_def)
  next
    case (Inr kb)
    obtain key b where kb: "kb = (key, b)" by (cases kb)
    show ?thesis
    proof (cases "routed rd rq")
      case (Unmatched ch pat other)
      then have "w' = w\<lparr>hw_auth := s\<rparr>" using rr Inr kb by simp
      then show ?thesis using Unmatched by (intro public) (simp_all add: data_of_def)
    next
      case (Matched r ps)
      then have w': "w' = snd (endpoint_handler rd e (CorrelationID e rq) rq ps key b (rt_endpoint r) (w\<lparr>hw_auth := s\<rparr>))"
        using rr Inr kb by (simp split: prod.splits)
      show ?thesis
      proof (cases "endpoint_scope (rt_endpoint r)")
        case None
        then have "w' = w\<lparr>hw_auth := s\<rparr>" using w' endpoint_open by simp
        then show ?thesis using Matched None by (intro public) (simp_all add: data_of_def)
      next
        case (Some sc)
        have ch: "rt_chain r \<in> {v1_use @ [Scoped sc], v1_use @ [MaxBodyBytes MaxBodyBytesBatch, Scoped sc]}"
          using routed_chain[OF assms(1) Matched] Some by simp
        have "authorized rd e rq w sc"
          using chain_passed[OF c[unfolded Inr kb Matched routing_chain.simps] ch] unfolding authorized_def by force
        then show ?thesis using endpoint_reads[of "rt_endpoint r"] Some w' by (intro scoped[OF Matched Some]) simp_all
      qed
    qed
  qed
qed

lemma authorized_cong: "shared v = shared w \<Longrightarrow> authorized rd e rq v sc = authorized rd e rq w sc"
  by (simp add: authorized_def shared_def)

lemma shared_data: "shared v = shared w \<Longrightarrow> data_of v = data_of w \<and> hw_db v = hw_db w"
  by (simp add: data_of_def shared_def)

lemma endpoint_scopes: "endpoint_scope ep = Some sc \<Longrightarrow> sc \<in> {ScopeRead, ScopeWrite, ScopeAdmin}"
  by (cases ep) auto

subsection \<open>Properties\<close>

text \<open>A router over the concrete parameters that takes the first route of the method whose pattern is the path itself.\<close>

definition ex_chi :: "route list \<Rightarrow> string \<Rightarrow> string \<Rightarrow> routing" where
  "ex_chi rs m p = (case find (\<lambda>r. rt_method r = m \<and> rt_pattern r = p) rs of
                      Some r \<Rightarrow> Matched r (\<lambda>_. ''a'') | None \<Rightarrow> Unmatched [] [] False)"

definition ex_rd :: router_deps where
  "ex_rd = \<lparr>rd_deps = ex_deps, rd_create = ex_cd, rd_engine = ex_engine, rd_list = ex_ld, rd_audit = ex_xd, rd_auth = ex_ad,
            rd_pool = True, rd_redis = True, rd_metrics = True, rd_hub = True, rd_pprof = False, rd_verifier = True,
            rd_build = (''dev'', ''none'', ''unknown''), rd_go_version = ''go'', rd_decode_create = (\<lambda>_. Inr ex_request),
            rd_decode_batch = (\<lambda>_. Inr [ex_request]), rd_decode_template = (\<lambda>_. Inl ''eof''), rd_decode_update = (\<lambda>b. Inr (fst b)),
            rd_chi = ex_chi\<rparr>"

definition ex_renv :: request_env where
  "ex_renv =
     \<lparr>rv_uuid7 = Some ''u'', rv_uuid4 = ''v'', rv_auth = ex_av 0, rv_call = ex_call NoFault, rv_second = ex_call NoFault,
      rv_recheck = NoFault, rv_create = ex_create 0,
      rv_batch = \<lparr>be_now = (\<lambda>_. 0), be_db_now = 0, be_batch_id = 1, be_item_id = of_nat, be_outbox_id = of_nat, be_begin_lost = False,
                  be_batch_lost = False, be_item_lost = (\<lambda>_. False), be_outbox_lost = (\<lambda>_. False), be_commit = NoFault, be_ctx = None\<rparr>,
      rv_replay = \<lparr>re_now = 9, re_outbox_id = 4, re_serial = 1, re_begin_lost = False, re_get_lost = False, re_between = (\<lambda>d. d),
                   re_reset_lost = False, re_delete_lost = False, re_insert_lost = False, re_audit_lost = False, re_commit = NoFault,
                   re_ctx = None\<rparr>,
      rv_purge = \<lparr>ue_now = 9, ue_serial = 1, ue_delete = NoFault, ue_audit = NoFault, ue_ctx = None\<rparr>,
      rv_revoke = \<lparr>ve_now = 9, ve_serial = 1, ve_redis = True, ve_revoke = NoFault, ve_mark = NoFault, ve_audit = NoFault, ve_ctx = None\<rparr>,
      rv_template_id = 1, rv_upgrade = None, rv_pg_ping = None, rv_redis_ping = None, rv_page_status = 200, rv_panics = False\<rparr>"

definition ex_rq :: "string \<Rightarrow> string \<Rightarrow> http_request" where
  "ex_rq m p = \<lparr>rq_method = m, rq_path = p, rq_request_id = ''q'', rq_authorization = [], rq_idempotency_key = [],
                rq_query = (\<lambda>_. []), rq_body = []\<rparr>"

definition ex_hw :: "db \<Rightarrow> http_world" where
  "ex_hw d = \<lparr>hw_db = d, hw_auth = Map.empty, hw_idem = Map.empty, hw_hub = NewHub, hw_pub = None, hw_log = [], hw_panics = 0,
              hw_in_flight = 0, hw_requests = []\<rparr>"

lemma ex_chi_ok: "chi_ok ex_rd"
  by (auto simp: chi_ok_def ex_rd_def ex_chi_def find_Some_iff in_set_conv_nth split: option.splits)

lemma ex_routed: "\<exists>r ps. routed ex_rd (ex_rq ''DELETE'' ''/v1/notifications/{id}'') = Matched r ps \<and> rt_endpoint r = NotifCancel"
  by (simp add: routed_def ex_rd_def ex_chi_def ex_rq_def NewRouter_def op_routes_def notification_routes_def)

text \<open>
  C7: The API acts only for authorized callers. Whatever a request meets, the database, the idempotency records and the
  set of live connections change only for a route whose scope the authenticated key of the request holds; the database
  changes only for a key with the write or the admin scope; and a request to a route whose scope the caller lacks is
  refused.
\<close>

theorem http_authorized:
  assumes "chi_ok rd" "ServeHTTP rd e rq w = (reply, w')"
  shows "(data_of w' \<noteq> data_of w \<longrightarrow>
      (\<exists>r ps sc. routed rd rq = Matched r ps \<and> endpoint_scope (rt_endpoint r) = Some sc \<and> authorized rd e rq w sc)) \<and>
    (hw_db w' \<noteq> hw_db w \<longrightarrow> authorized rd e rq w ScopeWrite \<or> authorized rd e rq w ScopeAdmin) \<and>
    (\<forall>r ps sc. routed rd rq = Matched r ps \<and> endpoint_scope (rt_endpoint r) = Some sc \<and> \<not> authorized rd e rq w sc \<longrightarrow>
      (\<exists>x. reply = Refusal x \<and> \<not> accepted x))"
proof -
  obtain w0 ro w1 where r: "route_request rd e (CorrelationID e rq) rq w0 = (ro, w1)"
    and sh: "shared w0 = shared w" "shared w' = shared w1"
    and ro: "ro = Some reply \<or> (ro = None \<and> reply = Refusal (WriteProblem (CorrelationID e rq) 500 ''about:blank'' ''Internal Server Error''
       ''an unexpected error occurred''))"
    using ServeHTTP_routed[OF assms(2)] .
  note eq = shared_data[OF sh(1)] shared_data[OF sh(2)] authorized_cong[OF sh(1)]
  show ?thesis
    using assms(1) r
  proof (cases rule: route_request_effect)
    case (refused x)
    then show ?thesis using ro eq by (auto simp: data_of_def)
  next
    case public
    then show ?thesis using eq by (fastforce simp: data_of_def)
  next
    case (scoped r ps sc)
    then show ?thesis using eq endpoint_scopes[OF scoped(2)] by auto
  qed
qed

theorem http_authorized_witness:
  "\<exists>x. fst (ServeHTTP ex_rd ex_renv (ex_rq ''DELETE'' ''/v1/notifications/{id}'') (ex_hw ex_pair)) = Refusal x \<and> \<not> accepted x"
proof -
  let ?rq = "ex_rq ''DELETE'' ''/v1/notifications/{id}''"
  obtain r ps where r: "routed ex_rd ?rq = Matched r ps" "rt_endpoint r = NotifCancel" using ex_routed by blast
  have "\<not> authorized ex_rd ex_renv ?rq (ex_hw ex_pair) ScopeWrite"
    by (simp add: authorized_def AuthMiddleware_def extractBearer_def ex_rq_def)
  then show ?thesis
    using http_authorized[OF ex_chi_ok prod.collapse[symmetric], of ex_renv ?rq "ex_hw ex_pair"] r by auto
qed

lemma endpoint_books:
  assumes "endpoint_handler rd e cid rq ps key b ep w = (r, w')"
  shows "hw_log w' = hw_log w \<and> hw_requests w' = hw_requests w \<and> hw_in_flight w' = hw_in_flight w"
  using assms by (cases ep) (auto split: prod.splits)

lemma route_request_books:
  assumes "route_request rd e cid rq w = (ro, w')"
  shows "hw_log w' = hw_log w \<and> hw_requests w' = hw_requests w \<and> hw_in_flight w' = hw_in_flight w"
  using assms by (auto simp: route_request_def dest!: endpoint_books split: prod.splits sum.splits routing.splits)

text \<open>
  Every request is accounted for once. A request outside the health endpoints adds one line to the access log, with the level
  of the status it was answered with, and, outside the operational endpoints, one count for its route; a handler that panics is
  answered with 500 and counted as such, and the gauge of requests in flight is back where it was.
\<close>

theorem request_accounted:
  assumes "ServeHTTP rd e rq w = (reply, w')"
  shows "hw_in_flight w' = hw_in_flight w \<and>
    hw_log w' = hw_log w @
      (if unlogged (rq_path rq) then []
       else [(log_level_for (http_status reply), rq_method rq, rq_path rq, http_status reply)]) \<and>
    hw_requests w' = hw_requests w @
      (if \<not> rd_metrics rd \<or> uncounted (rq_path rq) then []
       else [(rq_method rq, if routing_pattern (routed rd rq) = [] then ''unknown'' else routing_pattern (routed rd rq),
              http_status reply)])"
  using assms
  by (auto simp: ServeHTTP_def AccessLog_def MetricsMiddleware_def Recoverer_def dest!: route_request_books
      split: if_splits prod.splits option.splits)

theorem request_accounted_witness:
  "\<exists>st. hw_log (snd (ServeHTTP ex_rd ex_renv (ex_rq ''DELETE'' ''/v1/notifications/{id}'') (ex_hw ex_pair))) =
     [(log_level_for st, ''DELETE'', ''/v1/notifications/{id}'', st)]"
  using request_accounted[OF prod.collapse[symmetric], of ex_rd ex_renv "ex_rq ''DELETE'' ''/v1/notifications/{id}''" "ex_hw ex_pair"]
  by (auto simp: ex_hw_def ex_rq_def unlogged_def)

text \<open>
  The body of a batch is limited like any other: the wider limit of its route lies inside the limit of the version prefix.
\<close>

theorem batch_body_limit:
  assumes "chi_ok rd" "routed rd rq = Matched r ps" "rt_endpoint r = NotifBatch"
    and "run_chain rd e cid (rq_authorization rq) d (rt_chain r) None (rq_body rq, False) s = (Inr (key, b), s')"
  shows "fst (MaxBytesReader MaxBodyBytesBatch b) = take (2 ^ 20) (rq_body rq)"
proof -
  have c: "rt_chain r \<in> {v1_use @ [Scoped ScopeWrite], v1_use @ [MaxBodyBytes MaxBodyBytesBatch, Scoped ScopeWrite]}"
    using routed_chain[OF assms(1,2)] assms(3) by simp
  have b: "b = MaxBytesReader MaxBodyBytesDefault (rq_body rq, False)" using chain_passed[OF assms(4) c] by blast
  have "int (length (fst b)) \<le> MaxBodyBytesBatch"
    using MaxBytesReader_le[of MaxBodyBytesDefault "(rq_body rq, False)"] b
    by (simp add: MaxBodyBytesDefault_def MaxBodyBytesBatch_def)
  then show ?thesis using MaxBytesReader_full b by (simp add: MaxBytesReader_def MaxBodyBytesDefault_def)
qed

end
