(* ===== verification/Process.thy ===== *)
theory Process
  imports Router Outbox Scheduler Sweeper
begin

text \<open>
  The process around the components: AMQP connections (\<open>dial\<close>, channels and consumers of \<open>internal/queue\<close>,
  the depth sampler), the worker pools (\<open>internal/worker/manager.go\<close>), the database pool and the migration
  runner (\<open>internal/store\<close>), and \<open>cmd/notifyd/main.go\<close> with its configuration: what is started in which mode,
  and what is released on every way out.

  What a library call returns is an argument: \<open>None\<close> for success or the text of the error.
\<close>

subsection \<open>AMQP connections\<close>

datatype amqp_ev = ConnOpen | ConnClose | ChanOpen nat | ChanClose nat | TopologyDeclared nat | ConfirmMode nat

record chan_env =
  ce_open :: "string option"
  ce_topology :: "string option"
  ce_confirm :: "string option"

text \<open>
  The loop of \<open>dial\<close> that opens the pool: channel \<open>i\<close> next, \<open>n\<close> to go, \<open>cs\<close> open so far. The first failure closes what was opened.
\<close>

fun open_channels :: "(nat \<Rightarrow> chan_env) \<Rightarrow> nat \<Rightarrow> nat \<Rightarrow> nat list \<Rightarrow> (string + nat list) \<times> amqp_ev list" where
  "open_channels ce i 0 cs = (Inr cs, [])"
| "open_channels ce i (Suc n) cs =
     (case ce_open (ce i) of
        Some err \<Rightarrow> (Inl (''amqp channel['' @ show_nat i @ '']: '' @ err), map ChanClose cs @ [ConnClose])
      | None \<Rightarrow>
          (case (if i = 0 then ce_topology (ce i) else None) of
             Some err \<Rightarrow> (Inl (''declare topology: '' @ err), ChanOpen i # ChanClose i # map ChanClose cs @ [ConnClose])
           | None \<Rightarrow>
               (let evs = ChanOpen i # (if i = 0 then [TopologyDeclared i] else []) in
                case ce_confirm (ce i) of
                  Some err \<Rightarrow> (Inl (''confirm.select on channel['' @ show_nat i @ '']: '' @ err),
                               evs @ ChanClose i # map ChanClose cs @ [ConnClose])
                | None \<Rightarrow>
                    (case open_channels ce (Suc i) n (cs @ [i]) of
                       (r, evs') \<Rightarrow> (r, evs @ ConfirmMode i # evs')))))"

definition Publisher_dial :: "string option \<Rightarrow> (nat \<Rightarrow> chan_env) \<Rightarrow> publisher \<Rightarrow> string option \<times> publisher \<times> amqp_ev list" where
  "Publisher_dial dialErr ce p =
     (case dialErr of
        Some err \<Rightarrow> (Some (''amqp dial: '' @ err), p, [])
      | None \<Rightarrow>
          (case open_channels ce 0 DefaultChannelPoolSize [] of
             (Inl err, evs) \<Rightarrow> (Some err, p, ConnOpen # evs)
           | (Inr cs, evs) \<Rightarrow> (None, p\<lparr>pub_chans := cs, pub_conn_open := True\<rparr>, ConnOpen # evs)))"

definition NewPublisher :: "string option \<Rightarrow> (nat \<Rightarrow> chan_env) \<Rightarrow> (string + publisher) \<times> amqp_ev list" where
  "NewPublisher dialErr ce =
     (case Publisher_dial dialErr ce \<lparr>pub_chans = [], pub_round_robin = 0, pub_conn_open = False, pub_stopped = False\<rparr> of
        (Some err, p, evs) \<Rightarrow> (Inl err, evs)
      | (None, p, evs) \<Rightarrow> (Inr p, evs))"

text \<open>The passive declaration of \<open>QueueDepth\<close>; \<open>inspect\<close> is the broker's answer for a queue and the arguments sent.\<close>

definition QueueDepth :: "(string \<Rightarrow> queue_args \<Rightarrow> string + int) \<Rightarrow> publisher \<Rightarrow> string \<Rightarrow> string + int" where
  "QueueDepth inspect p q =
     (if pub_chans p = [] then Inl ''publisher: no channel''
      else inspect q \<lparr>qa_max_priority = Some maxPriority, qa_message_ttl = None, qa_dlx = Some ExchangeDLX,
                      qa_dl_routing_key = Some (drop (length ''notifications.'') q @ ''.dead'')\<rparr>)"

definition sampled_queues :: "(string \<times> string) list" where
  "sampled_queues = [(QueueSMS, ''main''), (QueueEmail, ''main''), (QueuePush, ''main''),
                     (QueueSMSDLQ, ''dlq''), (QueueEmailDLQ, ''dlq''), (QueuePushDLQ, ''dlq'')]"

text \<open>One tick of the sampler on the gauge; a queue whose depth is unknown keeps its last value.\<close>

definition sampler_tick ::
  "(string \<Rightarrow> queue_args \<Rightarrow> string + int) \<Rightarrow> publisher \<Rightarrow> (string \<times> string \<rightharpoonup> int) \<Rightarrow> (string \<times> string \<rightharpoonup> int)" where
  "sampler_tick inspect p g =
     fold (\<lambda>q g. case QueueDepth inspect p (fst q) of Inl _ \<Rightarrow> g | Inr n \<Rightarrow> g(q \<mapsto> n)) sampled_queues g"

text \<open>The shared connection of the consumers.\<close>

record consumer_conn =
  cc_conn :: "bool option"
  cc_stopped :: bool

definition ConsumerConnection_dial ::
  "string option \<Rightarrow> string option \<Rightarrow> string option \<Rightarrow> consumer_conn \<Rightarrow> string option \<times> consumer_conn \<times> amqp_ev list" where
  "ConsumerConnection_dial dialErr chanErr topoErr cc =
     (case dialErr of
        Some err \<Rightarrow> (Some (''amqp dial: '' @ err), cc, [])
      | None \<Rightarrow>
          (case chanErr of
             Some err \<Rightarrow> (Some (''amqp channel for topology: '' @ err), cc, [ConnOpen, ConnClose])
           | None \<Rightarrow>
               (case topoErr of
                  Some err \<Rightarrow> (Some (''declare topology: '' @ err), cc, [ConnOpen, ChanOpen 0, ChanClose 0, ConnClose])
                | None \<Rightarrow> (None, cc\<lparr>cc_conn := Some True\<rparr>, [ConnOpen, ChanOpen 0, TopologyDeclared 0, ChanClose 0]))))"

definition NewConsumerConnection ::
  "string option \<Rightarrow> string option \<Rightarrow> string option \<Rightarrow> (string + consumer_conn) \<times> amqp_ev list" where
  "NewConsumerConnection dialErr chanErr topoErr =
     (case ConsumerConnection_dial dialErr chanErr topoErr \<lparr>cc_conn = None, cc_stopped = False\<rparr> of
        (Some err, cc, evs) \<Rightarrow> (Inl err, evs)
      | (None, cc, evs) \<Rightarrow> (Inr cc, evs))"

definition ConsumerConnection_channel :: "string option \<Rightarrow> consumer_conn \<Rightarrow> string option" where
  "ConsumerConnection_channel chanErr cc =
     (if cc_conn cc \<noteq> Some True then Some ''consumer connection: closed (reconnecting?)'' else chanErr)"

definition ConsumerConnection_Close :: "consumer_conn \<Rightarrow> consumer_conn \<times> amqp_ev list" where
  "ConsumerConnection_Close cc =
     (if cc_stopped cc then (cc, [])
      else (cc\<lparr>cc_stopped := True, cc_conn := map_option (\<lambda>_. False) (cc_conn cc)\<rparr>,
            if cc_conn cc = Some True then [ConnClose] else []))"

record consumer =
  co_queue :: string
  co_prefetch :: int
  co_channel :: nat

text \<open>\<open>NewConsumer\<close> with channel \<open>i\<close> as the fresh one.\<close>

definition NewConsumer ::
  "string option \<Rightarrow> string option \<Rightarrow> nat \<Rightarrow> consumer_conn \<Rightarrow> string \<Rightarrow> int \<Rightarrow> (string + consumer) \<times> amqp_ev list" where
  "NewConsumer chanErr qosErr i cc q prefetch =
     (case ConsumerConnection_channel chanErr cc of
        Some err \<Rightarrow> (Inl (''acquire channel: '' @ err), [])
      | None \<Rightarrow>
          (case qosErr of
             Some err \<Rightarrow> (Inl (''basic.qos: '' @ err), [ChanOpen i, ChanClose i])
           | None \<Rightarrow> (Inr \<lparr>co_queue = q, co_prefetch = prefetch, co_channel = i\<rparr>, [ChanOpen i])))"

definition Consumer_Close :: "consumer \<Rightarrow> amqp_ev list" where
  "Consumer_Close c = [ChanClose (co_channel c)]"

subsection \<open>Worker pools (manager.go)\<close>

record pool_spec =
  SMSCount :: int
  EmailCount :: int
  PushCount :: int

text \<open>One worker: its name, the queue it consumes and the pipeline of its channel.\<close>

record worker =
  wk_name :: string
  wk_queue :: string
  wk_pipeline :: pipeline

definition worker_counts :: "pool_spec \<Rightarrow> string \<rightharpoonup> int" where
  "worker_counts spec = [''sms'' \<mapsto> SMSCount spec, ''email'' \<mapsto> EmailCount spec, ''push'' \<mapsto> PushCount spec]"

definition manager_queues :: "string \<rightharpoonup> string" where
  "manager_queues = [''sms'' \<mapsto> QueueSMS, ''email'' \<mapsto> QueueEmail, ''push'' \<mapsto> QueuePush]"

definition channel_workers :: "pool_spec \<Rightarrow> bool \<Rightarrow> bool \<Rightarrow> string \<Rightarrow> worker list" where
  "channel_workers spec pub evs ch =
     (case (worker_counts spec ch, manager_queues ch) of
        (Some n, Some q) \<Rightarrow>
          map (\<lambda>i. \<lparr>wk_name = ch @ ''-'' @ show_nat i, wk_queue = q, wk_pipeline = new_pipeline ch pub evs\<rparr>) [0..<nat n]
      | _ \<Rightarrow> [])"

text \<open>
  The group of workers; Go iterates the channel map in an arbitrary order \<open>order\<close>. A worker that cannot get its consumer
  fails; the others run their consumer.
\<close>

definition manager_workers :: "pool_spec \<Rightarrow> bool \<Rightarrow> bool \<Rightarrow> string list \<Rightarrow> worker list" where
  "manager_workers spec pub evs order = concat (map (channel_workers spec pub evs) order)"

definition start_worker ::
  "string option \<Rightarrow> string option \<Rightarrow> nat \<Rightarrow> consumer_conn \<Rightarrow> worker \<Rightarrow> (string + consumer) \<times> amqp_ev list" where
  "start_worker chanErr qosErr i cc wk =
     (case NewConsumer chanErr qosErr i cc (wk_queue wk) 1 of
        (Inl err, evs) \<Rightarrow> (Inl (''worker '' @ wk_name wk @ '' consumer: '' @ err), evs)
      | (Inr c, evs) \<Rightarrow> (Inr c, evs))"

text \<open>What one worker meets: errors of its channel and prefetch calls, its fresh channel and how its consumer ends.\<close>

record worker_env =
  wv_channel :: "string option"
  wv_qos :: "string option"
  wv_index :: nat
  wv_run :: "string option"

definition run_worker :: "worker_env \<Rightarrow> consumer_conn \<Rightarrow> worker \<Rightarrow> string option \<times> amqp_ev list" where
  "run_worker e cc wk =
     (case start_worker (wv_channel e) (wv_qos e) (wv_index e) cc wk of
        (Inl err, evs) \<Rightarrow> (Some err, evs)
      | (Inr c, evs) \<Rightarrow> (wv_run e, evs @ Consumer_Close c))"

text \<open>An error group returns the first error among its members, in the order they finish.\<close>

fun group_wait :: "('t \<times> string option) list \<Rightarrow> string option" where
  "group_wait [] = None"
| "group_wait ((t, Some err) # rs) = Some err"
| "group_wait ((t, None) # rs) = group_wait rs"

text \<open>\<open>finished\<close> gives the workers in the order in which they end.\<close>

definition Manager_Run ::
  "(string + consumer_conn) \<Rightarrow> pool_spec \<Rightarrow> bool \<Rightarrow> bool \<Rightarrow> string list \<Rightarrow> (worker \<Rightarrow> worker_env) \<Rightarrow> (worker list \<Rightarrow> worker list) \<Rightarrow>
   string option \<times> amqp_ev list" where
  "Manager_Run conn spec pub evs order we finished =
     (case conn of
        Inl err \<Rightarrow> (Some (''amqp consumer connection: '' @ err), [])
      | Inr cc \<Rightarrow>
          (let ws = finished (manager_workers spec pub evs order); rs = map (\<lambda>wk. run_worker (we wk) cc wk) ws in
           (group_wait (zip ws (map fst rs)), concat (map snd rs) @ snd (ConsumerConnection_Close cc))))"

subsection \<open>Database pool and migrations\<close>

record pool_env =
  po_parse :: "string option"
  po_open :: "string option"
  po_ping :: "string option"

datatype resource = ResPool | ResTracing | ResRedis | ResPublisher

datatype task = TOutbox | TScheduler | TWorkers | TSweeper | TAudit | TSampler | THub | THTTP | TShutdown

datatype proc_ev = Opened resource | Closed resource | Started task

definition NewPool :: "pool_env \<Rightarrow> string option \<times> proc_ev list" where
  "NewPool e =
     (case po_parse e of
        Some err \<Rightarrow> (Some (''parse db url: '' @ err), [])
      | None \<Rightarrow>
          (case po_open e of
             Some err \<Rightarrow> (Some (''pool open: '' @ err), [])
           | None \<Rightarrow>
               (case po_ping e of
                  Some err \<Rightarrow> (Some (''pool ping: '' @ err), [Opened ResPool, Closed ResPool])
                | None \<Rightarrow> (None, []))))"

text \<open>\<open>up\<close>: the outcome of the migration library, where having nothing to do is not an error.\<close>

datatype up_result = UpDone | UpNoChange | UpFailed string

record migrate_env =
  mi_subfs :: "string option"
  mi_source :: "string option"
  mi_init :: "string option"
  mi_up :: up_result

definition Migrate :: "migrate_env \<Rightarrow> string option" where
  "Migrate e =
     (case mi_subfs e of
        Some err \<Rightarrow> Some (''migrations subfs: '' @ err)
      | None \<Rightarrow>
          (case mi_source e of
             Some err \<Rightarrow> Some (''migrations source: '' @ err)
           | None \<Rightarrow>
               (case mi_init e of
                  Some err \<Rightarrow> Some (''migrate init: '' @ err)
                | None \<Rightarrow> (case mi_up e of UpFailed err \<Rightarrow> Some (''migrate up: '' @ err) | _ \<Rightarrow> None))))"

subsection \<open>Configuration and start-up\<close>

record config =
  cfg_Mode :: string
  cfg_HTTPAddr :: string
  cfg_LogLevel :: string
  cfg_Env :: string
  cfg_DatabaseURL :: string
  cfg_RedisURL :: string
  cfg_AMQPURL :: string
  cfg_WebhookURL :: string
  cfg_WorkerCountSMS :: int
  cfg_WorkerCountEmail :: int
  cfg_WorkerCountPush :: int
  cfg_OutboxPollInterval :: time
  cfg_OutboxBatchSize :: int
  cfg_OTELEndpoint :: string
  cfg_OTELSampleRatio :: rat
  cfg_OTELDisabled :: bool
  cfg_DevAPIKey :: string
  cfg_PProfEnabled :: bool
  cfg_SchedulerEnabled :: bool

record boot_env =
  bt_migrate :: migrate_env
  bt_pool :: pool_env
  bt_tracing :: "string option"
  bt_redis_url :: "string option"
  bt_redis_ping :: "string option"
  bt_argon :: argon2
  bt_salt :: string
  bt_now :: time
  bt_key_id :: uuid
  bt_seed :: fault
  bt_dial :: "string option"
  bt_channels :: "nat \<Rightarrow> chan_env"
  bt_provider :: "string option"
  bt_finished :: "task list \<Rightarrow> (task \<times> string option) list"

definition contains :: "string \<Rightarrow> string \<Rightarrow> bool" where
  "contains s sub = list_ex (\<lambda>i. take (length sub) (drop i s) = sub) [0..<Suc (length s)]"

definition worker_mode :: "config \<Rightarrow> bool" where
  "worker_mode cfg \<longleftrightarrow> cfg_Mode cfg = ''worker'' \<or> cfg_Mode cfg = ''all''"

definition tasks_of :: "config \<Rightarrow> task list" where
  "tasks_of cfg =
     (if worker_mode cfg then [TOutbox] @ (if cfg_SchedulerEnabled cfg then [TScheduler] else []) @ [TWorkers, TSweeper] else []) @
     [TAudit] @ (if worker_mode cfg then [TSampler] else []) @ [THub, THTTP, TShutdown]"

definition outbox_config_of :: "config \<Rightarrow> string \<Rightarrow> outbox_config" where
  "outbox_config_of cfg dispID =
     (Outbox_Default dispID)\<lparr>oc_poll_interval := cfg_OutboxPollInterval cfg, oc_batch_size := cfg_OutboxBatchSize cfg\<rparr>"

definition pool_spec_of :: "config \<Rightarrow> pool_spec" where
  "pool_spec_of cfg =
     \<lparr>SMSCount = cfg_WorkerCountSMS cfg, EmailCount = cfg_WorkerCountEmail cfg, PushCount = cfg_WorkerCountPush cfg\<rparr>"

text \<open>The guard on the development key: the database after it, or the error that ends the start-up.\<close>

definition dev_key_guard :: "deps \<Rightarrow> config \<Rightarrow> boot_env \<Rightarrow> db \<Rightarrow> string option \<times> db" where
  "dev_key_guard dp cfg e d =
     (if cfg_DevAPIKey cfg = [] then (None, d)
      else if cfg_Env cfg \<noteq> ''development'' then
        (Some (''DEV_API_KEY is set but APP_ENV='' @ fmt_q dp (cfg_Env cfg) @ '' (must be 'development' to seed the dev key)''), d)
      else
        (case run_stmt (bt_seed e) (SeedDevKey (bt_argon e) (bt_salt e) (bt_now e) (bt_key_id e) (cfg_DevAPIKey cfg)) d of
           (Inl err, d') \<Rightarrow> (Some (''seed dev api key: '' @ db_err_text dp err), d')
         | (Inr _, d') \<Rightarrow> (None, d')))"

text \<open>A deferred release runs when the function returns, whatever it returns.\<close>

definition deferring :: "resource \<Rightarrow> string option \<times> proc_ev list \<times> db \<Rightarrow> string option \<times> proc_ev list \<times> db" where
  "deferring r x = (case x of (res, evs, d) \<Rightarrow> (res, Opened r # evs @ [Closed r], d))"

definition run_group :: "config \<Rightarrow> boot_env \<Rightarrow> db \<Rightarrow> string option \<times> proc_ev list \<times> db" where
  "run_group cfg e d = (group_wait (bt_finished e (tasks_of cfg)), map Started (tasks_of cfg), d)"

definition run_services :: "config \<Rightarrow> boot_env \<Rightarrow> db \<Rightarrow> string option \<times> proc_ev list \<times> db" where
  "run_services cfg e d =
     (if \<not> worker_mode cfg then run_group cfg e d
      else
        (case fst (NewPublisher (bt_dial e) (bt_channels e)) of
           Inl err \<Rightarrow> (Some (''amqp publisher: '' @ err), [], d)
         | Inr p \<Rightarrow>
             deferring ResPublisher
               (if contains (cfg_WebhookURL cfg) ''REPLACE-WITH-YOUR-UUID'' then
                  (Some ''WEBHOOK_URL is the .env.example placeholder; get a UUID from https://webhook.site and update .env'', [], d)
                else
                  (case bt_provider e of
                     Some err \<Rightarrow> (Some (''provider client: '' @ err), [], d)
                   | None \<Rightarrow> run_group cfg e d))))"

definition run_redis :: "deps \<Rightarrow> config \<Rightarrow> boot_env \<Rightarrow> db \<Rightarrow> string option \<times> proc_ev list \<times> db" where
  "run_redis dp cfg e d =
     (case bt_redis_url e of
        Some err \<Rightarrow> (Some (''parse redis url: '' @ err), [], d)
      | None \<Rightarrow>
          deferring ResRedis
            (case bt_redis_ping e of
               Some err \<Rightarrow> (Some (''redis ping: '' @ err), [], d)
             | None \<Rightarrow>
                 (case dev_key_guard dp cfg e d of
                    (Some err, d') \<Rightarrow> (Some err, [], d')
                  | (None, d') \<Rightarrow> run_services cfg e d')))"

definition run_process :: "deps \<Rightarrow> config \<Rightarrow> bool \<Rightarrow> boot_env \<Rightarrow> db \<Rightarrow> string option \<times> proc_ev list \<times> db" where
  "run_process dp cfg skipMigrate e d =
     (if cfg_Mode cfg \<notin> {''api'', ''worker'', ''all''} then
        (Some (''invalid mode '' @ fmt_q dp (cfg_Mode cfg) @ '' (want api | worker | all)''), [], d)
      else
        (case (if skipMigrate then None else Migrate (bt_migrate e)) of
           Some err \<Rightarrow> (Some (''migrate: '' @ err), [], d)
         | None \<Rightarrow>
             (case NewPool (bt_pool e) of
                (Some err, evs) \<Rightarrow> (Some (''pg pool: '' @ err), evs, d)
              | (None, evs) \<Rightarrow>
                  deferring ResPool
                    (case bt_tracing e of
                       Some err \<Rightarrow> (Some (''otel setup: '' @ err), [], d)
                     | None \<Rightarrow> deferring ResTracing (run_redis dp cfg e d)))))"

text \<open>\<open>main\<close>: the exit code. \<open>loaded\<close> is what the configuration library returns.\<close>

definition runHealthcheck :: "string option \<Rightarrow> string option \<Rightarrow> int \<Rightarrow> int" where
  "runHealthcheck reqErr doErr status =
     (case reqErr of Some _ \<Rightarrow> 1 | None \<Rightarrow> (case doErr of Some _ \<Rightarrow> 1 | None \<Rightarrow> if status \<noteq> 200 then 1 else 0))"

definition healthcheck_url :: "string list \<Rightarrow> string" where
  "healthcheck_url args = (case args of a # _ \<Rightarrow> if a \<noteq> [] then a else ''http://127.0.0.1:8080/livez'' | [] \<Rightarrow> ''http://127.0.0.1:8080/livez'')"

definition override_flags :: "string \<Rightarrow> string \<Rightarrow> config \<Rightarrow> config" where
  "override_flags modeFlag addrFlag cfg =
     (let c1 = (if modeFlag \<noteq> [] then cfg\<lparr>cfg_Mode := modeFlag\<rparr> else cfg) in
      if addrFlag \<noteq> [] then c1\<lparr>cfg_HTTPAddr := addrFlag\<rparr> else c1)"

definition parseLogLevel :: "string \<Rightarrow> int" where
  "parseLogLevel s = (if s = ''debug'' then -4 else if s = ''warn'' then 4 else if s = ''error'' then 8 else 0)"

definition main_exit ::
  "deps \<Rightarrow> (string + config) \<Rightarrow> string \<Rightarrow> string \<Rightarrow> bool \<Rightarrow> boot_env \<Rightarrow> db \<Rightarrow> int \<times> proc_ev list \<times> db" where
  "main_exit dp loaded modeFlag addrFlag skipMigrate e d =
     (case loaded of
        Inl _ \<Rightarrow> (2, [], d)
      | Inr cfg \<Rightarrow>
          (case run_process dp (override_flags modeFlag addrFlag cfg) skipMigrate e d of
             (Some _, evs, d') \<Rightarrow> (1, evs, d')
           | (None, evs, d') \<Rightarrow> (0, evs, d')))"

subsection \<open>What is open after a sequence of calls\<close>

definition amqp_step :: "amqp_ev \<Rightarrow> bool \<times> nat set \<Rightarrow> bool \<times> nat set" where
  "amqp_step ev st =
     (case (ev, st) of
        (ConnOpen, (c, cs)) \<Rightarrow> (True, cs)
      | (ConnClose, (c, cs)) \<Rightarrow> (False, cs)
      | (ChanOpen i, (c, cs)) \<Rightarrow> (c, insert i cs)
      | (ChanClose i, (c, cs)) \<Rightarrow> (c, cs - {i})
      | (_, st) \<Rightarrow> st)"

definition amqp_open :: "amqp_ev list \<Rightarrow> bool \<times> nat set" where
  "amqp_open evs = fold amqp_step evs (False, {})"

lemma amqp_step_simps [simp]:
  "amqp_step ConnOpen (c, cs) = (True, cs)" "amqp_step ConnClose (c, cs) = (False, cs)"
  "amqp_step (ChanOpen i) (c, cs) = (c, insert i cs)" "amqp_step (ChanClose i) (c, cs) = (c, cs - {i})"
  "amqp_step (TopologyDeclared i) (c, cs) = (c, cs)" "amqp_step (ConfirmMode i) (c, cs) = (c, cs)"
  by (simp_all add: amqp_step_def)

lemma close_all: "fold amqp_step (map ChanClose xs) (c, cs) = (c, cs - set xs)"
  by (induction xs arbitrary: cs) auto

lemma open_channels_open:
  assumes "open_channels ce i n [0..<i] = (r, evs)"
  shows "fold amqp_step evs (True, {0..<i}) = (case r of Inl _ \<Rightarrow> (False, {}) | Inr _ \<Rightarrow> (True, {0..<i + n}))"
  using assms
proof (induction n arbitrary: i r evs)
  case (Suc n)
  obtain r' evs' where rec: "open_channels ce (Suc i) n [0..<Suc i] = (r', evs')" by fastforce
  have "insert i {0..<i} = {0..<Suc i}" by auto
  then show ?case
    using Suc.prems rec Suc.IH[OF rec]
    by (auto simp: close_all Let_def split: option.splits if_splits prod.splits sum.splits)
qed auto

lemma open_channels_ready:
  assumes "open_channels ce i n [0..<i] = (Inr cs, evs)"
  shows "cs = [0..<i + n] \<and> ConfirmMode ` {i..<i + n} \<subseteq> set evs \<and> (i = 0 \<and> 0 < n \<longrightarrow> TopologyDeclared 0 \<in> set evs)"
  using assms
proof (induction n arbitrary: i cs evs)
  case (Suc n)
  obtain evs' where rec: "open_channels ce (Suc i) n [0..<Suc i] = (Inr cs, evs')"
    and evs: "evs = (ChanOpen i # (if i = 0 then [TopologyDeclared i] else [])) @ ConfirmMode i # evs'"
    using Suc.prems by (auto simp: Let_def split: option.splits if_splits prod.splits)
  have "{i..<i + Suc n} = insert i {Suc i..<Suc i + n}" by auto
  then show ?case using Suc.IH[OF rec] evs by auto
qed simp

text \<open>A worker gives back its channel, however it ends.\<close>

lemma run_worker_channel:
  "wv_index e \<notin> cs \<Longrightarrow> fold amqp_step (snd (run_worker e cc wk)) (c, cs) = (c, cs)"
  by (auto simp: run_worker_def start_worker_def NewConsumer_def Consumer_Close_def split: option.splits)

lemma Manager_Run_closes:
  assumes "cc_conn cc = Some True" "\<not> cc_stopped cc"
  shows "fold amqp_step (snd (Manager_Run (Inr cc) spec pub evs order we finished)) (True, {}) = (False, {})"
proof -
  have "fold amqp_step (concat (map snd (map (\<lambda>wk. run_worker (we wk) cc wk) ws))) (True, {}) = (True, {})" for ws
    by (induction ws) (simp_all add: run_worker_channel)
  then show ?thesis using assms by (simp add: Manager_Run_def Let_def ConsumerConnection_Close_def)
qed

lemma filter_only: "distinct xs \<Longrightarrow> x \<in> set xs \<Longrightarrow> filter (\<lambda>y. y = x) xs = [x]"
  by (induction xs) (auto simp: filter_empty_conv)

lemma run_services_trace:
  assumes "run_services cfg e d = (res, evs, d')"
  shows "\<exists>os ts. evs = map Opened os @ map Started ts @ map Closed (rev os) \<and> set os \<subseteq> {ResPublisher} \<and>
    (ResPublisher \<in> set os \<longrightarrow> worker_mode cfg) \<and> (ts = [] \<and> res \<noteq> None \<or> ts = tasks_of cfg) \<and> d' = d"
proof -
  consider "evs = []" "res \<noteq> None" "d' = d" | "\<not> worker_mode cfg" "evs = map Started (tasks_of cfg)" "d' = d"
    | "worker_mode cfg" "evs = [Opened ResPublisher, Closed ResPublisher]" "res \<noteq> None" "d' = d"
    | "worker_mode cfg" "evs = Opened ResPublisher # map Started (tasks_of cfg) @ [Closed ResPublisher]" "d' = d"
    using assms by (auto simp: run_services_def run_group_def deferring_def split: if_splits sum.splits option.splits)
  then show ?thesis
  proof cases
    case 1
    then show ?thesis by (intro exI[of _ "[]"]) simp
  next
    case 2
    then show ?thesis by (intro exI[of _ "[]"] exI[of _ "tasks_of cfg"]) simp
  next
    case 3
    then show ?thesis by (intro exI[of _ "[ResPublisher]"] exI[of _ "[]"]) simp
  next
    case 4
    then show ?thesis by (intro exI[of _ "[ResPublisher]"] exI[of _ "tasks_of cfg"]) simp
  qed
qed

lemma dev_key_guard_effect:
  assumes "dev_key_guard dp cfg e d = (res, d')"
  shows "(d' \<noteq> d \<longrightarrow> cfg_Env cfg = ''development'' \<and> cfg_DevAPIKey cfg \<noteq> []) \<and>
    (cfg_Env cfg \<noteq> ''development'' \<and> cfg_DevAPIKey cfg \<noteq> [] \<longrightarrow> res \<noteq> None)"
  using assms by (auto simp: dev_key_guard_def split: if_splits)

text \<open>The shape of every trace: resources are opened, tasks are started, and resources are released in reverse order.\<close>

definition orderly :: "config \<Rightarrow> string option \<Rightarrow> proc_ev list \<Rightarrow> bool" where
  "orderly cfg res evs \<longleftrightarrow>
     (\<exists>os ts. evs = map Opened os @ map Started ts @ map Closed (rev os) \<and> (ResPublisher \<in> set os \<longrightarrow> worker_mode cfg) \<and>
        (ts = [] \<and> res \<noteq> None \<or> ts = tasks_of cfg))"

lemma orderly_deferring:
  assumes "orderly cfg res evs" "r \<noteq> ResPublisher"
  shows "orderly cfg res (Opened r # evs @ [Closed r])"
proof -
  obtain os ts where "evs = map Opened os @ map Started ts @ map Closed (rev os)" "ResPublisher \<in> set os \<longrightarrow> worker_mode cfg"
    "ts = [] \<and> res \<noteq> None \<or> ts = tasks_of cfg" using assms(1) by (auto simp: orderly_def)
  then show ?thesis using assms(2) unfolding orderly_def by (intro exI[of _ "r # os"] exI[of _ ts]) auto
qed

lemma orderly_failed: "res \<noteq> None \<Longrightarrow> orderly cfg res []"
  unfolding orderly_def by (intro exI[of _ "[]"]) simp

lemma orderly_services: "run_services cfg e d = (res, evs, d') \<Longrightarrow> orderly cfg res evs \<and> d' = d"
  using run_services_trace[of cfg e d res evs d'] by (auto simp: orderly_def)

lemma run_redis_effect:
  assumes "run_redis dp cfg e d = (res, evs, d')"
  shows "orderly cfg res evs \<and> (d' \<noteq> d \<longrightarrow> cfg_Env cfg = ''development'' \<and> cfg_DevAPIKey cfg \<noteq> []) \<and>
    (cfg_Env cfg \<noteq> ''development'' \<and> cfg_DevAPIKey cfg \<noteq> [] \<longrightarrow> res \<noteq> None \<and> list_all (\<lambda>ev. \<forall>t. ev \<noteq> Started t) evs)"
proof -
  obtain x d1 where g: "dev_key_guard dp cfg e d = (x, d1)" by fastforce
  note ge = dev_key_guard_effect[OF g]
  obtain res1 evs1 d2 where sv: "run_services cfg e d1 = (res1, evs1, d2)" by (cases "run_services cfg e d1") auto
  consider (fail) "evs = []" "res \<noteq> None" "d' = d" | (closed) "evs = [Opened ResRedis, Closed ResRedis]" "res \<noteq> None" "d' = d \<or> d' = d1"
    | (up) "x = None" "res = res1" "evs = Opened ResRedis # evs1 @ [Closed ResRedis]" "d' = d2"
    using assms g sv by (auto simp: run_redis_def deferring_def split: option.splits)
  then show ?thesis
  proof cases
    case fail
    then show ?thesis by (simp add: orderly_failed)
  next
    case closed
    then show ?thesis using ge orderly_deferring[OF orderly_failed[OF closed(2)], of ResRedis cfg] by auto
  next
    case up
    then show ?thesis using ge orderly_services[OF sv] orderly_deferring[of cfg res1 evs1 ResRedis] by auto
  qed
qed

subsection \<open>Properties\<close>

text \<open>
  C38: The publisher never leaks a connection. A dial that succeeds leaves one connection with exactly the eight pool channels,
  all in confirm mode and with the topology declared; a dial that fails at any step leaves nothing open and the publisher as it
  was.
\<close>

theorem dial_all_or_nothing:
  "case Publisher_dial dialErr ce p of
     (Some err, p', evs) \<Rightarrow> p' = p \<and> amqp_open evs = (False, {})
   | (None, p', evs) \<Rightarrow>
       p' = p\<lparr>pub_chans := [0..<8], pub_conn_open := True\<rparr> \<and> amqp_open evs = (True, set (pub_chans p')) \<and>
       ConfirmMode ` set (pub_chans p') \<subseteq> set evs \<and> TopologyDeclared 0 \<in> set evs"
proof (cases dialErr)
  case None
  obtain r evs where o: "open_channels ce 0 8 [] = (r, evs)" by fastforce
  have op: "fold amqp_step evs (True, {}) = (case r of Inl _ \<Rightarrow> (False, {}) | Inr _ \<Rightarrow> (True, {0..<8}))"
    using open_channels_open[of ce 0 8 r evs] o by (cases r) simp_all
  show ?thesis
  proof (cases r)
    case (Inl err)
    then show ?thesis using None o op by (simp add: Publisher_dial_def DefaultChannelPoolSize_def amqp_open_def)
  next
    case (Inr cs)
    have "cs = [0..<8] \<and> ConfirmMode ` {0..<8} \<subseteq> set evs \<and> TopologyDeclared 0 \<in> set evs"
      using open_channels_ready[of ce 0 8 cs evs] o Inr by simp
    then show ?thesis using None o op Inr by (auto simp: Publisher_dial_def DefaultChannelPoolSize_def amqp_open_def)
  qed
qed (simp add: Publisher_dial_def amqp_open_def)


definition ex_cfg :: "string \<Rightarrow> config" where
  "ex_cfg env = \<lparr>cfg_Mode = ''all'', cfg_HTTPAddr = '':8080'', cfg_LogLevel = ''info'', cfg_Env = env, cfg_DatabaseURL = ''pg'',
                 cfg_RedisURL = ''redis'', cfg_AMQPURL = ''amqp'', cfg_WebhookURL = ''http://h/x'',
                 cfg_WorkerCountSMS = 8, cfg_WorkerCountEmail = 8, cfg_WorkerCountPush = 8, cfg_OutboxPollInterval = 250 * millisecond,
                 cfg_OutboxBatchSize = 50, cfg_OTELEndpoint = [], cfg_OTELSampleRatio = 1 / 10, cfg_OTELDisabled = False, cfg_DevAPIKey = ex_raw, cfg_PProfEnabled = False, cfg_SchedulerEnabled = True\<rparr>"

definition ex_boot :: boot_env where
  "ex_boot = \<lparr>bt_migrate = \<lparr>mi_subfs = None, mi_source = None, mi_init = None, mi_up = UpNoChange\<rparr>,
              bt_pool = \<lparr>po_parse = None, po_open = None, po_ping = None\<rparr>, bt_tracing = None, bt_redis_url = None, bt_redis_ping = None,
              bt_argon = ex_argon, bt_salt = ''salt'', bt_now = 0, bt_key_id = 1, bt_seed = NoFault,
              bt_dial = None, bt_channels = (\<lambda>_. \<lparr>ce_open = None, ce_topology = None, ce_confirm = None\<rparr>),
              bt_provider = None, bt_finished = map (\<lambda>t. (t, None))\<rparr>"


text \<open>
  Workers and topology fit together. Whatever the pool sizes and the order of the channels, every worker consumes the one
  queue that the topology binds to the routing key of its pipeline's channel, and a channel has as many workers as configured, with
  different names.
\<close>

theorem workers_match_topology:
  assumes "set order = set Channels" "distinct order" "ch \<in> set Channels"
  shows "length (filter (\<lambda>wk. pl_channel (wk_pipeline wk) = ch) (manager_workers spec pub evs order)) = nat (the (worker_counts spec ch)) \<and>
    list_all (\<lambda>wk. bound_queues (topology Channels Channels) ExchangeMain (RoutingKey (pl_channel (wk_pipeline wk))) = {wk_queue wk})
      (manager_workers spec pub evs order)"
proof -
  have chs: "set Channels = {''sms'', ''email'', ''push''}" by (auto simp: Channels_def)
  have pipe: "pl_channel (wk_pipeline wk) = c" if "wk \<in> set (channel_workers spec pub evs c)" for wk c
    using that by (auto simp: channel_workers_def new_pipeline_def split: option.splits)
  have q: "wk_queue wk = fst (the (channel_queues c))" if "wk \<in> set (channel_workers spec pub evs c)" "c \<in> set Channels" for wk c
    using that by (auto simp: channel_workers_def manager_queues_def worker_counts_def channel_queues_def chs split: option.splits if_splits)
  have len: "length (channel_workers spec pub evs c) = nat (the (worker_counts spec c))" if "c \<in> set Channels" for c
    using that by (auto simp: channel_workers_def manager_queues_def worker_counts_def chs)
  have "filter (\<lambda>wk. pl_channel (wk_pipeline wk) = ch) (channel_workers spec pub evs c) =
      (if c = ch then channel_workers spec pub evs c else [])" for c
    using pipe[of _ c] by (auto simp: filter_empty_conv intro: filter_True)
  then have "filter (\<lambda>wk. pl_channel (wk_pipeline wk) = ch) (concat (map (channel_workers spec pub evs) cs)) =
      concat (map (channel_workers spec pub evs) (filter (\<lambda>c. c = ch) cs))" for cs
    by (induction cs) auto
  moreover have "filter (\<lambda>c. c = ch) order = [ch]" using assms by (simp add: filter_only)
  ultimately show ?thesis
    using pipe q len[OF assms(3)] assms(1) bound_main
    by (auto simp: manager_workers_def list_all_iff Channel_Valid_Channels)
qed

theorem workers_match_topology_witness:
  "length (filter (\<lambda>wk. pl_channel (wk_pipeline wk) = ''sms'')
     (manager_workers (pool_spec_of (ex_cfg ''development'')) True True [''push'', ''sms'', ''email''])) = 8"
  using workers_match_topology[of "[''push'', ''sms'', ''email'']" "''sms''" "pool_spec_of (ex_cfg ''development'')" True True]
  by (auto simp: Channels_def worker_counts_def pool_spec_of_def ex_cfg_def)

end
