(* ===== verification/Ddl.thy ===== *)
theory Ddl
  imports Store "HOL-Library.List_Lexorder" "HOL-Library.Char_ord"
begin

text \<open>
  The part of PostgreSQL's data definition language that the files of \<open>internal/store/migrations\<close> use:
  values and CHECK expressions with three-valued logic, schemas, and the effect of each statement on
  the schema and on the rows that are stored. A statement that PostgreSQL refuses is \<^const>\<open>None\<close>; a file
  is run as one transaction. The invariant is that the stored rows satisfy the schema.
\<close>

subsection \<open>Values and expressions\<close>

datatype sqlty = TyUuid | TyText | TyInt | TySmallint | TyBigint | TyBool | TyTimestamptz | TyJsonb | TyTexts | TyBytea

datatype sqlv =
    VNull
  | VUuid uuid
  | VText string
  | VInt int
  | VBool bool
  | VTime time
  | VJson json
  | VTexts "string list"
  | VBytes string

type_synonym srow = "string \<Rightarrow> sqlv"

fun fits :: "sqlty \<Rightarrow> sqlv \<Rightarrow> bool" where
  "fits ty VNull = True"
| "fits ty (VUuid u) = (ty = TyUuid)"
| "fits ty (VText s) = (ty = TyText)"
| "fits ty (VInt i) =
     (ty = TyInt \<and> - (2 ^ 31) \<le> i \<and> i < 2 ^ 31 \<or> ty = TySmallint \<and> - (2 ^ 15) \<le> i \<and> i < 2 ^ 15 \<or>
      ty = TyBigint \<and> - (2 ^ 63) \<le> i \<and> i < 2 ^ 63)"
| "fits ty (VBool b) = (ty = TyBool)"
| "fits ty (VTime t) = (ty = TyTimestamptz)"
| "fits ty (VJson j) = (ty = TyJsonb)"
| "fits ty (VTexts ss) = (ty = TyTexts)"
| "fits ty (VBytes s) = (ty = TyBytea)"

datatype sqle =
    Col string
  | Lit sqlv
  | LengthOf sqle
  | PlusE sqle sqle
  | IsNull sqle
  | IsNotNull sqle
  | EqE sqle sqle
  | LeE sqle sqle
  | AndE sqle sqle
  | OrE sqle sqle
  | InE sqle "sqlv list"

definition BetweenE :: "sqle \<Rightarrow> int \<Rightarrow> int \<Rightarrow> sqle" where
  "BetweenE e lo hi = AndE (LeE (Lit (VInt lo)) e) (LeE e (Lit (VInt hi)))"

definition sql_eq :: "sqlv \<Rightarrow> sqlv \<Rightarrow> sqlv" where
  "sql_eq a b = (if a = VNull \<or> b = VNull then VNull else VBool (a = b))"

definition sql_and :: "sqlv \<Rightarrow> sqlv \<Rightarrow> sqlv" where
  "sql_and a b =
     (if a = VBool False \<or> b = VBool False then VBool False
      else if a = VBool True \<and> b = VBool True then VBool True else VNull)"

definition sql_or :: "sqlv \<Rightarrow> sqlv \<Rightarrow> sqlv" where
  "sql_or a b =
     (if a = VBool True \<or> b = VBool True then VBool True
      else if a = VBool False \<and> b = VBool False then VBool False else VNull)"

definition sql_le :: "sqlv \<Rightarrow> sqlv \<Rightarrow> sqlv" where
  "sql_le a b =
     (case (a, b) of (VInt i, VInt j) \<Rightarrow> VBool (i \<le> j) | (VTime i, VTime j) \<Rightarrow> VBool (i \<le> j) | _ \<Rightarrow> VNull)"

definition sql_plus :: "sqlv \<Rightarrow> sqlv \<Rightarrow> sqlv" where
  "sql_plus a b = (case (a, b) of (VInt i, VInt j) \<Rightarrow> VInt (i + j) | _ \<Rightarrow> VNull)"

definition sql_length :: "sqlv \<Rightarrow> sqlv" where
  "sql_length a = (case a of VText s \<Rightarrow> VInt (int (pg_length s)) | _ \<Rightarrow> VNull)"

fun value_of :: "srow \<Rightarrow> sqle \<Rightarrow> sqlv" where
  "value_of r (Col c) = r c"
| "value_of r (Lit v) = v"
| "value_of r (LengthOf e) = sql_length (value_of r e)"
| "value_of r (PlusE a b) = sql_plus (value_of r a) (value_of r b)"
| "value_of r (IsNull e) = VBool (value_of r e = VNull)"
| "value_of r (IsNotNull e) = VBool (value_of r e \<noteq> VNull)"
| "value_of r (EqE a b) = sql_eq (value_of r a) (value_of r b)"
| "value_of r (LeE a b) = sql_le (value_of r a) (value_of r b)"
| "value_of r (AndE a b) = sql_and (value_of r a) (value_of r b)"
| "value_of r (OrE a b) = sql_or (value_of r a) (value_of r b)"
| "value_of r (InE e vs) = foldr (\<lambda>v acc. sql_or (sql_eq (value_of r e) v) acc) vs (VBool False)"

fun cols_of :: "sqle \<Rightarrow> string list" where
  "cols_of (Col c) = [c]"
| "cols_of (Lit v) = []"
| "cols_of (LengthOf e) = cols_of e"
| "cols_of (PlusE a b) = cols_of a @ cols_of b"
| "cols_of (IsNull e) = cols_of e"
| "cols_of (IsNotNull e) = cols_of e"
| "cols_of (EqE a b) = cols_of a @ cols_of b"
| "cols_of (LeE a b) = cols_of a @ cols_of b"
| "cols_of (AndE a b) = cols_of a @ cols_of b"
| "cols_of (OrE a b) = cols_of a @ cols_of b"
| "cols_of (InE e vs) = cols_of e"

lemma value_of_cong: "(\<And>c. c \<in> set (cols_of e) \<Longrightarrow> r c = r' c) \<Longrightarrow> value_of r e = value_of r' e"
  by (induction e) auto

text \<open>A CHECK refuses a row only when it is false; a WHERE selects a row only when it is true.\<close>

definition passes :: "srow \<Rightarrow> sqle \<Rightarrow> bool" where
  "passes r e \<longleftrightarrow> value_of r e \<noteq> VBool False"

definition holds :: "srow \<Rightarrow> sqle \<Rightarrow> bool" where
  "holds r e \<longleftrightarrow> value_of r e = VBool True"

subsection \<open>Schemas\<close>

datatype default = NoDefault | DConst sqlv | DFun string

datatype on_delete = SetNull | Cascade

record column =
  co_name :: string
  co_type :: sqlty
  co_notnull :: bool
  co_default :: default

record fkey =
  fk_col :: string
  fk_table :: string
  fk_ref :: string
  fk_delete :: on_delete

record table =
  tb_cols :: "column list"
  tb_checks :: "(string \<times> sqle) list"
  tb_uniques :: "(string \<times> string list) list"
  tb_fks :: "(string \<times> fkey) list"

record index =
  ix_name :: string
  ix_table :: string
  ix_unique :: bool
  ix_cols :: "(string \<times> bool) list"
  ix_where :: "sqle option"

text \<open>
  The functions of the migrations: the text that an audit row is hashed over, and the trigger that
  chains the rows. The trigger may take a lock first, and computes the text itself or calls the function for it.
\<close>

datatype fnbody = CanonicalText | ChainHash bool bool

record schema =
  sc_extensions :: "string list"
  sc_tables :: "(string \<times> table) list"
  sc_indexes :: "index list"
  sc_functions :: "((string \<times> sqlty list) \<times> fnbody) list"
  sc_triggers :: "((string \<times> string) \<times> string) list"

definition empty_schema :: schema where
  "empty_schema = \<lparr>sc_extensions = [], sc_tables = [], sc_indexes = [], sc_functions = [], sc_triggers = []\<rparr>"

type_synonym data = "string \<Rightarrow> srow list"

subsection \<open>Statements\<close>

datatype key = NoKey | PrimaryKey | UniqueKey

record coldef =
  cd_col :: column
  cd_key :: key
  cd_check :: "sqle option"
  cd_refs :: "(string \<times> string \<times> on_delete) option"

datatype tcons = TCheck string sqle | TUnique string "string list"

datatype alter =
    AddColumn coldef
  | DropColumn string
  | AddCheck string sqle
  | DropConstraint string

datatype ddl =
    CreateExtension string
  | CreateTable string "coldef list" "tcons list"
  | DropTable string
  | AlterTable string "alter list"
  | CreateIndex index
  | DropIndex string
  | CreateFunction string "sqlty list" fnbody
  | DropFunction string "sqlty list"
  | CreateTrigger string string string
  | DropTrigger string string

text \<open>Shorthands for column definitions.\<close>

definition coldef :: "string \<Rightarrow> sqlty \<Rightarrow> bool \<Rightarrow> default \<Rightarrow> coldef" where
  "coldef n ty nn df = \<lparr>cd_col = \<lparr>co_name = n, co_type = ty, co_notnull = nn, co_default = df\<rparr>, cd_key = NoKey, cd_check = None, cd_refs = None\<rparr>"

definition checked :: "sqle \<Rightarrow> coldef \<Rightarrow> coldef" where
  "checked e cd = cd\<lparr>cd_check := Some e\<rparr>"

definition keyed :: "key \<Rightarrow> coldef \<Rightarrow> coldef" where
  "keyed k cd = cd\<lparr>cd_key := k\<rparr>"

definition referring :: "string \<Rightarrow> string \<Rightarrow> on_delete \<Rightarrow> coldef \<Rightarrow> coldef" where
  "referring t c od cd = cd\<lparr>cd_refs := Some (t, c, od)\<rparr>"

subsection \<open>Effect on the schema\<close>

definition table_of :: "string \<Rightarrow> schema \<Rightarrow> table option" where
  "table_of n s = map_of (sc_tables s) n"

definition set_table :: "string \<Rightarrow> table \<Rightarrow> schema \<Rightarrow> schema" where
  "set_table n t s = s\<lparr>sc_tables := map (\<lambda>(m, u). if m = n then (m, t) else (m, u)) (sc_tables s)\<rparr>"

definition col_names :: "table \<Rightarrow> string list" where
  "col_names t = map co_name (tb_cols t)"

definition constraint_names :: "table \<Rightarrow> string list" where
  "constraint_names t = map fst (tb_checks t) @ map fst (tb_uniques t) @ map fst (tb_fks t)"

text \<open>A constraint without a name is called after its table and column. Checks are kept in the order of their names.\<close>

definition put_check :: "string \<Rightarrow> sqle \<Rightarrow> table \<Rightarrow> table" where
  "put_check n e t = t\<lparr>tb_checks := insort_key fst (n, e) (tb_checks t)\<rparr>"

definition add_check :: "string \<Rightarrow> sqle \<Rightarrow> table \<Rightarrow> table option" where
  "add_check n e t =
     (if n \<in> set (constraint_names t) \<or> \<not> set (cols_of e) \<subseteq> set (col_names t) then None else Some (put_check n e t))"

definition add_unique :: "string \<Rightarrow> string list \<Rightarrow> table \<Rightarrow> table option" where
  "add_unique n cs t =
     (if n \<in> set (constraint_names t) \<or> \<not> set cs \<subseteq> set (col_names t) then None
      else Some (t\<lparr>tb_uniques := tb_uniques t @ [(n, cs)]\<rparr>))"

text \<open>A foreign key needs a unique column to refer to.\<close>

definition add_fk :: "schema \<Rightarrow> string \<Rightarrow> string \<Rightarrow> string \<times> string \<times> on_delete \<Rightarrow> table \<Rightarrow> table option" where
  "add_fk s n c ref t =
     (case ref of (rt, rc, od) \<Rightarrow>
        (case table_of rt s of
           None \<Rightarrow> None
         | Some u \<Rightarrow>
             if list_ex (\<lambda>(_, cs). cs = [rc]) (tb_uniques u) \<and> n \<notin> set (constraint_names t)
             then Some (t\<lparr>tb_fks := tb_fks t @ [(n, \<lparr>fk_col = c, fk_table = rt, fk_ref = rc, fk_delete = od\<rparr>)]\<rparr>)
             else None))"

definition key_constraint_name :: "string \<Rightarrow> coldef \<Rightarrow> string" where
  "key_constraint_name n cd = (if cd_key cd = PrimaryKey then n @ ''_pkey'' else n @ ''_'' @ co_name (cd_col cd) @ ''_key'')"

definition add_column :: "schema \<Rightarrow> string \<Rightarrow> coldef \<Rightarrow> table \<Rightarrow> table option" where
  "add_column s n cd t =
     (let c = cd_col cd; cn = co_name c; c' = (if cd_key cd = PrimaryKey then c\<lparr>co_notnull := True\<rparr> else c) in
      if cn \<in> set (col_names t) then None
      else Option.bind
        (case cd_check cd of None \<Rightarrow> Some (t\<lparr>tb_cols := tb_cols t @ [c']\<rparr>)
                           | Some e \<Rightarrow> add_check (n @ ''_'' @ cn @ ''_check'') e (t\<lparr>tb_cols := tb_cols t @ [c']\<rparr>))
        (\<lambda>t1. Option.bind
          (if cd_key cd = NoKey then Some t1 else add_unique (key_constraint_name n cd) [cn] t1)
          (\<lambda>t2. case cd_refs cd of None \<Rightarrow> Some t2 | Some ref \<Rightarrow> add_fk s (n @ ''_'' @ cn @ ''_fkey'') cn ref t2)))"

fun add_columns :: "schema \<Rightarrow> string \<Rightarrow> coldef list \<Rightarrow> table \<Rightarrow> table option" where
  "add_columns s n [] t = Some t"
| "add_columns s n (cd # cds) t = Option.bind (add_column s n cd t) (add_columns s n cds)"

fun add_tcons :: "tcons list \<Rightarrow> table \<Rightarrow> table option" where
  "add_tcons [] t = Some t"
| "add_tcons (TCheck n e # cs) t = Option.bind (add_check n e t) (add_tcons cs)"
| "add_tcons (TUnique n ks # cs) t = Option.bind (add_unique n ks t) (add_tcons cs)"

text \<open>Dropping a column drops what mentions it, and is refused while another table refers to it.\<close>

definition drop_column :: "string \<Rightarrow> table \<Rightarrow> table" where
  "drop_column c t =
     \<lparr>tb_cols = filter (\<lambda>co. co_name co \<noteq> c) (tb_cols t),
      tb_checks = filter (\<lambda>(_, e). c \<notin> set (cols_of e)) (tb_checks t),
      tb_uniques = filter (\<lambda>(_, cs). c \<notin> set cs) (tb_uniques t),
      tb_fks = filter (\<lambda>(_, f). fk_col f \<noteq> c) (tb_fks t)\<rparr>"

definition referred :: "schema \<Rightarrow> string \<Rightarrow> string \<Rightarrow> bool" where
  "referred s n c \<longleftrightarrow> list_ex (\<lambda>(_, t). list_ex (\<lambda>(_, f). fk_table f = n \<and> fk_ref f = c) (tb_fks t)) (sc_tables s)"

definition index_cols :: "index \<Rightarrow> string list" where
  "index_cols ix = map fst (ix_cols ix) @ (case ix_where ix of None \<Rightarrow> [] | Some e \<Rightarrow> cols_of e)"

fun alter_schema :: "string \<Rightarrow> alter \<Rightarrow> schema \<Rightarrow> schema option" where
  "alter_schema n (AddColumn cd) s =
     Option.bind (table_of n s) (\<lambda>t. map_option (\<lambda>t'. set_table n t' s) (add_column s n cd t))"
| "alter_schema n (DropColumn c) s =
     Option.bind (table_of n s) (\<lambda>t.
       if c \<notin> set (col_names t) then Some s
       else if referred s n c then None
       else Some ((set_table n (drop_column c t) s)
                    \<lparr>sc_indexes := filter (\<lambda>ix. ix_table ix \<noteq> n \<or> c \<notin> set (index_cols ix)) (sc_indexes s)\<rparr>))"
| "alter_schema n (AddCheck k e) s =
     Option.bind (table_of n s) (\<lambda>t. map_option (\<lambda>t'. set_table n t' s) (add_check k e t))"
| "alter_schema n (DropConstraint k) s =
     Option.bind (table_of n s) (\<lambda>t.
       if list_ex (\<lambda>(m, cs). m = k \<and> list_ex (referred s n) cs) (tb_uniques t) then None
       else Some (set_table n (t\<lparr>tb_checks := filter (\<lambda>(m, _). m \<noteq> k) (tb_checks t),
                                 tb_uniques := filter (\<lambda>(m, _). m \<noteq> k) (tb_uniques t),
                                 tb_fks := filter (\<lambda>(m, _). m \<noteq> k) (tb_fks t)\<rparr>) s))"

definition relation_names :: "schema \<Rightarrow> string list" where
  "relation_names s = map fst (sc_tables s) @ map ix_name (sc_indexes s)"

definition referred_table :: "schema \<Rightarrow> string \<Rightarrow> bool" where
  "referred_table s n \<longleftrightarrow> list_ex (\<lambda>(m, t). m \<noteq> n \<and> list_ex (\<lambda>(_, f). fk_table f = n) (tb_fks t)) (sc_tables s)"

definition drop_table :: "string \<Rightarrow> schema \<Rightarrow> schema" where
  "drop_table n s =
     s\<lparr>sc_tables := filter (\<lambda>(m, _). m \<noteq> n) (sc_tables s), sc_indexes := filter (\<lambda>ix. ix_table ix \<noteq> n) (sc_indexes s),
       sc_triggers := filter (\<lambda>((_, m), _). m \<noteq> n) (sc_triggers s)\<rparr>"

definition empty_table :: table where
  "empty_table = \<lparr>tb_cols = [], tb_checks = [], tb_uniques = [], tb_fks = []\<rparr>"

subsection \<open>Effect on the rows\<close>

definition unique_ok :: "string list \<Rightarrow> sqle option \<Rightarrow> srow list \<Rightarrow> bool" where
  "unique_ok cs w rows \<longleftrightarrow>
     distinct (map (\<lambda>r. map r cs)
       (filter (\<lambda>r. list_all (\<lambda>c. r c \<noteq> VNull) cs \<and> (case w of None \<Rightarrow> True | Some e \<Rightarrow> holds r e)) rows))"

definition fk_ok :: "data \<Rightarrow> srow \<Rightarrow> fkey \<Rightarrow> bool" where
  "fk_ok d r f \<longleftrightarrow> r (fk_col f) = VNull \<or> list_ex (\<lambda>r'. r' (fk_ref f) = r (fk_col f)) (d (fk_table f))"

text \<open>
  \<open>ADD COLUMN\<close> gives every row the default. The files only ever add columns with a constant default to
  existing tables; a computed one is refused here unless the table is empty.
\<close>

definition default_value :: "column \<Rightarrow> sqlv" where
  "default_value c = (case co_default c of DConst v \<Rightarrow> v | _ \<Rightarrow> VNull)"

fun alter_data :: "string \<Rightarrow> alter \<Rightarrow> data \<Rightarrow> data" where
  "alter_data n (AddColumn cd) d = d(n := map (\<lambda>r. r(co_name (cd_col cd) := default_value (cd_col cd))) (d n))"
| "alter_data n (DropColumn c) d = d(n := map (\<lambda>r. r(c := VNull)) (d n))"
| "alter_data n (AddCheck k e) d = d"
| "alter_data n (DropConstraint k) d = d"

definition column_ok :: "srow \<Rightarrow> column \<Rightarrow> bool" where
  "column_ok r c \<longleftrightarrow> fits (co_type c) (r (co_name c)) \<and> (co_notnull c \<longrightarrow> r (co_name c) \<noteq> VNull)"

definition row_ok :: "table \<Rightarrow> srow \<Rightarrow> bool" where
  "row_ok t r \<longleftrightarrow> list_all (column_ok r) (tb_cols t) \<and> list_all (\<lambda>(_, e). passes r e) (tb_checks t)"

definition table_ok :: "data \<Rightarrow> string \<Rightarrow> table \<Rightarrow> bool" where
  "table_ok d n t \<longleftrightarrow>
     list_all (row_ok t) (d n) \<and> list_all (\<lambda>(_, cs). unique_ok cs None (d n)) (tb_uniques t) \<and>
     list_all (\<lambda>r. list_all (\<lambda>(_, f). fk_ok d r f) (tb_fks t)) (d n)"

definition index_ok :: "data \<Rightarrow> index \<Rightarrow> bool" where
  "index_ok d ix \<longleftrightarrow> (ix_unique ix \<longrightarrow> unique_ok (map fst (ix_cols ix)) (ix_where ix) (d (ix_table ix)))"

definition legal :: "schema \<Rightarrow> data \<Rightarrow> bool" where
  "legal s d \<longleftrightarrow> list_all (\<lambda>(n, t). table_ok d n t) (sc_tables s) \<and> list_all (index_ok d) (sc_indexes s)"

text \<open>PostgreSQL validates the rows of the altered table against what the statement adds.\<close>

definition column_addable :: "coldef \<Rightarrow> data \<Rightarrow> srow \<Rightarrow> bool" where
  "column_addable cd d r \<longleftrightarrow>
     (let c = cd_col cd; r' = r(co_name c := default_value c) in
      (case co_default c of DFun _ \<Rightarrow> False | _ \<Rightarrow> True) \<and> column_ok r' c \<and> (cd_key cd = PrimaryKey \<longrightarrow> default_value c \<noteq> VNull) \<and>
      (case cd_check cd of None \<Rightarrow> True | Some e \<Rightarrow> passes r' e) \<and>
      (case cd_refs cd of None \<Rightarrow> True
        | Some (rt, rc, _) \<Rightarrow> default_value c = VNull \<or> list_ex (\<lambda>q. q rc = default_value c) (d rt)))"

fun alter_check :: "string \<Rightarrow> alter \<Rightarrow> data \<Rightarrow> bool" where
  "alter_check n (AddColumn cd) d \<longleftrightarrow>
     list_all (column_addable cd d) (d n) \<and>
     (cd_key cd = NoKey \<or> default_value (cd_col cd) = VNull \<or> length (d n) \<le> 1)"
| "alter_check n (AddCheck k e) d \<longleftrightarrow> list_all (\<lambda>r. passes r e) (d n)"
| "alter_check n (DropColumn c) d \<longleftrightarrow> True"
| "alter_check n (DropConstraint k) d \<longleftrightarrow> True"

fun run_alter :: "string \<Rightarrow> alter \<Rightarrow> schema \<times> data \<Rightarrow> (schema \<times> data) option" where
  "run_alter n a (s, d) =
     (case alter_schema n a s of
        None \<Rightarrow> None
      | Some s' \<Rightarrow> if alter_check n a d then Some (s', alter_data n a d) else None)"

fun run_alters :: "string \<Rightarrow> alter list \<Rightarrow> schema \<times> data \<Rightarrow> (schema \<times> data) option" where
  "run_alters n [] st = Some st"
| "run_alters n (a # as) st = Option.bind (run_alter n a st) (run_alters n as)"

fun run_ddl :: "ddl \<Rightarrow> schema \<times> data \<Rightarrow> (schema \<times> data) option" where
  "run_ddl (CreateExtension x) (s, d) =
     Some (if x \<in> set (sc_extensions s) then s else s\<lparr>sc_extensions := sc_extensions s @ [x]\<rparr>, d)"
| "run_ddl (CreateTable n cds tcs) (s, d) =
     (if n \<in> set (relation_names s) then None
      else map_option (\<lambda>t. (s\<lparr>sc_tables := sc_tables s @ [(n, t)]\<rparr>, d(n := [])))
             (Option.bind (add_columns s n cds empty_table) (add_tcons tcs)))"
| "run_ddl (DropTable n) (s, d) =
     (if referred_table s n then None else Some (drop_table n s, d(n := [])))"
| "run_ddl (AlterTable n as) st = run_alters n as st"
| "run_ddl (CreateIndex ix) (s, d) =
     (case table_of (ix_table ix) s of
        None \<Rightarrow> None
      | Some t \<Rightarrow>
          if ix_name ix \<in> set (relation_names s) \<or> \<not> set (index_cols ix) \<subseteq> set (col_names t) \<or> \<not> index_ok d ix then None
          else Some (s\<lparr>sc_indexes := sc_indexes s @ [ix]\<rparr>, d))"
| "run_ddl (DropIndex n) (s, d) = Some (s\<lparr>sc_indexes := filter (\<lambda>ix. ix_name ix \<noteq> n) (sc_indexes s)\<rparr>, d)"
| "run_ddl (CreateFunction f tys b) (s, d) =
     Some (s\<lparr>sc_functions := (if map_of (sc_functions s) (f, tys) = None then sc_functions s @ [((f, tys), b)]
                              else map (\<lambda>(k, v). if k = (f, tys) then (k, b) else (k, v)) (sc_functions s))\<rparr>, d)"
| "run_ddl (DropFunction f tys) (s, d) =
     (if tys = [] \<and> f \<in> snd ` set (sc_triggers s) then None
      else Some (s\<lparr>sc_functions := filter (\<lambda>(k, _). k \<noteq> (f, tys)) (sc_functions s)\<rparr>, d))"
| "run_ddl (CreateTrigger tr n f) (s, d) =
     (if table_of n s = None \<or> map_of (sc_functions s) (f, []) = None \<or> map_of (sc_triggers s) (tr, n) \<noteq> None then None
      else Some (s\<lparr>sc_triggers := sc_triggers s @ [((tr, n), f)]\<rparr>, d))"
| "run_ddl (DropTrigger tr n) (s, d) = Some (s\<lparr>sc_triggers := filter (\<lambda>(k, _). k \<noteq> (tr, n)) (sc_triggers s)\<rparr>, d)"

text \<open>A migration file runs in one transaction.\<close>

fun run_file :: "ddl list \<Rightarrow> schema \<times> data \<Rightarrow> (schema \<times> data) option" where
  "run_file [] st = Some st"
| "run_file (q # qs) st = Option.bind (run_ddl q st) (run_file qs)"

subsection \<open>Well-formed schemas\<close>

text \<open>Constraints and indexes mention columns that exist, and foreign keys refer to columns that exist.\<close>

definition refers_to :: "schema \<Rightarrow> fkey \<Rightarrow> bool" where
  "refers_to s f = (case table_of (fk_table f) s of None \<Rightarrow> False | Some u \<Rightarrow> fk_ref f \<in> set (col_names u))"

definition table_wf :: "schema \<Rightarrow> table \<Rightarrow> bool" where
  "table_wf s t \<longleftrightarrow>
     (\<forall>(_, e) \<in> set (tb_checks t). set (cols_of e) \<subseteq> set (col_names t)) \<and>
     (\<forall>(_, cs) \<in> set (tb_uniques t). set cs \<subseteq> set (col_names t)) \<and>
     (\<forall>(_, f) \<in> set (tb_fks t). fk_col f \<in> set (col_names t) \<and> refers_to s f)"

definition index_wf :: "schema \<Rightarrow> index \<Rightarrow> bool" where
  "index_wf s ix = (case table_of (ix_table ix) s of None \<Rightarrow> False | Some t \<Rightarrow> set (index_cols ix) \<subseteq> set (col_names t))"

definition schema_wf :: "schema \<Rightarrow> bool" where
  "schema_wf s \<longleftrightarrow>
     distinct (map fst (sc_tables s)) \<and> (\<forall>(_, t) \<in> set (sc_tables s). table_wf s t) \<and> (\<forall>ix \<in> set (sc_indexes s). index_wf s ix)"

lemma table_ofI: "schema_wf s \<Longrightarrow> (n, t) \<in> set (sc_tables s) \<Longrightarrow> table_of n s = Some t"
  by (simp add: schema_wf_def table_of_def)

lemma table_ofD: "table_of n s = Some t \<Longrightarrow> (n, t) \<in> set (sc_tables s)"
  by (simp add: table_of_def map_of_SomeD)

lemma table_of_wf: "schema_wf s \<Longrightarrow> table_of n s = Some t \<Longrightarrow> table_wf s t"
  by (auto simp: schema_wf_def dest!: table_ofD)

lemma table_of_legal: "legal s d \<Longrightarrow> table_of n s = Some t \<Longrightarrow> table_ok d n t"
  by (auto simp: legal_def list_all_iff dest!: table_ofD)

lemma map_of_replaced:
  "map_of (map (\<lambda>(m, u). if m = n then (m, t) else (m, u)) xs) k = (if k = n \<and> map_of xs n \<noteq> None then Some t else map_of xs k)"
  by (induction xs) (auto split: if_splits)

lemma table_of_set [simp]:
  "table_of m (set_table n t s) = (if m = n \<and> table_of n s \<noteq> None then Some t else table_of m s)"
  unfolding table_of_def set_table_def by (simp add: map_of_replaced)

lemma set_table_simps [simp]:
  "sc_indexes (set_table n t s) = sc_indexes s" "map fst (sc_tables (set_table n t s)) = map fst (sc_tables s)"
  "table_of m (s\<lparr>sc_indexes := x\<rparr>) = table_of m s"
  by (auto simp: set_table_def table_of_def)

lemma set_table_elem: "(m, u) \<in> set (sc_tables (set_table n t s)) \<Longrightarrow> (m = n \<and> u = t) \<or> (m \<noteq> n \<and> (m, u) \<in> set (sc_tables s))"
  by (auto simp: set_table_def split: if_splits)

text \<open>A statement that changes one table, seen from the other tables.\<close>

lemma schema_wf_set_table:
  assumes "schema_wf s" "table_of n s = Some t" "table_wf s t'"
    and keep: "\<And>c. c \<in> set (col_names t) \<Longrightarrow> c \<notin> set (col_names t') \<Longrightarrow>
      \<not> referred s n c \<and> (\<forall>ix \<in> set (sc_indexes s'). ix_table ix = n \<longrightarrow> c \<notin> set (index_cols ix))"
    and self: "\<And>f k. (k, f) \<in> set (tb_fks t') \<Longrightarrow> fk_table f = n \<Longrightarrow> fk_ref f \<in> set (col_names t')"
    and s': "s' = (set_table n t' s)\<lparr>sc_indexes := ixs\<rparr>" "set ixs \<subseteq> set (sc_indexes s)"
  shows "schema_wf s'"
proof -
  have refs: "refers_to s' f" if "refers_to s f" "fk_table f = n \<longrightarrow> fk_ref f \<in> set (col_names t')" for f
    using that assms(2) by (auto simp: refers_to_def s' split: option.splits)
  have old: "fk_ref f \<in> set (col_names t')" if "(m, u) \<in> set (sc_tables s)" "(k, f) \<in> set (tb_fks u)" "fk_table f = n" for m u k f
  proof -
    have "refers_to s f" using assms(1) that by (fastforce simp: schema_wf_def table_wf_def)
    then have "fk_ref f \<in> set (col_names t)" using assms(2) that(3) by (simp add: refers_to_def)
    moreover have "referred s n (fk_ref f)" using that by (force simp: referred_def list_ex_iff)
    ultimately show ?thesis using keep by blast
  qed
  have "table_wf s' u" if "(m, u) \<in> set (sc_tables s')" for m u
  proof -
    have "(m = n \<and> u = t') \<or> (m \<noteq> n \<and> (m, u) \<in> set (sc_tables s))" using that set_table_elem s' by auto
    then show ?thesis
    proof
      assume "m = n \<and> u = t'"
      then show ?thesis using assms(3) self refs by (fastforce simp: table_wf_def)
    next
      assume u: "m \<noteq> n \<and> (m, u) \<in> set (sc_tables s)"
      then have "table_wf s u" using assms(1) by (auto simp: schema_wf_def)
      then show ?thesis using old[of m u] u refs by (fastforce simp: table_wf_def)
    qed
  qed
  moreover have "index_wf s' ix" if "ix \<in> set (sc_indexes s')" for ix
  proof -
    have "index_wf s ix" using that assms(1) s' by (auto simp: schema_wf_def)
    moreover have "set (index_cols ix) \<subseteq> set (col_names t')" if "ix_table ix = n" "set (index_cols ix) \<subseteq> set (col_names t)"
      using keep that \<open>ix \<in> set (sc_indexes s')\<close> by blast
    ultimately show ?thesis using assms(2) by (auto simp: index_wf_def s' split: option.splits)
  qed
  ultimately show ?thesis using assms(1) by (auto simp: schema_wf_def s')
qed

subsection \<open>Changing one column of every row\<close>

text \<open>\<open>ADD COLUMN\<close> and \<open>DROP COLUMN\<close> change a column that no remaining constraint reads.\<close>

definition upd_rows :: "string \<Rightarrow> (srow \<Rightarrow> srow) \<Rightarrow> data \<Rightarrow> data" where
  "upd_rows n f d = d(n := map f (d n))"

lemma unique_ok_map:
  assumes "\<And>r c. c \<in> set cs \<union> (case w of None \<Rightarrow> {} | Some e \<Rightarrow> set (cols_of e)) \<Longrightarrow> f r c = r c"
  shows "unique_ok cs w (map f rows) = unique_ok cs w rows"
proof -
  have "holds (f r) e = holds r e" if "w = Some e" for r e
    using assms that value_of_cong[of e "f r" r] by (simp add: holds_def)
  moreover have "map (f r) cs = map r cs" "list_all (\<lambda>c. f r c \<noteq> VNull) cs = list_all (\<lambda>c. r c \<noteq> VNull) cs" for r
    using assms by (auto simp: list_all_iff)
  ultimately show ?thesis
    by (cases w) (simp_all add: unique_ok_def filter_map comp_def del: map_eq_conv)
qed

lemma row_ok_cong:
  assumes "\<And>c. c \<in> set (col_names t) \<Longrightarrow> r' c = r c" "table_wf s t"
  shows "row_ok t r' = row_ok t r"
proof -
  have "passes r' e = passes r e" if "(k, e) \<in> set (tb_checks t)" for k e
    using assms that value_of_cong[of e r' r] by (fastforce simp: passes_def table_wf_def)
  moreover have "column_ok r' c = column_ok r c" if "c \<in> set (tb_cols t)" for c
    using assms(1) that by (simp add: column_ok_def col_names_def)
  ultimately show ?thesis by (fastforce simp: row_ok_def list_all_iff)
qed

lemma fk_ok_upd:
  assumes "f r (fk_col k) = r (fk_col k)" "fk_table k = n \<Longrightarrow> \<forall>q. f q (fk_ref k) = q (fk_ref k)"
  shows "fk_ok (upd_rows n f d) (f r) k = fk_ok d r k" "fk_ok (upd_rows n f d) r k = fk_ok d r k"
  using assms by (auto simp: fk_ok_def upd_rows_def list_ex_iff)

lemma table_ok_upd:
  assumes "table_wf s t" "\<And>r c. c \<noteq> col \<Longrightarrow> f r c = r c" "m = n \<Longrightarrow> col \<notin> set (col_names t)"
    and "\<And>k g. (k, g) \<in> set (tb_fks t) \<Longrightarrow> fk_table g = n \<Longrightarrow> fk_ref g \<noteq> col"
  shows "table_ok (upd_rows n f d) m t = table_ok d m t"
proof -
  have fks: "(\<forall>(k, g) \<in> set (tb_fks t). fk_ok (upd_rows n f d) (if m = n then f r else r) g) =
      (\<forall>(k, g) \<in> set (tb_fks t). fk_ok d r g)" for r
  proof (rule ball_cong[OF refl])
    fix x assume x: "x \<in> set (tb_fks t)"
    obtain k g where kg: "x = (k, g)" by fastforce
    have "fk_col g \<in> set (col_names t)" using assms(1) x kg by (auto simp: table_wf_def)
    then have "m = n \<Longrightarrow> f r (fk_col g) = r (fk_col g)" using assms(2,3) by metis
    moreover have "fk_table g = n \<Longrightarrow> \<forall>q. f q (fk_ref g) = q (fk_ref g)" using assms(2,4) x kg by blast
    ultimately show "(case x of (k, g) \<Rightarrow> fk_ok (upd_rows n f d) (if m = n then f r else r) g) = (case x of (k, g) \<Rightarrow> fk_ok d r g)"
      using fk_ok_upd[of f r g n d] kg by (cases "m = n") (auto simp: fk_ok_def upd_rows_def list_ex_iff)
  qed
  show ?thesis
  proof (cases "m = n")
    case True
    have same: "f r c = r c" if "c \<in> set (col_names t)" for r c using assms(2,3) True that by metis
    have "row_ok t (f r) = row_ok t r" for r using same assms(1) by (intro row_ok_cong) auto
    moreover have "unique_ok cs None (map f (d n)) = unique_ok cs None (d n)" if "(k, cs) \<in> set (tb_uniques t)" for k cs
      using that assms(1) same by (intro unique_ok_map) (fastforce simp: table_wf_def)
    moreover have "(\<forall>(k, g) \<in> set (tb_fks t). fk_ok (upd_rows n f d) (f r) g) = (\<forall>(k, g) \<in> set (tb_fks t). fk_ok d r g)" for r
      using fks[of r] True by simp
    ultimately show ?thesis using True
      unfolding table_ok_def list_all_iff by (auto simp: upd_rows_def)
  next
    case False
    have "(\<forall>(k, g) \<in> set (tb_fks t). fk_ok (upd_rows n f d) r g) = (\<forall>(k, g) \<in> set (tb_fks t). fk_ok d r g)" for r
      using fks[of r] False by simp
    moreover have "upd_rows n f d m = d m" using False by (simp add: upd_rows_def)
    ultimately show ?thesis unfolding table_ok_def list_all_iff by simp
  qed
qed

lemma index_ok_upd:
  assumes "\<And>r c. c \<noteq> col \<Longrightarrow> f r c = r c" "ix_table ix = n \<Longrightarrow> col \<notin> set (index_cols ix)"
  shows "index_ok (upd_rows n f d) ix = index_ok d ix"
proof (cases "ix_table ix = n")
  case True
  have "unique_ok (map fst (ix_cols ix)) (ix_where ix) (map f (d n)) = unique_ok (map fst (ix_cols ix)) (ix_where ix) (d n)"
  proof (rule unique_ok_map)
    fix r c assume "c \<in> set (map fst (ix_cols ix)) \<union> (case ix_where ix of None \<Rightarrow> {} | Some e \<Rightarrow> set (cols_of e))"
    then have "c \<in> set (index_cols ix)" by (auto simp: index_cols_def split: option.splits)
    then show "f r c = r c" using assms True by metis
  qed
  then show ?thesis using True by (simp add: index_ok_def upd_rows_def)
qed (simp add: index_ok_def upd_rows_def)

subsection \<open>Every statement keeps the invariant\<close>

lemma set_put_check [simp]: "set (tb_checks (put_check n e t)) = insert (n, e) (set (tb_checks t))"
  "tb_cols (put_check n e t) = tb_cols t" "tb_uniques (put_check n e t) = tb_uniques t" "tb_fks (put_check n e t) = tb_fks t"
  by (simp_all add: put_check_def set_insort_key)

lemma col_names_simps [simp]:
  "col_names (put_check n e t) = col_names t" "col_names (t\<lparr>tb_uniques := u\<rparr>) = col_names t"
  "col_names (t\<lparr>tb_fks := fs\<rparr>) = col_names t" "col_names (t\<lparr>tb_checks := cs\<rparr>) = col_names t"
  "col_names (t\<lparr>tb_cols := tb_cols t @ [c]\<rparr>) = col_names t @ [co_name c]"
  "col_names empty_table = []"
  by (simp_all add: col_names_def empty_table_def)

lemma add_check_Some: "add_check n e t = Some t' \<longleftrightarrow> n \<notin> set (constraint_names t) \<and> set (cols_of e) \<subseteq> set (col_names t) \<and> t' = put_check n e t"
  by (auto simp: add_check_def)

lemma add_unique_Some: "add_unique n cs t = Some t' \<longleftrightarrow>
   n \<notin> set (constraint_names t) \<and> set cs \<subseteq> set (col_names t) \<and> t' = t\<lparr>tb_uniques := tb_uniques t @ [(n, cs)]\<rparr>"
  by (auto simp: add_unique_def)

lemma add_fk_Some:
  "add_fk s n c (rt, rc, od) t = Some t' \<Longrightarrow> \<exists>u i. table_of rt s = Some u \<and> (i, [rc]) \<in> set (tb_uniques u) \<and>
     t' = t\<lparr>tb_fks := tb_fks t @ [(n, \<lparr>fk_col = c, fk_table = rt, fk_ref = rc, fk_delete = od\<rparr>)]\<rparr>"
  by (auto simp: add_fk_def list_ex_iff split: option.splits if_splits)

lemma add_column_Some:
  assumes "add_column s n cd t = Some t'"
  shows "co_name (cd_col cd) \<notin> set (col_names t)"
    and "tb_cols t' = tb_cols t @ [if cd_key cd = PrimaryKey then (cd_col cd)\<lparr>co_notnull := True\<rparr> else cd_col cd]"
    and "(k, e) \<in> set (tb_checks t') \<Longrightarrow> (k, e) \<in> set (tb_checks t) \<or> cd_check cd = Some e \<and> set (cols_of e) \<subseteq> set (col_names t')"
    and "(k, cs) \<in> set (tb_uniques t') \<Longrightarrow> (k, cs) \<in> set (tb_uniques t) \<or> cd_key cd \<noteq> NoKey \<and> cs = [co_name (cd_col cd)]"
    and "(k, f) \<in> set (tb_fks t') \<Longrightarrow> (k, f) \<in> set (tb_fks t) \<or>
       (\<exists>rt rc od u i. cd_refs cd = Some (rt, rc, od) \<and> f = \<lparr>fk_col = co_name (cd_col cd), fk_table = rt, fk_ref = rc, fk_delete = od\<rparr> \<and>
          table_of rt s = Some u \<and> (i, [rc]) \<in> set (tb_uniques u))"
    and "col_names t' = col_names t @ [co_name (cd_col cd)]"
proof -
  let ?cn = "co_name (cd_col cd)"
  define c' where "c' = (if cd_key cd = PrimaryKey then (cd_col cd)\<lparr>co_notnull := True\<rparr> else cd_col cd)"
  define t0 where "t0 = t\<lparr>tb_cols := tb_cols t @ [c']\<rparr>"
  have n0: "col_names t0 = col_names t @ [?cn]" "tb_cols t0 = tb_cols t @ [c']" "tb_checks t0 = tb_checks t" "tb_uniques t0 = tb_uniques t" "tb_fks t0 = tb_fks t"
    by (simp_all add: t0_def c'_def col_names_def)
  have fresh: "?cn \<notin> set (col_names t)" using assms by (auto simp: add_column_def)
  obtain t1 t2 where
      t1: "(case cd_check cd of None \<Rightarrow> Some t0 | Some e \<Rightarrow> add_check (n @ ''_'' @ ?cn @ ''_check'') e t0) = Some t1"
    and t2: "(if cd_key cd = NoKey then Some t1 else add_unique (key_constraint_name n cd) [?cn] t1) = Some t2"
    and t3: "(case cd_refs cd of None \<Rightarrow> Some t2 | Some ref \<Rightarrow> add_fk s (n @ ''_'' @ ?cn @ ''_fkey'') ?cn ref t2) = Some t'"
    using assms fresh unfolding add_column_def Let_def c'_def[symmetric] t0_def[symmetric] by (auto simp: bind_eq_Some_conv)
  have e1: "tb_cols t1 = tb_cols t0" "tb_uniques t1 = tb_uniques t0" "tb_fks t1 = tb_fks t0"
    and e1': "\<And>k e. (k, e) \<in> set (tb_checks t1) \<Longrightarrow> (k, e) \<in> set (tb_checks t) \<or> cd_check cd = Some e \<and> set (cols_of e) \<subseteq> set (col_names t0)"
    using t1 n0 by (auto simp: add_check_Some split: option.splits)
  have e2: "tb_cols t2 = tb_cols t0" "tb_checks t2 = tb_checks t1" "tb_fks t2 = tb_fks t"
    and e2': "\<And>k cs. (k, cs) \<in> set (tb_uniques t2) \<Longrightarrow> (k, cs) \<in> set (tb_uniques t) \<or> cd_key cd \<noteq> NoKey \<and> cs = [?cn]"
    using t2 e1 n0 by (auto simp: add_unique_Some split: if_splits)
  have e3: "tb_cols t' = tb_cols t0" "tb_checks t' = tb_checks t1" "tb_uniques t' = tb_uniques t2"
    and e3': "\<And>k f. (k, f) \<in> set (tb_fks t') \<Longrightarrow> (k, f) \<in> set (tb_fks t) \<or>
       (\<exists>rt rc od u i. cd_refs cd = Some (rt, rc, od) \<and> f = \<lparr>fk_col = ?cn, fk_table = rt, fk_ref = rc, fk_delete = od\<rparr> \<and>
          table_of rt s = Some u \<and> (i, [rc]) \<in> set (tb_uniques u))"
    using t3 e2 by (auto dest!: add_fk_Some split: option.splits)
  have names: "col_names t' = col_names t0" using e3(1) by (simp add: col_names_def)
  show "?cn \<notin> set (col_names t)" "tb_cols t' = tb_cols t @ [if cd_key cd = PrimaryKey then (cd_col cd)\<lparr>co_notnull := True\<rparr> else cd_col cd]"
    "col_names t' = col_names t @ [?cn]"
    using fresh e3(1) n0 names by (simp_all add: c'_def)
  show "(k, e) \<in> set (tb_checks t') \<Longrightarrow> (k, e) \<in> set (tb_checks t) \<or> cd_check cd = Some e \<and> set (cols_of e) \<subseteq> set (col_names t')"
    using e1' e3(2) names by simp
  show "(k, cs) \<in> set (tb_uniques t') \<Longrightarrow> (k, cs) \<in> set (tb_uniques t) \<or> cd_key cd \<noteq> NoKey \<and> cs = [co_name (cd_col cd)]"
    using e2' e3(3) by simp
  show "(k, f) \<in> set (tb_fks t') \<Longrightarrow> (k, f) \<in> set (tb_fks t) \<or>
       (\<exists>rt rc od u i. cd_refs cd = Some (rt, rc, od) \<and> f = \<lparr>fk_col = co_name (cd_col cd), fk_table = rt, fk_ref = rc, fk_delete = od\<rparr> \<and>
          table_of rt s = Some u \<and> (i, [rc]) \<in> set (tb_uniques u))"
    using e3' .
qed

lemma unique_column: "schema_wf s \<Longrightarrow> table_of n s = Some u \<Longrightarrow> (i, [c]) \<in> set (tb_uniques u) \<Longrightarrow> c \<in> set (col_names u)"
  using table_of_wf[of s n u] by (force simp: table_wf_def)

lemma table_wfI:
  assumes "\<And>k e. (k, e) \<in> set (tb_checks t) \<Longrightarrow> set (cols_of e) \<subseteq> set (col_names t)"
    and "\<And>k cs. (k, cs) \<in> set (tb_uniques t) \<Longrightarrow> set cs \<subseteq> set (col_names t)"
    and "\<And>k f. (k, f) \<in> set (tb_fks t) \<Longrightarrow> fk_col f \<in> set (col_names t) \<and> refers_to s f"
  shows "table_wf s t"
  using assms unfolding table_wf_def by blast

lemma add_column_wf:
  assumes "add_column s n cd t = Some t'" "schema_wf s" "table_wf s t"
  shows "table_wf s t'"
proof -
  note names = add_column_Some(6)[OF assms(1)]
  have "fk_col g \<in> set (col_names t') \<and> refers_to s g" if "(k, g) \<in> set (tb_fks t')" for k g
    using add_column_Some(5)[OF assms(1) that] assms(3) names unique_column[OF assms(2)]
    by (fastforce simp: table_wf_def refers_to_def)
  moreover have "set (cols_of e) \<subseteq> set (col_names t')" if "(k, e) \<in> set (tb_checks t')" for k e
    using add_column_Some(3)[OF assms(1) that] assms(3) names by (auto simp: table_wf_def)
  moreover have "set cs \<subseteq> set (col_names t')" if "(k, cs) \<in> set (tb_uniques t')" for k cs
    using add_column_Some(4)[OF assms(1) that] assms(3) names by (auto simp: table_wf_def)
  ultimately show ?thesis by (intro table_wfI)
qed

lemma add_columns_wf: "add_columns s n cds t = Some t' \<Longrightarrow> schema_wf s \<Longrightarrow> table_wf s t \<Longrightarrow> table_wf s t'"
  by (induction cds arbitrary: t) (auto simp: bind_eq_Some_conv intro: add_column_wf)

lemma add_tcons_wf: "add_tcons cs t = Some t' \<Longrightarrow> table_wf s t \<Longrightarrow> table_wf s t'"
proof (induction cs t rule: add_tcons.induct)
  case (2 n e cs t)
  then show ?case by (auto simp: add_check_def table_wf_def split: if_splits)
next
  case (3 n ks cs t)
  then show ?case by (auto simp: add_unique_def table_wf_def split: if_splits)
qed simp

lemma refers_to_existing:
  assumes "schema_wf s" "table_of n s = Some t" "(m, u) \<in> set (sc_tables s)" "(k, f) \<in> set (tb_fks u)" "fk_table f = n"
  shows "fk_ref f \<in> set (col_names t)"
  using assms by (fastforce simp: schema_wf_def table_wf_def refers_to_def)

lemma legalI:
  assumes "\<And>m u. (m, u) \<in> set (sc_tables s) \<Longrightarrow> table_ok d m u" "\<And>ix. ix \<in> set (sc_indexes s) \<Longrightarrow> index_ok d ix"
  shows "legal s d"
  using assms by (auto simp: legal_def list_all_iff)

lemma legalD: "legal s d \<Longrightarrow> (m, u) \<in> set (sc_tables s) \<Longrightarrow> table_ok d m u" "legal s d \<Longrightarrow> ix \<in> set (sc_indexes s) \<Longrightarrow> index_ok d ix"
  by (auto simp: legal_def list_all_iff)

lemma unique_ok_const:
  assumes "v = VNull \<or> length rows \<le> 1"
  shows "unique_ok [c] None (map (\<lambda>r. r(c := v)) rows)"
proof (cases "v = VNull")
  case False
  then have "length rows \<le> 1" using assms by simp
  then show ?thesis by (cases rows) (auto simp: unique_ok_def)
qed (simp add: unique_ok_def filter_map comp_def)

lemma table_ok_new_column:
  assumes add: "add_column s n cd t = Some t'" and wf: "schema_wf s" "table_of n s = Some t"
    and ok: "table_ok d n t" "alter_check n (AddColumn cd) d"
  shows "table_ok (alter_data n (AddColumn cd) d) n t'"
proof -
  let ?c = "cd_col cd" let ?f = "\<lambda>r. r(co_name ?c := default_value ?c)"
  have d': "alter_data n (AddColumn cd) d = upd_rows n ?f d" by (simp add: upd_rows_def)
  note cols = add_column_Some[OF add]
  have twf: "table_wf s t" using table_of_wf[OF wf] .
  have "(n, t) \<in> set (sc_tables s)" using wf(2) by (rule table_ofD)
  then have noref: "fk_ref g \<noteq> co_name ?c" if "(k, g) \<in> set (tb_fks t)" "fk_table g = n" for k g
    using refers_to_existing[OF wf(1,2) _ that] cols(1) by auto
  have "table_ok (upd_rows n ?f d) n t"
    using table_ok_upd[OF twf, where col = "co_name ?c" and f = ?f and m = n and n = n and d = d] cols(1) noref ok(1) by auto
  then have old: "\<And>r. r \<in> set (d n) \<Longrightarrow> row_ok t (?f r)" "\<And>k cs. (k, cs) \<in> set (tb_uniques t) \<Longrightarrow> unique_ok cs None (map ?f (d n))"
    "\<And>r k g. r \<in> set (d n) \<Longrightarrow> (k, g) \<in> set (tb_fks t) \<Longrightarrow> fk_ok (upd_rows n ?f d) (?f r) g"
    by (auto simp: table_ok_def list_all_iff upd_rows_def)
  have new: "column_addable cd d r" if "r \<in> set (d n)" for r using ok(2) that by (auto simp: list_all_iff)
  have "row_ok t' (?f r)" if r: "r \<in> set (d n)" for r
  proof -
    have "passes (?f r) e" if "(k, e) \<in> set (tb_checks t')" for k e
      using cols(3)[OF that] old(1)[OF r] new[OF r] by (auto simp: row_ok_def list_all_iff column_addable_def Let_def)
    moreover have "column_ok (?f r) c" if "c \<in> set (tb_cols t')" for c
      using that cols(2) old(1)[OF r] new[OF r]
      by (auto simp: row_ok_def list_all_iff column_addable_def Let_def column_ok_def split: if_splits)
    ultimately show ?thesis by (auto simp: row_ok_def list_all_iff)
  qed
  moreover have "unique_ok cs None (map ?f (d n))" if "(k, cs) \<in> set (tb_uniques t')" for k cs
    using cols(4)[OF that] old(2) unique_ok_const[of "default_value ?c" "d n" "co_name ?c"] ok(2) by auto
  moreover have "fk_ok (upd_rows n ?f d) (?f r) g" if r: "r \<in> set (d n)" and g: "(k, g) \<in> set (tb_fks t')" for r k g
    using cols(5)[OF g]
  proof
    assume "\<exists>rt rc od u i. cd_refs cd = Some (rt, rc, od) \<and> g = \<lparr>fk_col = co_name ?c, fk_table = rt, fk_ref = rc, fk_delete = od\<rparr> \<and>
      table_of rt s = Some u \<and> (i, [rc]) \<in> set (tb_uniques u)"
    then obtain rt rc od u i where g: "cd_refs cd = Some (rt, rc, od)" "g = \<lparr>fk_col = co_name ?c, fk_table = rt, fk_ref = rc, fk_delete = od\<rparr>"
      and u: "table_of rt s = Some u" "(i, [rc]) \<in> set (tb_uniques u)" by blast
    have "rt = n \<Longrightarrow> rc \<noteq> co_name ?c" using unique_column[OF wf(1) u] wf(2) u(1) cols(1) by auto
    then show ?thesis using new[OF r] g by (auto simp: column_addable_def Let_def fk_ok_def upd_rows_def list_ex_iff)
  qed (use old(3)[OF r] in blast)
  ultimately show ?thesis unfolding d' by (auto simp: table_ok_def list_all_iff upd_rows_def)
qed

lemma table_ok_mono:
  assumes "table_ok d n t" "set (tb_cols t') \<subseteq> set (tb_cols t)" "set (tb_checks t') \<subseteq> set (tb_checks t)"
    "set (tb_uniques t') \<subseteq> set (tb_uniques t)" "set (tb_fks t') \<subseteq> set (tb_fks t)"
  shows "table_ok d n t'"
  using assms unfolding table_ok_def row_ok_def list_all_iff by blast

definition sound :: "schema \<times> data \<Rightarrow> bool" where
  "sound st \<longleftrightarrow> schema_wf (fst st) \<and> legal (fst st) (snd st)"

lemma set_table_indexes [simp]: "(set_table n t s)\<lparr>sc_indexes := sc_indexes s\<rparr> = set_table n t s"
  by (simp add: set_table_def)

lemma AddColumn_sound:
  assumes "sound (s, d)" "alter_schema n (AddColumn cd) s = Some s'" "alter_check n (AddColumn cd) d"
  shows "sound (s', alter_data n (AddColumn cd) d)"
proof -
  let ?c = "cd_col cd" let ?f = "\<lambda>r. r(co_name ?c := default_value ?c)"
  obtain t t' where t: "table_of n s = Some t" "add_column s n cd t = Some t'" and s': "s' = set_table n t' s"
    using assms(2) by (auto simp: bind_eq_Some_conv)
  have wf: "schema_wf s" and leg: "legal s d" using assms(1) by (simp_all add: sound_def)
  note cols = add_column_Some[OF t(2)]
  have self: "fk_ref f \<in> set (col_names t')" if f: "(k, f) \<in> set (tb_fks t')" "fk_table f = n" for k f
    using cols(5)[OF f(1)] refers_to_existing[OF wf t(1) table_ofD[OF t(1)] _ f(2)] unique_column[OF wf t(1)] f(2) cols(6) t(1) by auto
  have wf': "schema_wf s'"
    using schema_wf_set_table[OF wf t(1) add_column_wf[OF t(2) wf table_of_wf[OF wf t(1)]], of s' "sc_indexes s"] self cols(6) s' by simp
  moreover have "legal s' (upd_rows n ?f d)"
  proof (rule legalI)
    fix m u assume "(m, u) \<in> set (sc_tables s')"
    then consider "m = n" "u = t'" | "m \<noteq> n" "(m, u) \<in> set (sc_tables s)" using set_table_elem s' by blast
    then show "table_ok (upd_rows n ?f d) m u"
    proof cases
      case 1
      then show ?thesis using table_ok_new_column[OF t(2) wf t(1) table_of_legal[OF leg t(1)] assms(3)] by (simp add: upd_rows_def)
    next
      case 2
      have "fk_ref g \<noteq> co_name ?c" if "(k, g) \<in> set (tb_fks u)" "fk_table g = n" for k g
        using refers_to_existing[OF wf t(1) 2(2) that] cols(1) by auto
      moreover have "table_wf s u" using 2 wf by (auto simp: schema_wf_def)
      ultimately show ?thesis using table_ok_upd[of s u "co_name ?c" ?f m n d] legalD(1)[OF leg 2(2)] 2(1) by simp
    qed
  next
    fix ix assume "ix \<in> set (sc_indexes s')"
    then have ix: "ix \<in> set (sc_indexes s)" by (simp add: s')
    then have "index_wf s ix" using wf by (simp add: schema_wf_def)
    then have "ix_table ix = n \<Longrightarrow> co_name ?c \<notin> set (index_cols ix)" using t(1) cols(1) by (auto simp: index_wf_def)
    then show "index_ok (upd_rows n ?f d) ix" using index_ok_upd[of "co_name ?c" ?f ix n d] legalD(2)[OF leg ix] by simp
  qed
  ultimately show ?thesis by (simp add: sound_def upd_rows_def)
qed

lemma drop_column_simps [simp]: "set (col_names (drop_column c t)) = set (col_names t) - {c}"
  by (auto simp: drop_column_def col_names_def)

lemma DropColumn_sound:
  assumes "sound (s, d)" "alter_schema n (DropColumn c) s = Some s'"
  shows "sound (s', alter_data n (DropColumn c) d)"
proof -
  let ?f = "\<lambda>r. r(c := VNull)"
  have wf: "schema_wf s" and leg: "legal s d" using assms(1) by (simp_all add: sound_def)
  obtain t where t: "table_of n s = Some t" using assms(2) by (auto simp: bind_eq_Some_conv)
  have twf: "table_wf s t" using table_of_wf[OF wf t] .
  have noref: "fk_ref g \<noteq> c" if "\<not> referred s n c" "(m, u) \<in> set (sc_tables s)" "(k, g) \<in> set (tb_fks u)" "fk_table g = n" for m u k g
    using that by (force simp: referred_def list_ex_iff)
  show ?thesis
  proof (cases "c \<in> set (col_names t)")
    case False
    then have s': "s' = s" using assms(2) t by simp
    have "legal s (upd_rows n ?f d)"
    proof (rule legalI)
      fix m u assume u: "(m, u) \<in> set (sc_tables s)"
      have "fk_ref g \<noteq> c" if "(k, g) \<in> set (tb_fks u)" "fk_table g = n" for k g using refers_to_existing[OF wf t u that] False by auto
      moreover have "table_wf s u" using u wf by (auto simp: schema_wf_def)
      moreover have "m = n \<Longrightarrow> u = t" using table_ofI[OF wf u] t by simp
      ultimately show "table_ok (upd_rows n ?f d) m u" using table_ok_upd[of s u c ?f m n d] legalD(1)[OF leg u] False by auto
    next
      fix ix assume ix: "ix \<in> set (sc_indexes s)"
      then have "index_wf s ix" using wf by (simp add: schema_wf_def)
      then have "ix_table ix = n \<Longrightarrow> c \<notin> set (index_cols ix)" using t False by (auto simp: index_wf_def)
      then show "index_ok (upd_rows n ?f d) ix" using index_ok_upd[of c ?f ix n d] legalD(2)[OF leg ix] by simp
    qed
    then show ?thesis using wf s' by (simp add: sound_def upd_rows_def)
  next
    case True
    let ?t = "drop_column c t"
    let ?ixs = "filter (\<lambda>ix. ix_table ix \<noteq> n \<or> c \<notin> set (index_cols ix)) (sc_indexes s)"
    have nr: "\<not> referred s n c" and s': "s' = (set_table n ?t s)\<lparr>sc_indexes := ?ixs\<rparr>"
      using assms(2) t True by (auto split: if_splits)
    have sub: "set (tb_cols ?t) \<subseteq> set (tb_cols t)" "set (tb_checks ?t) \<subseteq> set (tb_checks t)" "set (tb_uniques ?t) \<subseteq> set (tb_uniques t)"
      "set (tb_fks ?t) \<subseteq> set (tb_fks t)" by (auto simp: drop_column_def)
    have twf': "table_wf s ?t"
      using twf by (intro table_wfI; unfold drop_column_simps) (fastforce simp: drop_column_def table_wf_def)+
    have "schema_wf s'"
    proof (rule schema_wf_set_table[OF wf t twf' _ _ s'])
      fix f k assume f: "(k, f) \<in> set (tb_fks ?t)" "fk_table f = n"
      then have "(k, f) \<in> set (tb_fks t)" using sub by blast
      then show "fk_ref f \<in> set (col_names ?t)"
        using refers_to_existing[OF wf t table_ofD[OF t] _ f(2)] noref[OF nr table_ofD[OF t] _ f(2)] by auto
    qed (use nr in \<open>auto simp: s'\<close>)
    moreover have "legal s' (upd_rows n ?f d)"
    proof (rule legalI)
      fix m u assume "(m, u) \<in> set (sc_tables s')"
      then have mu: "m = n \<and> u = ?t \<or> m \<noteq> n \<and> (m, u) \<in> set (sc_tables s)" using set_table_elem s' by force
      have ok: "table_ok d m u"
        using mu legalD(1)[OF leg] table_ok_mono[OF table_of_legal[OF leg t] sub] by blast
      have "table_wf s u" using mu twf' wf by (auto simp: schema_wf_def)
      moreover have "fk_ref g \<noteq> c" if "(k, g) \<in> set (tb_fks u)" "fk_table g = n" for k g
        using mu noref[OF nr _ _ that(2)] table_ofD[OF t] that(1) sub(4) by blast
      ultimately show "table_ok (upd_rows n ?f d) m u" using table_ok_upd[of s u c ?f m n d] ok mu by auto
    next
      fix ix assume "ix \<in> set (sc_indexes s')"
      then have "ix \<in> set (sc_indexes s)" "ix_table ix = n \<Longrightarrow> c \<notin> set (index_cols ix)" by (auto simp: s')
      then show "index_ok (upd_rows n ?f d) ix" using index_ok_upd[of c ?f ix n d] legalD(2)[OF leg] by simp
    qed
    ultimately show ?thesis by (simp add: sound_def upd_rows_def)
  qed
qed

lemma AddCheck_sound:
  assumes "sound (s, d)" "alter_schema n (AddCheck k e) s = Some s'" "alter_check n (AddCheck k e) d"
  shows "sound (s', d)"
proof -
  have wf: "schema_wf s" and leg: "legal s d" using assms(1) by (simp_all add: sound_def)
  obtain t where t: "table_of n s = Some t" and e: "set (cols_of e) \<subseteq> set (col_names t)" and s': "s' = set_table n (put_check k e t) s"
    using assms(2) by (auto simp: bind_eq_Some_conv add_check_Some)
  have "table_wf s (put_check k e t)" using table_of_wf[OF wf t] e by (auto simp: table_wf_def)
  then have "schema_wf s'"
    using schema_wf_set_table[OF wf t, of "put_check k e t" s' "sc_indexes s"] s'
      refers_to_existing[OF wf t table_ofD[OF t]] by simp
  moreover have "table_ok d n (put_check k e t)"
    using table_of_legal[OF leg t] assms(3) by (auto simp: table_ok_def row_ok_def list_all_iff)
  then have "legal s' d" using leg s' set_table_elem by (intro legalI) (auto dest: legalD dest!: set_table_elem)
  ultimately show ?thesis by (simp add: sound_def)
qed

lemma DropConstraint_sound:
  assumes "sound (s, d)" "alter_schema n (DropConstraint k) s = Some s'"
  shows "sound (s', d)"
proof -
  have wf: "schema_wf s" and leg: "legal s d" using assms(1) by (simp_all add: sound_def)
  obtain t where t: "table_of n s = Some t" using assms(2) by (auto simp: bind_eq_Some_conv)
  define t' where "t' = t\<lparr>tb_checks := filter (\<lambda>(m, _). m \<noteq> k) (tb_checks t), tb_uniques := filter (\<lambda>(m, _). m \<noteq> k) (tb_uniques t),
                          tb_fks := filter (\<lambda>(m, _). m \<noteq> k) (tb_fks t)\<rparr>"
  have s': "s' = set_table n t' s" using assms(2) t by (auto simp: t'_def split: if_splits)
  have names: "col_names t' = col_names t" by (simp add: t'_def col_names_def)
  have "table_wf s t'" using table_of_wf[OF wf t] unfolding table_wf_def names by (auto simp: t'_def)
  then have "schema_wf s'"
    using schema_wf_set_table[OF wf t, of t' s' "sc_indexes s"] s' names refers_to_existing[OF wf t table_ofD[OF t]]
    by (auto simp: t'_def)
  moreover have "table_ok d n t'"
    by (rule table_ok_mono[OF table_of_legal[OF leg t]]) (auto simp: t'_def)
  then have "legal s' d" using leg s' by (intro legalI) (auto dest: legalD dest!: set_table_elem)
  ultimately show ?thesis by (simp add: sound_def)
qed

lemma run_alters_sound: "run_alters n as st = Some st' \<Longrightarrow> sound st \<Longrightarrow> sound st'"
proof (induction n as st rule: run_alters.induct)
  case (2 n a as st)
  obtain s d where st: "st = (s, d)" by fastforce
  obtain st1 where st1: "run_alter n a st = Some st1" "run_alters n as st1 = Some st'" using "2.prems"(1) by (auto simp: bind_eq_Some_conv)
  obtain s1 where s1: "alter_schema n a s = Some s1" "alter_check n a d" "st1 = (s1, alter_data n a d)"
    using st1(1) by (auto simp: st split: option.splits if_splits)
  have snd: "sound (s, d)" using "2.prems"(2) st by simp
  have "sound st1"
  proof (cases a)
    case (AddColumn cd)
    then show ?thesis using AddColumn_sound[OF snd s1(1)[unfolded AddColumn] s1(2)[unfolded AddColumn]] s1(3) by (simp only: AddColumn)
  next
    case (DropColumn c)
    then show ?thesis using DropColumn_sound[OF snd s1(1)[unfolded DropColumn]] s1(3) by (simp only: DropColumn)
  next
    case (AddCheck k e)
    then show ?thesis using AddCheck_sound[OF snd s1(1)[unfolded AddCheck] s1(2)[unfolded AddCheck]] s1(3) by simp
  next
    case (DropConstraint k)
    then show ?thesis using DropConstraint_sound[OF snd s1(1)[unfolded DropConstraint]] s1(3) by simp
  qed
  then show ?case using "2.IH" st1 by blast
qed simp

lemma CreateTable_sound:
  assumes "sound (s, d)" "n \<notin> set (relation_names s)" "add_columns s n cds empty_table = Some t0" "add_tcons tcs t0 = Some t"
  shows "sound (s\<lparr>sc_tables := sc_tables s @ [(n, t)]\<rparr>, d(n := []))"
proof -
  let ?s = "s\<lparr>sc_tables := sc_tables s @ [(n, t)]\<rparr>"
  have wf: "schema_wf s" and leg: "legal s d" using assms(1) by (simp_all add: sound_def)
  have fresh: "n \<notin> fst ` set (sc_tables s)" using assms(2) by (auto simp: relation_names_def)
  then have none: "table_of n s = None" by (simp add: table_of_def map_of_eq_None_iff)
  have of: "table_of m ?s = (if m = n then Some t else table_of m s)" for m
    using none by (auto simp: table_of_def map_add_def split: option.splits)
  have refs: "refers_to ?s f" if "refers_to s f" for f using that none of by (auto simp: refers_to_def split: option.splits)
  have "table_wf s empty_table" by (simp add: table_wf_def empty_table_def)
  then have "table_wf s t" using add_columns_wf[OF assms(3) wf] add_tcons_wf[OF assms(4)] by blast
  then have tw: "table_wf ?s u" if "(m, u) \<in> set (sc_tables ?s)" for m u
    using that wf refs by (fastforce simp: schema_wf_def table_wf_def)
  moreover have iw: "index_wf ?s ix" "ix_table ix \<noteq> n" if "ix \<in> set (sc_indexes s)" for ix
    using that wf none of by (auto simp: schema_wf_def index_wf_def split: option.splits)
  ultimately have "schema_wf ?s" using wf fresh unfolding schema_wf_def by fastforce
  moreover have "legal ?s (d(n := []))"
  proof (rule legalI)
    fix m u assume mu: "(m, u) \<in> set (sc_tables ?s)"
    show "table_ok (d(n := [])) m u"
    proof (cases "m = n")
      case True
      then show ?thesis by (simp add: table_ok_def unique_ok_def list_all_iff)
    next
      case False
      then have u: "(m, u) \<in> set (sc_tables s)" using mu by auto
      have "fk_table f \<noteq> n" if "(k, f) \<in> set (tb_fks u)" for k f
        using that u wf none by (fastforce simp: schema_wf_def table_wf_def refers_to_def)
      then have "fk_ok (d(n := [])) r f = fk_ok d r f" if "(k, f) \<in> set (tb_fks u)" for k f r using that by (auto simp: fk_ok_def)
      then show ?thesis using legalD(1)[OF leg u] False by (fastforce simp: table_ok_def list_all_iff)
    qed
  qed (use iw legalD(2)[OF leg] in \<open>auto simp: index_ok_def\<close>)
  ultimately show ?thesis by (simp add: sound_def)
qed

lemma DropTable_sound:
  assumes "sound (s, d)" "\<not> referred_table s n"
  shows "sound (drop_table n s, d(n := []))"
proof -
  let ?s = "drop_table n s"
  have wf: "schema_wf s" and leg: "legal s d" using assms(1) by (simp_all add: sound_def)
  have tabs: "(m, u) \<in> set (sc_tables ?s) \<longleftrightarrow> m \<noteq> n \<and> (m, u) \<in> set (sc_tables s)" for m u by (auto simp: drop_table_def)
  have "map_of (filter (\<lambda>(m, _). m \<noteq> n) xs) m = (if m = n then None else map_of xs m)" for xs :: "(string \<times> table) list" and m
    by (induction xs) auto
  then have of: "table_of m ?s = (if m = n then None else table_of m s)" for m by (simp add: table_of_def drop_table_def)
  have nref: "fk_table f \<noteq> n" if "m \<noteq> n" "(m, u) \<in> set (sc_tables s)" "(k, f) \<in> set (tb_fks u)" for m u k f
    using assms(2) that by (force simp: referred_table_def list_ex_iff)
  have "table_wf ?s u" if mu: "(m, u) \<in> set (sc_tables ?s)" for m u
  proof -
    have "table_wf s u" "m \<noteq> n" "(m, u) \<in> set (sc_tables s)" using mu wf tabs by (auto simp: schema_wf_def)
    then show ?thesis using nref of unfolding table_wf_def refers_to_def by fastforce
  qed
  moreover have ixs: "ix \<in> set (sc_indexes s)" "ix_table ix \<noteq> n" if "ix \<in> set (sc_indexes ?s)" for ix
    using that by (auto simp: drop_table_def)
  then have "index_wf ?s ix" if "ix \<in> set (sc_indexes ?s)" for ix
    using that wf of by (fastforce simp: schema_wf_def index_wf_def)
  moreover have "distinct (map fst (filter (\<lambda>(m, _). m \<noteq> n) xs))" if "distinct (map fst xs)" for xs :: "(string \<times> table) list"
    using that by (induction xs) auto
  then have "distinct (map fst (sc_tables ?s))" using wf by (simp add: schema_wf_def drop_table_def)
  ultimately have "schema_wf ?s" unfolding schema_wf_def by fastforce
  moreover have "legal ?s (d(n := []))"
  proof (rule legalI)
    fix m u assume "(m, u) \<in> set (sc_tables ?s)"
    then have mu: "m \<noteq> n" "(m, u) \<in> set (sc_tables s)" using tabs by auto
    have "fk_ok (d(n := [])) r f = fk_ok d r f" if "(k, f) \<in> set (tb_fks u)" for k f r using nref[OF mu that] by (auto simp: fk_ok_def)
    then show "table_ok (d(n := [])) m u" using legalD(1)[OF leg mu(2)] mu(1) by (fastforce simp: table_ok_def list_all_iff)
  qed (use ixs legalD(2)[OF leg] in \<open>auto simp: index_ok_def\<close>)
  ultimately show ?thesis by (simp add: sound_def)
qed

text \<open>Statements that only change indexes, functions, triggers and extensions.\<close>

lemma same_tables:
  assumes "sc_tables s' = sc_tables s"
  shows "table_wf s' t = table_wf s t" "index_wf s' ix = index_wf s ix"
  using assms by (simp_all add: table_wf_def index_wf_def refers_to_def table_of_def)

lemma sound_same:
  assumes "sound (s, d)" "sc_tables s' = sc_tables s" "\<And>ix. ix \<in> set (sc_indexes s') \<Longrightarrow> ix \<in> set (sc_indexes s) \<or> index_wf s ix \<and> index_ok d ix"
  shows "sound (s', d)"
proof -
  have "index_wf s' ix \<and> index_ok d ix" if "ix \<in> set (sc_indexes s')" for ix
    using assms(3)[OF that] assms(1) same_tables(2)[OF assms(2)] by (auto simp: sound_def schema_wf_def legal_def list_all_iff)
  then show ?thesis using assms(1) by (auto simp: sound_def schema_wf_def legal_def list_all_iff same_tables(1)[OF assms(2)] assms(2))
qed

theorem run_ddl_sound: "run_ddl q st = Some st' \<Longrightarrow> sound st \<Longrightarrow> sound st'"
proof -
  assume run: "run_ddl q st = Some st'" and ok: "sound st"
  obtain s d where st: "st = (s, d)" by fastforce
  show "sound st'"
  proof (cases q)
    case (CreateTable n cds tcs)
    then show ?thesis using run ok CreateTable_sound[of s d n cds _ tcs] by (auto simp: st bind_eq_Some_conv split: if_splits)
  next
    case (DropTable n)
    then show ?thesis using run ok DropTable_sound[of s d n] by (auto simp: st split: if_splits)
  next
    case (AlterTable n as)
    then show ?thesis using run ok run_alters_sound[of n as st st'] by simp
  next
    case (CreateIndex ix)
    then show ?thesis using run ok by (auto simp: st index_wf_def intro!: sound_same[of s d] split: option.splits if_splits)
  qed (use run ok in \<open>auto simp: st intro!: sound_same[of s d] split: if_splits\<close>)
qed

corollary run_file_sound: "run_file qs st = Some st' \<Longrightarrow> sound st \<Longrightarrow> sound st'"
  by (induction qs arbitrary: st) (auto simp: bind_eq_Some_conv dest: run_ddl_sound)

lemma empty_sound: "sound (empty_schema, d)"
  by (simp add: sound_def schema_wf_def legal_def empty_schema_def)

subsection \<open>Schema and rows apart\<close>

text \<open>
  What a file does to the schema does not depend on the rows; the rows decide whether it passes.
  A run on a database without rows therefore tells the schema of every run.
\<close>

fun alters_pass :: "string \<Rightarrow> alter list \<Rightarrow> data \<Rightarrow> bool" where
  "alters_pass n [] d \<longleftrightarrow> True"
| "alters_pass n (a # as) d \<longleftrightarrow> alter_check n a d \<and> alters_pass n as (alter_data n a d)"

fun ddl_pass :: "ddl \<Rightarrow> data \<Rightarrow> bool" where
  "ddl_pass (AlterTable n as) d = alters_pass n as d"
| "ddl_pass (CreateIndex ix) d = index_ok d ix"
| "ddl_pass q d = True"

fun ddl_data :: "ddl \<Rightarrow> data \<Rightarrow> data" where
  "ddl_data (AlterTable n as) d = fold (alter_data n) as d"
| "ddl_data (CreateTable n cds tcs) d = d(n := [])"
| "ddl_data (DropTable n) d = d(n := [])"
| "ddl_data q d = d"

fun file_pass :: "ddl list \<Rightarrow> data \<Rightarrow> bool" where
  "file_pass [] d \<longleftrightarrow> True"
| "file_pass (q # qs) d \<longleftrightarrow> ddl_pass q d \<and> file_pass qs (ddl_data q d)"

definition no_rows :: data where
  "no_rows = (\<lambda>_. [])"

lemma no_rows_at: "no_rows n = []"
  by (simp add: no_rows_def)

lemma no_rows_upd [simp]: "no_rows(n := []) = no_rows"
  by (auto simp: no_rows_def)

lemma alter_no_rows [simp]: "alter_data n a no_rows = no_rows" "alter_check n a no_rows"
proof -
  have "map f (no_rows n) = []" "list_all P (no_rows n)" "length (no_rows n) \<le> 1" for f :: "srow \<Rightarrow> srow" and P n
    unfolding no_rows_at by simp_all
  then show "alter_data n a no_rows = no_rows" "alter_check n a no_rows" by (cases a, simp_all)+
qed

lemma run_alters_no_rows: "run_alters n as (s, no_rows) = Some st \<Longrightarrow> snd st = no_rows"
proof (induction as arbitrary: s)
  case (Cons a as)
  then show ?case by (cases "alter_schema n a s") simp_all
qed auto

lemma run_alters_split:
  "run_alters n as (s, d) =
   (case run_alters n as (s, no_rows) of
      None \<Rightarrow> None | Some (s', d') \<Rightarrow> if alters_pass n as d then Some (s', fold (alter_data n) as d) else None)"
proof (induction as arbitrary: s d)
  case (Cons a as)
  show ?case
  proof (cases "alter_schema n a s")
    case (Some s1)
    then show ?thesis using Cons.IH[of s1 "alter_data n a d"] by (simp split: option.splits)
  qed simp
qed simp

lemma run_ddl_split:
  "run_ddl q (s, d) =
   (case run_ddl q (s, no_rows) of None \<Rightarrow> None | Some (s', d') \<Rightarrow> if ddl_pass q d then Some (s', ddl_data q d) else None)"
proof (cases q)
  case (AlterTable n as)
  show ?thesis unfolding AlterTable using run_alters_split[of n as s d] by (simp only: run_ddl.simps ddl_pass.simps ddl_data.simps)
next
  case (CreateIndex ix)
  have "index_ok no_rows ix" by (simp add: index_ok_def unique_ok_def no_rows_def)
  then show ?thesis unfolding CreateIndex by (simp split: option.splits)
next
  case (CreateTable n cds tcs)
  show ?thesis unfolding CreateTable by (cases "Option.bind (add_columns s n cds empty_table) (add_tcons tcs)") simp_all
next
  case (CreateFunction f tys b)
  show ?thesis unfolding CreateFunction by (simp only: run_ddl.simps ddl_pass.simps ddl_data.simps option.case prod.case if_True)
next
  case (CreateTrigger tr n f)
  show ?thesis unfolding CreateTrigger run_ddl.simps ddl_pass.simps ddl_data.simps by simp
next
  case (DropFunction f tys)
  show ?thesis unfolding DropFunction run_ddl.simps ddl_pass.simps ddl_data.simps by simp
next
  case (DropTable n)
  show ?thesis unfolding DropTable run_ddl.simps ddl_pass.simps ddl_data.simps by simp
next
  case (CreateExtension x)
  show ?thesis unfolding CreateExtension run_ddl.simps ddl_pass.simps ddl_data.simps by simp
next
  case (DropIndex n)
  show ?thesis unfolding DropIndex run_ddl.simps ddl_pass.simps ddl_data.simps by simp
next
  case (DropTrigger tr n)
  show ?thesis unfolding DropTrigger run_ddl.simps ddl_pass.simps ddl_data.simps by simp
qed

lemma run_ddl_no_rows:
  assumes "run_ddl q (s, no_rows) = Some (s', d')"
  shows "d' = no_rows"
proof -
  have "ddl_data q no_rows = no_rows"
  proof (cases q)
    case (AlterTable n as)
    have "fold (alter_data n) as no_rows = no_rows" by (induction as) simp_all
    then show ?thesis using AlterTable by simp
  qed simp_all
  moreover have "Some (s', d') = (if ddl_pass q no_rows then Some (s', ddl_data q no_rows) else None)"
    using run_ddl_split[of q s no_rows] unfolding assms by (simp only: option.case prod.case)
  ultimately show ?thesis by (simp split: if_splits)
qed

theorem run_file_split:
  "run_file qs (s, d) =
   (case run_file qs (s, no_rows) of None \<Rightarrow> None | Some (s', d') \<Rightarrow> if file_pass qs d then Some (s', fold ddl_data qs d) else None)"
proof (induction qs arbitrary: s d)
  case (Cons q qs)
  show ?case
  proof (cases "run_ddl q (s, no_rows)")
    case (Some st)
    then obtain s1 where s1: "st = (s1, no_rows)" using run_ddl_no_rows[of q s "fst st" "snd st"] by (cases st) simp
    then show ?thesis using Some run_ddl_split[of q s d] Cons.IH[of s1 "ddl_data q d"] by (simp split: option.splits)
  qed (simp add: run_ddl_split[of q s d])
qed simp

lemma run_file_no_rows: "run_file qs (s, no_rows) = Some (s', d') \<Longrightarrow> d' = no_rows"
proof (induction qs arbitrary: s)
  case (Cons q qs)
  show ?case
  proof (cases "run_ddl q (s, no_rows)")
    case (Some st)
    then have "st = (fst st, no_rows)" using run_ddl_no_rows[of q s "fst st" "snd st"] by (cases st) simp
    then show ?thesis using Cons.IH[of "fst st"] Cons.prems Some by (metis bind.bind_lunit run_file.simps(2))
  qed (use Cons.prems in simp)
qed simp

subsection \<open>Files that only add\<close>

fun additive :: "ddl \<Rightarrow> bool" where
  "additive (DropTable n) = False"
| "additive (AlterTable n as) = list_all (\<lambda>a. case a of DropColumn c \<Rightarrow> False | _ \<Rightarrow> True) as"
| "additive q = True"

text \<open>The contents of a column, in the order of the rows; and that a state still has all of another one.\<close>

definition contents :: "data \<Rightarrow> string \<Rightarrow> string \<Rightarrow> sqlv list" where
  "contents d n c = map (\<lambda>r. r c) (d n)"

definition has_column :: "schema \<Rightarrow> string \<Rightarrow> string \<Rightarrow> bool" where
  "has_column s n c = (case table_of n s of None \<Rightarrow> False | Some t \<Rightarrow> c \<in> set (col_names t))"

definition retains :: "schema \<times> data \<Rightarrow> schema \<times> data \<Rightarrow> bool" where
  "retains st st' \<longleftrightarrow>
     (\<forall>n c. has_column (fst st) n c \<longrightarrow> has_column (fst st') n c \<and> contents (snd st') n c = contents (snd st) n c)"

lemma retains_refl: "retains st st"
  by (simp add: retains_def)

lemma retains_trans: "retains st st' \<Longrightarrow> retains st' st'' \<Longrightarrow> retains st st''"
  by (simp add: retains_def)

lemma has_column_set:
  "table_of n s = Some t \<Longrightarrow> has_column (set_table n t' s) m c = (if m = n then c \<in> set (col_names t') else has_column s m c)"
  by (simp add: has_column_def)

lemma run_alter_retains:
  assumes "run_alter n a (s, d) = Some st" "case a of DropColumn c \<Rightarrow> False | _ \<Rightarrow> True"
  shows "retains (s, d) st"
proof -
  obtain s' where s': "alter_schema n a s = Some s'" "st = (s', alter_data n a d)" using assms(1) by (auto split: option.splits if_splits)
  obtain t where t: "table_of n s = Some t" using s'(1) by (cases a) (auto simp: bind_eq_Some_conv)
  show ?thesis
  proof (cases a)
    case (AddColumn cd)
    obtain t' where t': "add_column s n cd t = Some t'" "s' = set_table n t' s" using s'(1) t AddColumn by (auto simp: bind_eq_Some_conv)
    have "contents (alter_data n a d) m c = contents d m c" if "has_column s m c" for m c
      using that add_column_Some(1)[OF t'(1)] t by (auto simp: AddColumn contents_def has_column_def)
    then show ?thesis using s'(2) t'(2) add_column_Some(6)[OF t'(1)] t by (auto simp: retains_def has_column_set[OF t] has_column_def)
  qed (use assms(2) s' t in \<open>auto simp: retains_def has_column_def bind_eq_Some_conv add_check_Some split: if_splits option.splits\<close>)
qed

lemma run_alters_retains:
  "run_alters n as st = Some st' \<Longrightarrow> list_all (\<lambda>a. case a of DropColumn c \<Rightarrow> False | _ \<Rightarrow> True) as \<Longrightarrow> retains st st'"
proof (induction as arbitrary: st)
  case (Cons a as)
  obtain st1 where st1: "run_alter n a st = Some st1" "run_alters n as st1 = Some st'" using Cons.prems(1) by (auto simp: bind_eq_Some_conv)
  moreover have "retains st st1" using run_alter_retains[of n a "fst st" "snd st" st1] st1(1) Cons.prems(2) by simp
  ultimately show ?case using Cons.IH Cons.prems(2) retains_trans by fastforce
qed (simp add: retains_refl)

lemma retains_same:
  "(\<And>n. table_of n s' = table_of n s) \<Longrightarrow> retains (s, d) (s', d)"
  by (simp add: retains_def has_column_def)

lemma table_of_frame [simp]:
  "table_of n (s\<lparr>sc_extensions := x\<rparr>) = table_of n s" "table_of n (s\<lparr>sc_functions := fs\<rparr>) = table_of n s"
  "table_of n (s\<lparr>sc_triggers := ts\<rparr>) = table_of n s"
  by (simp_all add: table_of_def)

lemma run_ddl_retains:
  assumes "run_ddl q (s, d) = Some st" "additive q"
  shows "retains (s, d) st"
proof (cases q)
  case (CreateTable n cds tcs)
  obtain t where t: "n \<notin> set (relation_names s)" "st = (s\<lparr>sc_tables := sc_tables s @ [(n, t)]\<rparr>, d(n := []))"
    using assms(1) CreateTable by (auto split: if_splits)
  have "table_of n s = None" using t(1) by (force simp: table_of_def relation_names_def map_of_eq_None_iff)
  moreover have "table_of m (s\<lparr>sc_tables := sc_tables s @ [(n, t)]\<rparr>) = table_of m s" if "table_of m s \<noteq> None" for m
    using that by (auto simp: table_of_def map_add_def)
  ultimately show ?thesis using t(2) by (auto simp: retains_def has_column_def contents_def split: option.splits)
next
  case (AlterTable n as)
  then show ?thesis using assms run_alters_retains[of n as "(s, d)" st] by simp
next
  case (CreateFunction f tys b)
  then show ?thesis using assms by (auto intro!: retains_same simp del: map_of_eq_None_iff)
qed (use assms in \<open>auto intro!: retains_same split: if_splits option.splits\<close>)

theorem run_file_retains: "run_file qs st = Some st' \<Longrightarrow> list_all additive qs \<Longrightarrow> retains st st'"
proof (induction qs arbitrary: st)
  case (Cons q qs)
  obtain st1 where st1: "run_ddl q st = Some st1" "run_file qs st1 = Some st'" using Cons.prems(1) by (auto simp: bind_eq_Some_conv)
  moreover have "retains st st1" using run_ddl_retains[of q "fst st" "snd st" st1] st1(1) Cons.prems(2) by simp
  ultimately show ?case using Cons.IH Cons.prems(2) retains_trans by fastforce
qed (simp add: retains_refl)

end
