(* ===== verification/Migrations.thy ===== *)
theory Migrations
  imports Ddl System
begin

text \<open>
  The migration files of \<open>internal/store/migrations\<close>, statement by statement in the language of \<open>Ddl\<close>, and
  what they do to a database: every upgrade succeeds on every database that satisfies the schema
  before it, every downgrade leads back, the schema after the last one is the one that the
  predicates of \<open>Store\<close>, \<open>Template\<close>, \<open>Auth\<close> and \<open>AuditLog\<close> describe, and the audit trigger computes the same hash
  in all versions in which it works.
\<close>

subsection \<open>0001: the initial tables\<close>

abbreviation uuid_pk :: coldef where
  "uuid_pk \<equiv> keyed PrimaryKey (coldef ''id'' TyUuid False (DFun ''gen_random_uuid''))"

abbreviation serial_pk :: coldef where
  "serial_pk \<equiv> keyed PrimaryKey (coldef ''id'' TyBigint True (DFun ''nextval''))"

abbreviation now_col :: "string \<Rightarrow> coldef" where
  "now_col c \<equiv> coldef c TyTimestamptz True (DFun ''now'')"

abbreviation null_col :: "string \<Rightarrow> sqlty \<Rightarrow> coldef" where
  "null_col c ty \<equiv> coldef c ty False NoDefault"

abbreviation length_between :: "string \<Rightarrow> int \<Rightarrow> int \<Rightarrow> sqle" where
  "length_between c lo hi \<equiv> BetweenE (LengthOf (Col c)) lo hi"

abbreviation ge_const :: "string \<Rightarrow> int \<Rightarrow> sqle" where
  "ge_const c i \<equiv> LeE (Lit (VInt i)) (Col c)"

abbreviation one_of :: "string \<Rightarrow> string list \<Rightarrow> sqle" where
  "one_of c ss \<equiv> InE (Col c) (map VText ss)"

definition create_batches :: ddl where
  "create_batches = CreateTable ''batches''
     [uuid_pk,
      checked (ge_const ''total_count'' 0) (coldef ''total_count'' TyInt True NoDefault),
      checked (ge_const ''accepted_count'' 0) (coldef ''accepted_count'' TyInt True (DConst (VInt 0))),
      checked (ge_const ''rejected_count'' 0) (coldef ''rejected_count'' TyInt True (DConst (VInt 0))),
      null_col ''idempotency_key'' TyText,
      checked (one_of ''status'' [''accepted'', ''partial'', ''rejected'', ''completed''])
        (coldef ''status'' TyText True (DConst (VText ''accepted''))),
      now_col ''created_at'']
     [TCheck ''batches_counts_consistent''
        (LeE (PlusE (Col ''accepted_count'') (Col ''rejected_count'')) (Col ''total_count''))]"

definition scheduled_status_consistent :: sqle where
  "scheduled_status_consistent =
     OrE (IsNull (Col ''scheduled_at'')) (one_of ''status'' [''pending'', ''queued'', ''cancelled'', ''scheduled''])"

definition notification_statuses :: sqle where
  "notification_statuses =
     one_of ''status'' [''pending'', ''queued'', ''sending'', ''sent'', ''failed'', ''cancelled'', ''dead_letter'', ''scheduled'']"

definition create_notifications :: ddl where
  "create_notifications = CreateTable ''notifications''
     [uuid_pk,
      referring ''batches'' ''id'' SetNull (null_col ''batch_id'' TyUuid),
      checked (one_of ''channel'' [''sms'', ''email'', ''push'']) (coldef ''channel'' TyText True NoDefault),
      checked (length_between ''recipient'' 1 320) (coldef ''recipient'' TyText True NoDefault),
      checked (length_between ''content'' 1 10000) (coldef ''content'' TyText True NoDefault),
      checked (InE (Col ''priority'') [VInt 1, VInt 5, VInt 9]) (coldef ''priority'' TySmallint True (DConst (VInt 5))),
      checked notification_statuses
        (coldef ''status'' TyText True (DConst (VText ''pending''))),
      null_col ''idempotency_key'' TyText,
      checked (ge_const ''attempt_count'' 0) (coldef ''attempt_count'' TyInt True (DConst (VInt 0))),
      null_col ''last_error'' TyText,
      null_col ''scheduled_at'' TyTimestamptz,
      now_col ''created_at'',
      now_col ''updated_at'',
      null_col ''sent_at'' TyTimestamptz,
      coldef ''correlation_id'' TyText True NoDefault]
     [TCheck ''notifications_sent_at_only_when_sent''
        (EqE (EqE (Col ''status'') (Lit (VText ''sent''))) (IsNotNull (Col ''sent_at''))),
      TCheck ''notifications_scheduled_status_consistent'' scheduled_status_consistent]"

definition plain_index :: "string \<Rightarrow> string \<Rightarrow> (string \<times> bool) list \<Rightarrow> sqle option \<Rightarrow> ddl" where
  "plain_index n t cs w = CreateIndex \<lparr>ix_name = n, ix_table = t, ix_unique = False, ix_cols = cs, ix_where = w\<rparr>"

text \<open>The flag of an index column says that it is descending.\<close>

definition notifications_indexes :: "ddl list" where
  "notifications_indexes =
     [CreateIndex \<lparr>ix_name = ''notifications_idempotency_key_uniq'', ix_table = ''notifications'', ix_unique = True,
                   ix_cols = [(''idempotency_key'', False)], ix_where = Some (IsNotNull (Col ''idempotency_key''))\<rparr>,
      plain_index ''notifications_status_created_at_idx'' ''notifications'' [(''status'', False), (''created_at'', True)] None,
      plain_index ''notifications_batch_id_created_at_idx'' ''notifications'' [(''batch_id'', False), (''created_at'', True)]
        (Some (IsNotNull (Col ''batch_id''))),
      plain_index ''notifications_created_at_id_idx'' ''notifications'' [(''created_at'', True), (''id'', True)] None,
      plain_index ''notifications_channel_status_created_at_idx'' ''notifications''
        [(''channel'', False), (''status'', False), (''created_at'', True)] None,
      plain_index ''notifications_correlation_id_idx'' ''notifications'' [(''correlation_id'', False)] None]"

definition create_delivery_attempts :: ddl where
  "create_delivery_attempts = CreateTable ''delivery_attempts''
     [serial_pk,
      referring ''notifications'' ''id'' Cascade (coldef ''notification_id'' TyUuid True NoDefault),
      checked (ge_const ''attempt_number'' 1) (coldef ''attempt_number'' TyInt True NoDefault),
      now_col ''started_at'',
      null_col ''completed_at'' TyTimestamptz,
      coldef ''success'' TyBool True (DConst (VBool False)),
      null_col ''provider_message_id'' TyText,
      checked (OrE (IsNull (Col ''http_status'')) (BetweenE (Col ''http_status'') 100 599)) (null_col ''http_status'' TyInt),
      null_col ''error'' TyText,
      null_col ''response_body'' TyText]
     [TUnique ''delivery_attempts_unique_per_notification'' [''notification_id'', ''attempt_number''],
      TCheck ''delivery_attempts_completion_consistent''
        (EqE (IsNull (Col ''completed_at''))
             (AndE (AndE (EqE (Col ''success'') (Lit (VBool False))) (IsNull (Col ''error''))) (IsNull (Col ''http_status''))))]"

definition create_dead_letters :: "ddl list" where
  "create_dead_letters =
     [CreateTable ''dead_letters''
        [serial_pk,
         referring ''notifications'' ''id'' Cascade (coldef ''notification_id'' TyUuid True NoDefault),
         checked (length_between ''reason'' 1 500) (coldef ''reason'' TyText True NoDefault),
         coldef ''payload'' TyJsonb True NoDefault,
         now_col ''dlq_at'']
        [TUnique ''dead_letters_one_per_notification'' [''notification_id'']],
      plain_index ''dead_letters_dlq_at_idx'' ''dead_letters'' [(''dlq_at'', True)] None]"

definition create_api_keys :: "ddl list" where
  "create_api_keys =
     [CreateTable ''api_keys''
        [uuid_pk,
         checked (length_between ''name'' 1 100) (coldef ''name'' TyText True NoDefault),
         keyed UniqueKey (coldef ''hashed_key'' TyText True NoDefault),
         coldef ''scopes'' TyTexts True (DConst (VTexts [])),
         now_col ''created_at'',
         null_col ''revoked_at'' TyTimestamptz]
        [TCheck ''api_keys_revoked_after_created''
           (OrE (IsNull (Col ''revoked_at'')) (LeE (Col ''created_at'') (Col ''revoked_at'')))],
      plain_index ''api_keys_active_idx'' ''api_keys'' [(''hashed_key'', False)] (Some (IsNull (Col ''revoked_at'')))]"

definition create_scheduled_notifications :: "ddl list" where
  "create_scheduled_notifications =
     [CreateTable ''scheduled_notifications''
        [referring ''notifications'' ''id'' Cascade (keyed PrimaryKey (null_col ''id'' TyUuid)),
         coldef ''due_at'' TyTimestamptz True NoDefault,
         null_col ''claimed_at'' TyTimestamptz,
         null_col ''claimed_by'' TyText]
        [TCheck ''scheduled_claim_consistent'' (EqE (IsNull (Col ''claimed_at'')) (IsNull (Col ''claimed_by'')))],
      plain_index ''scheduled_notifications_due_unclaimed_idx'' ''scheduled_notifications'' [(''due_at'', False)]
        (Some (IsNull (Col ''claimed_at'')))]"

definition up_0001 :: "ddl list" where
  "up_0001 = [CreateExtension ''pgcrypto'', create_batches, create_notifications] @ notifications_indexes @
     [create_delivery_attempts] @ create_dead_letters @ create_api_keys @ create_scheduled_notifications"

definition down_0001 :: "ddl list" where
  "down_0001 = [DropTable ''scheduled_notifications'', DropTable ''api_keys'', DropTable ''dead_letters'',
                DropTable ''delivery_attempts'', DropTable ''notifications'', DropTable ''batches'']"

subsection \<open>0002 to 0008\<close>

definition up_0002 :: "ddl list" where
  "up_0002 =
     [CreateTable ''outbox''
        [uuid_pk,
         referring ''notifications'' ''id'' Cascade (coldef ''notification_id'' TyUuid True NoDefault),
         coldef ''routing_key'' TyText True NoDefault,
         coldef ''payload'' TyJsonb True NoDefault,
         coldef ''headers'' TyJsonb True (DConst (VJson (JObj []))),
         checked (InE (Col ''priority'') [VInt 1, VInt 5, VInt 9]) (coldef ''priority'' TySmallint True NoDefault),
         now_col ''created_at'',
         null_col ''claimed_at'' TyTimestamptz,
         null_col ''claimed_by'' TyText,
         null_col ''published_at'' TyTimestamptz,
         checked (ge_const ''attempt_count'' 0) (coldef ''attempt_count'' TyInt True (DConst (VInt 0))),
         null_col ''last_error'' TyText]
        [TCheck ''outbox_claim_consistent'' (EqE (IsNull (Col ''claimed_at'')) (IsNull (Col ''claimed_by'')))],
      plain_index ''outbox_unpublished_idx'' ''outbox'' [(''created_at'', False)] (Some (IsNull (Col ''published_at''))),
      plain_index ''outbox_stuck_claim_idx'' ''outbox'' [(''claimed_at'', False)]
        (Some (AndE (IsNull (Col ''published_at'')) (IsNotNull (Col ''claimed_at''))))]"

definition down_0002 :: "ddl list" where
  "down_0002 = [DropTable ''outbox'']"

definition template_pair_consistent :: sqle where
  "template_pair_consistent = EqE (IsNull (Col ''template_id'')) (IsNull (Col ''template_version''))"

definition up_0003 :: "ddl list" where
  "up_0003 =
     [CreateTable ''templates''
        [uuid_pk,
         checked (length_between ''name'' 1 100) (coldef ''name'' TyText True NoDefault),
         checked (one_of ''channel'' [''sms'', ''email'', ''push'']) (coldef ''channel'' TyText True NoDefault),
         checked (ge_const ''version'' 1) (coldef ''version'' TyInt True (DConst (VInt 1))),
         checked (length_between ''body'' 1 32768) (coldef ''body'' TyText True NoDefault),
         coldef ''required_vars'' TyTexts True (DConst (VTexts [])),
         now_col ''created_at'',
         now_col ''updated_at'',
         null_col ''deprecated_at'' TyTimestamptz]
        [TUnique ''templates_name_channel_version_key'' [''name'', ''channel'', ''version'']],
      plain_index ''templates_name_channel_active_idx'' ''templates'' [(''name'', False), (''channel'', False)]
        (Some (IsNull (Col ''deprecated_at''))),
      AlterTable ''notifications''
        [AddColumn (referring ''templates'' ''id'' SetNull (null_col ''template_id'' TyUuid)),
         AddColumn (checked (OrE (IsNull (Col ''template_version'')) (ge_const ''template_version'' 1)) (null_col ''template_version'' TyInt))],
      AlterTable ''notifications'' [AddCheck ''notifications_template_pair_consistent'' template_pair_consistent]]"

definition down_0003 :: "ddl list" where
  "down_0003 =
     [AlterTable ''notifications''
        [DropConstraint ''notifications_template_pair_consistent'', DropColumn ''template_version'', DropColumn ''template_id''],
      DropTable ''templates'']"

definition audit_actions_0004 :: sqle where
  "audit_actions_0004 = one_of ''action'' [''dlq_replay'', ''dlq_replay_bulk'', ''dlq_replay_dryrun'', ''dlq_purge'']"

definition up_0004 :: "ddl list" where
  "up_0004 =
     [CreateTable ''admin_audit''
        [serial_pk,
         checked (length_between ''actor'' 1 100) (coldef ''actor'' TyText True NoDefault),
         checked audit_actions_0004 (coldef ''action'' TyText True NoDefault),
         null_col ''target_id'' TyText,
         coldef ''details'' TyJsonb True (DConst (VJson (JObj []))),
         now_col ''at'']
        [],
      plain_index ''admin_audit_at_idx'' ''admin_audit'' [(''at'', True)] None,
      plain_index ''admin_audit_actor_at_idx'' ''admin_audit'' [(''actor'', False), (''at'', True)] None,
      plain_index ''admin_audit_action_idx'' ''admin_audit'' [(''action'', False), (''at'', True)] None]"

definition down_0004 :: "ddl list" where
  "down_0004 = [DropTable ''admin_audit'']"

definition up_0005 :: "ddl list" where
  "up_0005 =
     [AlterTable ''api_keys''
        [AddColumn (checked (length_between ''key_prefix'' 0 16) (coldef ''key_prefix'' TyText True (DConst (VText ''''))))],
      plain_index ''api_keys_prefix_active_idx'' ''api_keys'' [(''key_prefix'', False)] (Some (IsNull (Col ''revoked_at'')))]"

definition down_0005 :: "ddl list" where
  "down_0005 = [DropIndex ''api_keys_prefix_active_idx'', AlterTable ''api_keys'' [DropColumn ''key_prefix'']]"

abbreviation owner_col :: coldef where
  "owner_col \<equiv> referring ''api_keys'' ''id'' SetNull (null_col ''created_by'' TyUuid)"

definition up_0006 :: "ddl list" where
  "up_0006 =
     [AlterTable ''notifications'' [AddColumn owner_col],
      AlterTable ''batches'' [AddColumn owner_col],
      plain_index ''notifications_created_by_created_at_idx'' ''notifications''
        [(''created_by'', False), (''created_at'', True), (''id'', True)] (Some (IsNotNull (Col ''created_by'')))]"

definition down_0006 :: "ddl list" where
  "down_0006 =
     [DropIndex ''notifications_created_by_created_at_idx'', AlterTable ''batches'' [DropColumn ''created_by''],
      AlterTable ''notifications'' [DropColumn ''created_by'']]"

definition audit_actions_0007 :: sqle where
  "audit_actions_0007 = one_of ''action'' [''dlq_replay'', ''dlq_replay_bulk'', ''dlq_replay_dryrun'', ''dlq_purge'', ''key_revoke'']"

definition up_0007 :: "ddl list" where
  "up_0007 =
     [AlterTable ''admin_audit'' [AddColumn (referring ''api_keys'' ''id'' SetNull (null_col ''actor_id'' TyUuid))],
      AlterTable ''admin_audit'' [DropConstraint ''admin_audit_action_check''],
      AlterTable ''admin_audit'' [AddCheck ''admin_audit_action_check'' audit_actions_0007],
      plain_index ''admin_audit_actor_id_at_idx'' ''admin_audit'' [(''actor_id'', False), (''at'', True)]
        (Some (IsNotNull (Col ''actor_id'')))]"

definition down_0007 :: "ddl list" where
  "down_0007 =
     [DropIndex ''admin_audit_actor_id_at_idx'', AlterTable ''admin_audit'' [DropColumn ''actor_id''],
      AlterTable ''admin_audit'' [DropConstraint ''admin_audit_action_check''],
      AlterTable ''admin_audit'' [AddCheck ''admin_audit_action_check'' audit_actions_0004]]"

definition up_0008 :: "ddl list" where
  "up_0008 =
     [AlterTable ''templates'' [AddColumn owner_col],
      plain_index ''templates_created_by_idx'' ''templates'' [(''created_by'', False)] (Some (IsNotNull (Col ''created_by'')))]"

definition down_0008 :: "ddl list" where
  "down_0008 = [DropIndex ''templates_created_by_idx'', AlterTable ''templates'' [DropColumn ''created_by'']]"

subsection \<open>0009 to 0014\<close>

definition up_0009 :: "ddl list" where
  "up_0009 =
     [CreateExtension ''pgcrypto'',
      AlterTable ''admin_audit'' [AddColumn (null_col ''prev_hash'' TyBytea), AddColumn (null_col ''row_hash'' TyBytea)],
      CreateFunction ''admin_audit_chain_hash'' [] (ChainHash False False),
      CreateTrigger ''admin_audit_chain_hash_trigger'' ''admin_audit'' ''admin_audit_chain_hash'']"

definition down_0009 :: "ddl list" where
  "down_0009 =
     [DropTrigger ''admin_audit_chain_hash_trigger'' ''admin_audit'', DropFunction ''admin_audit_chain_hash'' [],
      AlterTable ''admin_audit'' [DropColumn ''row_hash''], AlterTable ''admin_audit'' [DropColumn ''prev_hash'']]"

definition up_0010 :: "ddl list" where
  "up_0010 = [AlterTable ''notifications'' [DropConstraint ''notifications_scheduled_status_consistent'']]"

definition down_0010 :: "ddl list" where
  "down_0010 =
     [AlterTable ''notifications'' [AddCheck ''notifications_scheduled_status_consistent'' scheduled_status_consistent]]"

definition up_0011 :: "ddl list" where
  "up_0011 = [CreateFunction ''admin_audit_chain_hash'' [] (ChainHash True False)]"

definition down_0011 :: "ddl list" where
  "down_0011 = [CreateFunction ''admin_audit_chain_hash'' [] (ChainHash False False)]"

definition canonical_uuid :: "sqlty list" where
  "canonical_uuid = [TyUuid, TyText, TyUuid, TyText, TyText, TyJsonb, TyTimestamptz]"

definition canonical_bigint :: "sqlty list" where
  "canonical_bigint = [TyBigint, TyText, TyUuid, TyText, TyText, TyJsonb, TyTimestamptz]"

definition up_0012 :: "ddl list" where
  "up_0012 =
     [CreateFunction ''admin_audit_canonical'' canonical_uuid CanonicalText,
      CreateFunction ''admin_audit_chain_hash'' [] (ChainHash True True)]"

definition down_0012 :: "ddl list" where
  "down_0012 =
     [CreateFunction ''admin_audit_chain_hash'' [] (ChainHash True False), DropFunction ''admin_audit_canonical'' canonical_uuid]"

definition content_check :: "int \<Rightarrow> ddl list" where
  "content_check n =
     [AlterTable ''notifications'' [DropConstraint ''notifications_content_check''],
      AlterTable ''notifications'' [AddCheck ''notifications_content_check'' (length_between ''content'' 1 n)]]"

definition up_0013 :: "ddl list" where
  "up_0013 = content_check 262144"

definition down_0013 :: "ddl list" where
  "down_0013 = content_check 10000"

definition up_0014 :: "ddl list" where
  "up_0014 =
     [DropFunction ''admin_audit_canonical'' canonical_uuid,
      CreateFunction ''admin_audit_canonical'' canonical_bigint CanonicalText]"

definition down_0014 :: "ddl list" where
  "down_0014 =
     [DropFunction ''admin_audit_canonical'' canonical_bigint,
      CreateFunction ''admin_audit_canonical'' canonical_uuid CanonicalText]"

definition migrations :: "(ddl list \<times> ddl list) list" where
  "migrations =
     [(up_0001, down_0001), (up_0002, down_0002), (up_0003, down_0003), (up_0004, down_0004), (up_0005, down_0005),
      (up_0006, down_0006), (up_0007, down_0007), (up_0008, down_0008), (up_0009, down_0009), (up_0010, down_0010),
      (up_0011, down_0011), (up_0012, down_0012), (up_0013, down_0013), (up_0014, down_0014)]"

text \<open>The schemas of all versions, from a run on a database without rows.\<close>

fun schemas :: "schema \<Rightarrow> (ddl list \<times> ddl list) list \<Rightarrow> schema list" where
  "schemas s [] = [s]"
| "schemas s (m # ms) = s # (case run_file (fst m) (s, no_rows) of None \<Rightarrow> [] | Some (s', _) \<Rightarrow> schemas s' ms)"

definition schema_at :: "nat \<Rightarrow> schema" where
  "schema_at k = schemas empty_schema migrations ! k"

subsection \<open>A check of the files on schemas\<close>

text \<open>The columns of a schema, and the ones whose contents a statement writes.\<close>

definition columns_of :: "schema \<Rightarrow> (string \<times> string) list" where
  "columns_of s = concat (map (\<lambda>(n, t). map (Pair n) (col_names t)) (sc_tables s))"

definition alter_writes :: "alter \<Rightarrow> string \<Rightarrow> bool" where
  "alter_writes a c = (case a of AddColumn cd \<Rightarrow> co_name (cd_col cd) = c | DropColumn c' \<Rightarrow> c' = c | _ \<Rightarrow> False)"

definition ddl_writes :: "ddl \<Rightarrow> string \<Rightarrow> string \<Rightarrow> bool" where
  "ddl_writes q n c =
     (case q of CreateTable m _ _ \<Rightarrow> m = n | DropTable m \<Rightarrow> m = n
        | AlterTable m as \<Rightarrow> m = n \<and> list_ex (\<lambda>a. alter_writes a c) as | _ \<Rightarrow> False)"

text \<open>
  Every upgrade is accepted and only adds, and its downgrade leads back to the schema before, extensions
  apart, without writing to a column of that schema.
\<close>

fun reversible :: "schema \<Rightarrow> (ddl list \<times> ddl list) list \<Rightarrow> bool" where
  "reversible s [] \<longleftrightarrow> True"
| "reversible s (m # ms) \<longleftrightarrow>
     (case run_file (fst m) (s, no_rows) of
        None \<Rightarrow> False
      | Some (s', _) \<Rightarrow>
          list_all additive (fst m) \<and>
          map_option fst (run_file (snd m) (s', no_rows)) = Some (s\<lparr>sc_extensions := sc_extensions s'\<rparr>) \<and>
          list_all (\<lambda>q. list_all (\<lambda>(n, c). \<not> ddl_writes q n c) (columns_of s)) (snd m) \<and>
          reversible s' ms)"

lemma reversible_nth:
  assumes "reversible s ms" "k < length ms"
  shows "\<exists>s'. schemas s ms ! Suc k = s' \<and> run_file (fst (ms ! k)) (schemas s ms ! k, no_rows) = Some (s', no_rows) \<and>
    list_all additive (fst (ms ! k)) \<and>
    map_option fst (run_file (snd (ms ! k)) (s', no_rows)) = Some ((schemas s ms ! k)\<lparr>sc_extensions := sc_extensions s'\<rparr>) \<and>
    list_all (\<lambda>q. list_all (\<lambda>(n, c). \<not> ddl_writes q n c) (columns_of (schemas s ms ! k))) (snd (ms ! k))"
  using assms
proof (induction ms arbitrary: s k)
  case (Cons m ms)
  obtain s' d' where run: "run_file (fst m) (s, no_rows) = Some (s', d')" using Cons.prems(1) by (auto split: option.splits)
  have d': "d' = no_rows" using run_file_no_rows[OF run] .
  have first: "schemas s' ms ! 0 = s'" by (cases ms) simp_all
  show ?case
  proof (cases k)
    case 0
    then show ?thesis using Cons.prems(1) run d' first by simp
  next
    case (Suc j)
    have "reversible s' ms" "j < length ms" using Cons.prems run Suc by simp_all
    then show ?thesis using Cons.IH[of s' j] run Suc by simp
  qed
qed simp

lemma migrations_reversible: "reversible empty_schema migrations"
  by code_simp

definition has_check :: "schema \<Rightarrow> string \<Rightarrow> string \<Rightarrow> sqle \<Rightarrow> bool" where
  "has_check s n k e = (case table_of n s of None \<Rightarrow> False | Some t \<Rightarrow> map_of (tb_checks t) k = Some e)"

text \<open>The checks that later files replace.\<close>

definition replaced_checks :: "schema list \<Rightarrow> bool" where
  "replaced_checks ss \<longleftrightarrow>
     has_check (ss ! 6) ''admin_audit'' ''admin_audit_action_check'' audit_actions_0004 \<and>
     has_check (ss ! 9) ''notifications'' ''notifications_scheduled_status_consistent'' scheduled_status_consistent \<and>
     has_check (ss ! 12) ''notifications'' ''notifications_content_check'' (length_between ''content'' 1 10000) \<and>
     has_check (ss ! 7) ''admin_audit'' ''admin_audit_action_check'' audit_actions_0007 \<and>
     has_check (ss ! 10) ''notifications'' ''notifications_status_check'' notification_statuses \<and>
     has_check (ss ! 13) ''notifications'' ''notifications_content_check'' (length_between ''content'' 1 262144)"

lemma schemas_checks: "replaced_checks (schemas empty_schema migrations)"
  by code_simp

lemmas version_checks = schemas_checks[unfolded replaced_checks_def schema_at_def[symmetric]]

lemma legal_check:
  assumes "legal s d" "has_check s n k e" "r \<in> set (d n)"
  shows "passes r e"
proof -
  obtain t where t: "table_of n s = Some t" "(k, e) \<in> set (tb_checks t)"
    using assms(2) by (auto simp: has_check_def dest: map_of_SomeD split: option.splits)
  then show ?thesis using table_of_legal[OF assms(1) t(1)] assms(3) by (auto simp: table_ok_def row_ok_def list_all_iff)
qed

subsection \<open>Every upgrade succeeds\<close>

lemmas file_defs = up_0001_def up_0002_def up_0003_def up_0004_def up_0005_def up_0006_def up_0007_def up_0008_def
  up_0009_def up_0010_def up_0011_def up_0012_def up_0013_def up_0014_def content_check_def notifications_indexes_def
  create_batches_def create_notifications_def create_delivery_attempts_def create_dead_letters_def create_api_keys_def
  create_scheduled_notifications_def plain_index_def

lemmas down_defs = down_0001_def down_0002_def down_0003_def down_0004_def down_0005_def down_0006_def down_0007_def down_0008_def
  down_0009_def down_0010_def down_0011_def down_0012_def down_0013_def down_0014_def content_check_def plain_index_def

lemmas column_defs = column_addable_def column_ok_def coldef_def keyed_def checked_def referring_def default_value_def passes_def

lemmas sql_defs = sql_eq_def sql_and_def sql_or_def sql_le_def sql_plus_def sql_length_def BetweenE_def

lemma plain_index_ok [simp]: "\<not> ix_unique ix \<Longrightarrow> index_ok d ix"
  by (simp add: index_ok_def)

lemma no_rows_index_ok [simp]: "d (ix_table ix) = [] \<Longrightarrow> index_ok d ix"
  by (simp add: index_ok_def unique_ok_def)

lemma action_wider: "passes r audit_actions_0004 \<Longrightarrow> passes r audit_actions_0007"
  by (auto simp: passes_def audit_actions_0004_def audit_actions_0007_def sql_defs split: if_splits)

lemma content_wider: "passes r (length_between ''content'' 1 10000) \<Longrightarrow> passes r (length_between ''content'' 1 262144)"
  by (auto simp: passes_def sql_defs split: sqlv.splits if_splits)

lemma version_cases:
  assumes "k < 14"
  obtains "k = 0" | "k = 1" | "k = 2" | "k = 3" | "k = 4" | "k = 5" | "k = 6" | "k = 7" | "k = 8" | "k = 9" | "k = 10" | "k = 11" | "k = 12" | "k = (13::nat)"
  using assms by (auto simp: less_Suc_eq numeral_eq_Suc)

lemma nth_migrations [simp]:
  "migrations ! 0 = (up_0001, down_0001)" "migrations ! Suc 0 = (up_0002, down_0002)" "migrations ! 2 = (up_0003, down_0003)"
  "migrations ! 3 = (up_0004, down_0004)" "migrations ! 4 = (up_0005, down_0005)" "migrations ! 5 = (up_0006, down_0006)"
  "migrations ! 6 = (up_0007, down_0007)" "migrations ! 7 = (up_0008, down_0008)" "migrations ! 8 = (up_0009, down_0009)"
  "migrations ! 9 = (up_0010, down_0010)" "migrations ! 10 = (up_0011, down_0011)" "migrations ! 11 = (up_0012, down_0012)"
  "migrations ! 12 = (up_0013, down_0013)" "migrations ! 13 = (up_0014, down_0014)" "length migrations = 14"
  by (simp_all add: migrations_def)

lemma up_passes:
  assumes "k < 14" "legal (schema_at k) d"
  shows "file_pass (fst (migrations ! k)) d"
  using assms(1)
proof (cases rule: version_cases)
  case 3
  then show ?thesis
    by (simp add: file_defs list_all_iff column_defs Let_def sql_defs template_pair_consistent_def)
next
  case 7
  then have "passes r audit_actions_0004" if "r \<in> set (d ''admin_audit'')" for r
    using legal_check[OF assms(2)] version_checks that by blast
  then have "passes (r(''actor_id'' := VNull)) audit_actions_0007" if "r \<in> set (d ''admin_audit'')" for r
    using action_wider value_of_cong[of audit_actions_0007 "r(''actor_id'' := VNull)" r] that
    by (simp add: passes_def audit_actions_0007_def)
  then show ?thesis using 7 by (simp add: file_defs list_all_iff column_defs Let_def)
next
  case 13
  then have "passes r (length_between ''content'' 1 262144)" if "r \<in> set (d ''notifications'')" for r
    using legal_check[OF assms(2)] version_checks content_wider that by blast
  then show ?thesis using 13 by (simp add: file_defs list_all_iff)
qed (simp_all add: file_defs list_all_iff column_defs Let_def sql_defs pg_length_def)

lemma version_step:
  assumes "k < 14"
  shows "run_file (fst (migrations ! k)) (schema_at k, no_rows) = Some (schema_at (Suc k), no_rows)"
    and "list_all additive (fst (migrations ! k))"
    and "map_option fst (run_file (snd (migrations ! k)) (schema_at (Suc k), no_rows)) =
      Some ((schema_at k)\<lparr>sc_extensions := sc_extensions (schema_at (Suc k))\<rparr>)"
    and "list_all (\<lambda>q. list_all (\<lambda>(n, c). \<not> ddl_writes q n c) (columns_of (schema_at k))) (snd (migrations ! k))"
  using reversible_nth[OF migrations_reversible, of k] assms by (simp_all add: schema_at_def)

lemma schema_at_0: "schema_at 0 = empty_schema"
  by (simp add: schema_at_def migrations_def)

lemma schema_at_wf: "k \<le> 14 \<Longrightarrow> sound (schema_at k, no_rows)"
proof (induction k)
  case 0
  then show ?case by (simp only: schema_at_0 empty_sound)
next
  case (Suc k)
  then show ?case using run_file_sound[OF version_step(1)[of k]] by simp
qed

lemma legal_sound: "k \<le> 14 \<Longrightarrow> legal (schema_at k) d \<Longrightarrow> sound (schema_at k, d)"
  using schema_at_wf[of k] by (simp add: sound_def)

lemma upgrade_step:
  assumes "k < 14" "legal (schema_at k) d"
  shows "\<exists>d'. run_file (fst (migrations ! k)) (schema_at k, d) = Some (schema_at (Suc k), d') \<and>
    d' = fold ddl_data (fst (migrations ! k)) d \<and> legal (schema_at (Suc k)) d' \<and> retains (schema_at k, d) (schema_at (Suc k), d')"
proof -
  let ?qs = "fst (migrations ! k)"
  have run: "run_file ?qs (schema_at k, d) = Some (schema_at (Suc k), fold ddl_data ?qs d)"
    using run_file_split[of ?qs "schema_at k" d] version_step(1)[OF assms(1)] up_passes[OF assms] by simp
  have "sound (schema_at (Suc k), fold ddl_data ?qs d)" using run_file_sound[OF run] legal_sound[of k d] assms by simp
  then show ?thesis using run run_file_retains[OF run version_step(2)[OF assms(1)]] by (simp add: sound_def)
qed

text \<open>\<open>Up\<close> of the migration library: the files after the version that the database has, in order.\<close>

fun run_ups :: "(ddl list \<times> ddl list) list \<Rightarrow> schema \<times> data \<Rightarrow> (schema \<times> data) option" where
  "run_ups [] st = Some st"
| "run_ups (m # ms) st = Option.bind (run_file (fst m) st) (run_ups ms)"

lemma run_ups_from:
  assumes "k \<le> 14" "legal (schema_at k) d"
  shows "\<exists>d'. run_ups (drop k migrations) (schema_at k, d) = Some (schema_at 14, d') \<and> legal (schema_at 14) d' \<and>
    retains (schema_at k, d) (schema_at 14, d')"
  using assms
proof (induction "14 - k" arbitrary: k d)
  case 0
  then have "k = 14" by simp
  then show ?case using 0(3) by (simp add: retains_refl)
next
  case (Suc j)
  then have k: "k < 14" by simp
  obtain d1 where d1: "run_file (fst (migrations ! k)) (schema_at k, d) = Some (schema_at (Suc k), d1)"
      "legal (schema_at (Suc k)) d1" "retains (schema_at k, d) (schema_at (Suc k), d1)"
    using upgrade_step[OF k Suc(4)] by blast
  have "drop k migrations = migrations ! k # drop (Suc k) migrations" using k by (simp add: Cons_nth_drop_Suc)
  moreover have "j = 14 - Suc k" "Suc k \<le> 14" using Suc(2) k by simp_all
  then obtain d' where "run_ups (drop (Suc k) migrations) (schema_at (Suc k), d1) = Some (schema_at 14, d')" "legal (schema_at 14) d'"
      "retains (schema_at (Suc k), d1) (schema_at 14, d')"
    using Suc(1)[of "Suc k" d1] d1(2) by blast
  ultimately show ?case using d1 retains_trans by (auto simp del: drop_Suc)
qed

subsection \<open>Downgrades\<close>

lemma alter_data_keeps: "\<not> alter_writes a c \<Longrightarrow> contents (alter_data n a d) n c = contents d n c"
  by (cases a) (auto simp: alter_writes_def contents_def)

lemma alter_data_other: "m \<noteq> n \<Longrightarrow> alter_data n a d m = d m"
  by (cases a) simp_all

lemma alters_keep:
  "m = n \<longrightarrow> \<not> list_ex (\<lambda>a. alter_writes a c) as \<Longrightarrow> contents (fold (alter_data n) as d) m c = contents d m c"
proof (induction as arbitrary: d)
  case (Cons a as)
  have "contents (alter_data n a d) m c = contents d m c"
    using Cons.prems alter_data_keeps[of a c n d] alter_data_other[of m n a d] by (cases "m = n") (auto simp: contents_def)
  then show ?case using Cons by auto
qed simp

lemma ddl_data_keeps: "\<not> ddl_writes q n c \<Longrightarrow> contents (ddl_data q d) n c = contents d n c"
proof (cases q)
  case (AlterTable m as)
  then show "\<not> ddl_writes q n c \<Longrightarrow> ?thesis" using alters_keep[of n m c as d] by (auto simp: ddl_writes_def)
qed (auto simp: ddl_writes_def contents_def)

lemma file_data_keeps: "list_all (\<lambda>q. \<not> ddl_writes q n c) qs \<Longrightarrow> contents (fold ddl_data qs d) n c = contents d n c"
  by (induction qs arbitrary: d) (auto simp: ddl_data_keeps)

lemma has_column_listed: "has_column s n c \<Longrightarrow> (n, c) \<in> set (columns_of s)"
  by (force simp: has_column_def columns_of_def split: option.splits dest: table_ofD)

text \<open>
  The three downgrades that restore a stricter check are refused when rows have come in that it forbids: an audit row
  of a key revocation, a scheduled notification that left the queue, and content of more than 10000 characters.
\<close>

definition rollback_ok :: "nat \<Rightarrow> data \<Rightarrow> bool" where
  "rollback_ok k d \<longleftrightarrow>
     (if k = 6 then list_all (\<lambda>r. r ''action'' \<noteq> VText ''key_revoke'') (d ''admin_audit'')
      else if k = 9
        then list_all (\<lambda>r. r ''scheduled_at'' = VNull \<or>
               r ''status'' \<notin> VText ` {''sending'', ''sent'', ''failed'', ''dead_letter''}) (d ''notifications'')
      else if k = 12
        then list_all (\<lambda>r. case r ''content'' of VText s \<Rightarrow> pg_length s \<le> 10000 | _ \<Rightarrow> True) (d ''notifications'')
      else True)"

lemma action_narrower:
  "passes r audit_actions_0007 \<Longrightarrow> passes (r(''actor_id'' := VNull)) audit_actions_0004 \<longleftrightarrow> r ''action'' \<noteq> VText ''key_revoke''"
  by (auto simp: passes_def audit_actions_0004_def audit_actions_0007_def sql_defs split: if_splits)

lemma scheduled_narrower:
  "passes r notification_statuses \<Longrightarrow> passes r scheduled_status_consistent \<longleftrightarrow>
     r ''scheduled_at'' = VNull \<or> r ''status'' \<notin> VText ` {''sending'', ''sent'', ''failed'', ''dead_letter''}"
  by (auto simp: passes_def notification_statuses_def scheduled_status_consistent_def sql_defs split: if_splits)

lemma content_narrower:
  "passes r (length_between ''content'' 1 262144) \<Longrightarrow> passes r (length_between ''content'' 1 10000) \<longleftrightarrow>
     (case r ''content'' of VText s \<Rightarrow> pg_length s \<le> 10000 | _ \<Rightarrow> True)"
  by (auto simp: passes_def sql_defs split: sqlv.splits if_splits)

lemma down_passes:
  assumes "k < 14" "legal (schema_at (Suc k)) d"
  shows "file_pass (snd (migrations ! k)) d \<longleftrightarrow> rollback_ok k d"
  using assms(1)
proof (cases rule: version_cases)
  case 7
  have "legal (schema_at 7) d" using assms(2) 7 by (simp add: numeral_eq_Suc)
  then have "passes r audit_actions_0007" if "r \<in> set (d ''admin_audit'')" for r using legal_check version_checks that by blast
  then show ?thesis using 7 by (auto simp: down_defs rollback_ok_def list_all_iff action_narrower)
next
  case 10
  have "legal (schema_at 10) d" using assms(2) 10 by (simp add: numeral_eq_Suc)
  then have "passes r notification_statuses" if "r \<in> set (d ''notifications'')" for r using legal_check version_checks that by blast
  then show ?thesis using 10 scheduled_narrower by (simp add: down_defs rollback_ok_def list_all_iff)
next
  case 13
  have "legal (schema_at 13) d" using assms(2) 13 by (simp add: numeral_eq_Suc)
  then have "passes r (length_between ''content'' 1 262144)" if "r \<in> set (d ''notifications'')" for r using legal_check version_checks that by blast
  then show ?thesis using 13 content_narrower by (simp add: down_defs rollback_ok_def list_all_iff)
qed (simp_all add: down_defs rollback_ok_def list_all_iff)

definition back_to :: "nat \<Rightarrow> schema" where
  "back_to k = (schema_at k)\<lparr>sc_extensions := sc_extensions (schema_at (Suc k))\<rparr>"

lemma downgrade_step:
  assumes "k < 14" "legal (schema_at (Suc k)) d"
  shows "run_file (snd (migrations ! k)) (schema_at (Suc k), d) =
      (if rollback_ok k d then Some (back_to k, fold ddl_data (snd (migrations ! k)) d) else None)"
    and "has_column (schema_at k) n c \<Longrightarrow> contents (fold ddl_data (snd (migrations ! k)) d) n c = contents d n c"
proof -
  let ?qs = "snd (migrations ! k)"
  obtain st where "run_file ?qs (schema_at (Suc k), no_rows) = Some st" "fst st = back_to k"
    using version_step(3)[OF assms(1)] by (auto simp: back_to_def)
  then show "run_file ?qs (schema_at (Suc k), d) = (if rollback_ok k d then Some (back_to k, fold ddl_data ?qs d) else None)"
    using run_file_split[of ?qs "schema_at (Suc k)" d] down_passes[OF assms] by (cases st) simp
  assume "has_column (schema_at k) n c"
  then have "list_all (\<lambda>q. \<not> ddl_writes q n c) ?qs"
    using version_step(4)[OF assms(1)] has_column_listed by (fastforce simp: list_all_iff)
  then show "contents (fold ddl_data ?qs d) n c = contents d n c" by (rule file_data_keeps)
qed

lemma back_to_legal: "k < 14 \<Longrightarrow> run_file (snd (migrations ! k)) (schema_at (Suc k), d) = Some (back_to k, d') \<Longrightarrow>
    legal (schema_at (Suc k)) d \<Longrightarrow> legal (schema_at k) d'"
  using run_file_sound[of "snd (migrations ! k)" "(schema_at (Suc k), d)" "(back_to k, d')"] legal_sound[of "Suc k" d]
  by (simp add: sound_def legal_def back_to_def)

lemma upgrade_rollback_ok:
  assumes "k < 14" "legal (schema_at k) d"
  shows "rollback_ok k (fold ddl_data (fst (migrations ! k)) d)"
  using assms(1)
proof (cases rule: version_cases)
  case 7
  then have "passes r audit_actions_0004" if "r \<in> set (d ''admin_audit'')" for r
    using legal_check[OF assms(2)] version_checks that by blast
  then have "r ''action'' \<noteq> VText ''key_revoke''" if "r \<in> set (d ''admin_audit'')" for r
    using that by (fastforce simp: passes_def audit_actions_0004_def sql_defs)
  then show ?thesis using 7 by (simp add: rollback_ok_def file_defs list_all_iff coldef_def referring_def)
next
  case 10
  then have "passes r scheduled_status_consistent" if "r \<in> set (d ''notifications'')" for r
    using legal_check[OF assms(2)] version_checks that by blast
  then have "r ''scheduled_at'' = VNull \<or> r ''status'' \<notin> VText ` {''sending'', ''sent'', ''failed'', ''dead_letter''}"
    if "r \<in> set (d ''notifications'')" for r
    using that by (fastforce simp: passes_def scheduled_status_consistent_def sql_defs)
  then show ?thesis using 10 by (simp add: rollback_ok_def file_defs list_all_iff)
next
  case 13
  then have "passes r (length_between ''content'' 1 10000)" if "r \<in> set (d ''notifications'')" for r
    using legal_check[OF assms(2)] version_checks that by blast
  then have "case r ''content'' of VText s \<Rightarrow> pg_length s \<le> 10000 | _ \<Rightarrow> True" if "r \<in> set (d ''notifications'')" for r
    using content_narrower[OF content_wider] that by blast
  then show ?thesis using 13 by (simp add: rollback_ok_def file_defs list_all_iff)
qed (simp_all add: rollback_ok_def)

subsection \<open>The audit trigger in each version\<close>

text \<open>The trigger of 0009 and 0011, which puts the text together itself.\<close>

definition chain_hash_inline :: "audit_deps \<Rightarrow> audit_row list \<Rightarrow> audit_row \<Rightarrow> audit_row" where
  "chain_hash_inline xd rows r =
     (let h = last_hash (au_id r) rows;
          canonical = show_int (au_id r) @ ''|'' @ au_actor r @
            ''|'' @ (case au_actor_id r of None \<Rightarrow> [] | Some u \<Rightarrow> xd_uuid_text xd u) @
            ''|'' @ au_action r @
            ''|'' @ (case au_target_id r of None \<Rightarrow> [] | Some t \<Rightarrow> t) @
            ''|'' @ xd_json_text xd (au_details r) @
            ''|'' @ xd_time_text xd (au_at r)
      in r\<lparr>au_prev_hash := Some h, au_row_hash := Some (xd_digest xd (h @ canonical))\<rparr>)"

text \<open>
  What the trigger makes of a new row. A call of \<open>admin_audit_canonical\<close> is resolved by the types of its arguments, the
  first of which is the row's \<open>bigint\<close> id; when no function matches, the insertion fails.
\<close>

definition audit_trigger :: "schema \<Rightarrow> audit_deps \<Rightarrow> audit_row list \<Rightarrow> audit_row \<Rightarrow> audit_row option" where
  "audit_trigger s xd rows r =
     (case map_of (sc_triggers s) (''admin_audit_chain_hash_trigger'', ''admin_audit'') of
        None \<Rightarrow> Some r
      | Some f \<Rightarrow>
          (case map_of (sc_functions s) (f, []) of
             Some (ChainHash lock shared) \<Rightarrow>
               if \<not> shared then Some (chain_hash_inline xd rows r)
               else if map_of (sc_functions s) (''admin_audit_canonical'', canonical_bigint) = Some CanonicalText
               then Some (admin_audit_chain_hash xd rows r) else None
           | _ \<Rightarrow> None))"

lemma chain_hash_inline_eq: "chain_hash_inline = admin_audit_chain_hash"
  by (intro ext) (simp add: chain_hash_inline_def admin_audit_chain_hash_def Let_def expected_hash_def admin_audit_canonical_def)

text \<open>The trigger's body and whether the function it calls exists.\<close>

definition trigger_state :: "schema \<Rightarrow> (fnbody option \<times> bool) option" where
  "trigger_state s = map_option (\<lambda>f. (map_of (sc_functions s) (f, []),
       map_of (sc_functions s) (''admin_audit_canonical'', canonical_bigint) = Some CanonicalText))
     (map_of (sc_triggers s) (''admin_audit_chain_hash_trigger'', ''admin_audit''))"

lemma trigger_states:
  "map trigger_state (schemas empty_schema migrations) =
   replicate 9 None @
   [Some (Some (ChainHash False False), False), Some (Some (ChainHash False False), False), Some (Some (ChainHash True False), False),
    Some (Some (ChainHash True True), False), Some (Some (ChainHash True True), False), Some (Some (ChainHash True True), True)]"
  by code_simp

lemma audit_trigger_state:
  "audit_trigger s xd rows r =
   (case trigger_state s of
      None \<Rightarrow> Some r
    | Some (Some (ChainHash lock shared), ok) \<Rightarrow> if \<not> shared \<or> ok then Some (admin_audit_chain_hash xd rows r) else None
    | _ \<Rightarrow> None)"
  by (auto simp: audit_trigger_def trigger_state_def chain_hash_inline_eq split: option.splits fnbody.splits)

text \<open>
  From 0009 on the trigger chains new rows in the same way in every version, except between 0012 and 0014, where every insertion
  into the audit log fails.
\<close>

lemma audit_trigger_versions:
  assumes "k \<le> 14"
  shows "audit_trigger (schema_at k) xd rows r =
    (if k < 9 then Some r else if k = 12 \<or> k = 13 then None else Some (admin_audit_chain_hash xd rows r))"
proof -
  have len: "length (schemas empty_schema migrations) = 15" using arg_cong[OF trigger_states, of length] by simp
  have st: "trigger_state (schema_at k) = map trigger_state (schemas empty_schema migrations) ! k"
    using assms len by (simp add: schema_at_def)
  consider "k < 9" | "k = 9" | "k = 10" | "k = 11" | "k = 12" | "k = 13" | "k = 14" using assms by linarith
  then show ?thesis unfolding audit_trigger_state st trigger_states by cases (simp_all add: nth_append)
qed

subsection \<open>Properties\<close>

definition ex_audit_action :: "string \<Rightarrow> data" where
  "ex_audit_action a n =
     (if n = ''admin_audit''
      then [\<lambda>c. if c = ''id'' then VInt 1 else if c = ''actor'' then VText ''ops'' else if c = ''action'' then VText a
                else if c = ''details'' then VJson (JObj []) else if c = ''at'' then VTime 0 else VNull]
      else [])"

definition ex_versions :: "schema list \<Rightarrow> bool" where
  "ex_versions ss \<longleftrightarrow>
     legal (ss ! 6) (ex_audit_action ''dlq_purge'') \<and> has_column (ss ! 6) ''admin_audit'' ''action'' \<and>
     legal (ss ! 7) (ex_audit_action ''key_revoke'')"

lemma ex_versions_hold: "ex_versions (schemas empty_schema migrations)"
  by code_simp

lemmas ex_version = ex_versions_hold[unfolded ex_versions_def schema_at_def[symmetric]]

lemma ex_contents: "contents (ex_audit_action a) ''admin_audit'' ''action'' = [VText a]"
  by (simp add: contents_def ex_audit_action_def)

text \<open>
  C14: An upgrade cannot fail on the data. From every version, a database that satisfies the schema of its
  version takes all remaining migrations; it then satisfies the last schema, and every column that
  was there before is still there with the same contents.
\<close>

theorem upgrade_total:
  assumes "k \<le> 14" "legal (schema_at k) d"
  shows "\<exists>d'. run_ups (drop k migrations) (schema_at k, d) = Some (schema_at 14, d') \<and> legal (schema_at 14) d' \<and>
    retains (schema_at k, d) (schema_at 14, d')"
  using assms by (rule run_ups_from)

theorem upgrade_total_witness:
  "\<exists>d'. run_ups (drop 6 migrations) (schema_at 6, ex_audit_action ''dlq_purge'') = Some (schema_at 14, d') \<and>
     contents d' ''admin_audit'' ''action'' = [VText ''dlq_purge'']"
  using upgrade_total[of 6 "ex_audit_action ''dlq_purge''"] ex_version ex_contents[of "''dlq_purge''"]
  by (auto simp: retains_def)

text \<open>
  C34: A downgrade is refused exactly when rows have come in that the older checks forbid: for 0007 an audit row of a
  key revocation, for 0010 a scheduled notification that was picked up for delivery, for 0013 long content. Otherwise it leads
  to the schema of the version before, extensions apart, and the rows satisfy that schema and keep its columns.
\<close>

theorem downgrade_condition:
  assumes "k < 14" "legal (schema_at (Suc k)) d"
  shows "case run_file (snd (migrations ! k)) (schema_at (Suc k), d) of
      None \<Rightarrow> \<not> rollback_ok k d
    | Some (s, d') \<Rightarrow> rollback_ok k d \<and> s = back_to k \<and> legal (schema_at k) d' \<and>
        (\<forall>n c. has_column (schema_at k) n c \<longrightarrow> contents d' n c = contents d n c)"
  using downgrade_step[OF assms] back_to_legal[OF assms(1) _ assms(2)] by (auto split: option.splits if_splits)

theorem downgrade_condition_witness:
  "run_file (snd (migrations ! 6)) (schema_at 7, ex_audit_action ''key_revoke'') = None"
proof -
  have "\<not> rollback_ok 6 (ex_audit_action ''key_revoke'')" by (simp add: rollback_ok_def ex_audit_action_def)
  then show ?thesis using downgrade_condition[of 6 "ex_audit_action ''key_revoke''"] ex_version by (auto split: option.splits)
qed

text \<open>
  C35: A migration can be taken back. After an upgrade to the next version, its downgrade succeeds, leads to
  the schema before, extensions apart, and to the same contents in every column of it.
\<close>

theorem migration_round_trip:
  assumes "k < 14" "legal (schema_at k) d"
  shows "\<exists>d1 d2. run_file (fst (migrations ! k)) (schema_at k, d) = Some (schema_at (Suc k), d1) \<and>
    run_file (snd (migrations ! k)) (schema_at (Suc k), d1) = Some (back_to k, d2) \<and> legal (schema_at k) d2 \<and>
    (\<forall>n c. has_column (schema_at k) n c \<longrightarrow> contents d2 n c = contents d n c)"
proof -
  obtain d1 where up: "run_file (fst (migrations ! k)) (schema_at k, d) = Some (schema_at (Suc k), d1)"
    "d1 = fold ddl_data (fst (migrations ! k)) d" "legal (schema_at (Suc k)) d1" "retains (schema_at k, d) (schema_at (Suc k), d1)"
    using upgrade_step[OF assms] by blast
  let ?d2 = "fold ddl_data (snd (migrations ! k)) d1"
  have "rollback_ok k d1" using upgrade_rollback_ok[OF assms] up(2) by simp
  then have down: "run_file (snd (migrations ! k)) (schema_at (Suc k), d1) = Some (back_to k, ?d2)"
    using downgrade_step(1)[OF assms(1) up(3)] by simp
  have "contents ?d2 n c = contents d n c" if "has_column (schema_at k) n c" for n c
    using that downgrade_step(2)[OF assms(1) up(3)] up(4) by (simp add: retains_def)
  then show ?thesis using up(1) down back_to_legal[OF assms(1) down up(3)] by blast
qed

theorem migration_round_trip_witness:
  "\<exists>d1 d2. run_file up_0007 (schema_at 6, ex_audit_action ''dlq_purge'') = Some (schema_at 7, d1) \<and>
     run_file down_0007 (schema_at 7, d1) = Some (back_to 6, d2) \<and> contents d2 ''admin_audit'' ''action'' = [VText ''dlq_purge'']"
  using migration_round_trip[of 6 "ex_audit_action ''dlq_purge''"] ex_version ex_contents[of "''dlq_purge''"] by auto

end
