(* ===== verification/Conformance.thy ===== *)
theory Conformance
  imports Migrations
begin

text \<open>
  The schema after the last migration against the model: \<open>current_tables\<close> lists its tables, the records of \<open>Store\<close>
  are written as rows of these tables, and the checks on the records are shown to be those of the
  schema. A database that satisfies the schema satisfies the invariants the other theories work with.
\<close>

subsection \<open>The tables after the last migration\<close>

type_synonym shape = "(string \<times> sqlty \<times> bool) list \<times> sqle list \<times> string list list \<times> (string \<times> string \<times> string) list"

definition shape :: "table \<Rightarrow> shape" where
  "shape t = (map (\<lambda>c. (co_name c, co_type c, co_notnull c)) (tb_cols t), map snd (tb_checks t), map snd (tb_uniques t),
     map (\<lambda>(_, f). (fk_col f, fk_table f, fk_ref f)) (tb_fks t))"

definition batches_shape :: shape where
  "batches_shape =
   ([(''id'', TyUuid, True), (''total_count'', TyInt, True),
    (''accepted_count'', TyInt, True), (''rejected_count'', TyInt, True),
    (''idempotency_key'', TyText, False), (''status'', TyText, True),
    (''created_at'', TyTimestamptz, True), (''created_by'', TyUuid, False)],
    [ge_const ''accepted_count'' 0,
    LeE (PlusE (Col ''accepted_count'') (Col ''rejected_count''))
    (Col ''total_count''),
    ge_const ''rejected_count'' 0,
    InE (Col ''status'')
    [VText ''accepted'', VText ''partial'', VText ''rejected'',
    VText ''completed''],
    ge_const ''total_count'' 0],
    [[''id'']], [(''created_by'', ''api_keys'', ''id'')])"

definition notifications_shape :: shape where
  "notifications_shape =
   ([(''id'', TyUuid, True), (''batch_id'', TyUuid, False),
    (''channel'', TyText, True), (''recipient'', TyText, True),
    (''content'', TyText, True), (''priority'', TySmallint, True),
    (''status'', TyText, True), (''idempotency_key'', TyText, False),
    (''attempt_count'', TyInt, True), (''last_error'', TyText, False),
    (''scheduled_at'', TyTimestamptz, False),
    (''created_at'', TyTimestamptz, True),
    (''updated_at'', TyTimestamptz, True),
    (''sent_at'', TyTimestamptz, False), (''correlation_id'', TyText, True),
    (''template_id'', TyUuid, False), (''template_version'', TyInt, False),
    (''created_by'', TyUuid, False)],
    [ge_const ''attempt_count'' 0,
    InE (Col ''channel'')
    [VText ''sms'', VText ''email'', VText ''push''],
    AndE (LeE (Lit (VInt 1)) (LengthOf (Col ''content'')))
    (LeE (LengthOf (Col ''content'')) (Lit (VInt 262144))),
    InE (Col ''priority'') [VInt 1, VInt 5, VInt 9],
    AndE (LeE (Lit (VInt 1)) (LengthOf (Col ''recipient'')))
    (LeE (LengthOf (Col ''recipient'')) (Lit (VInt 320))),
    EqE (EqE (Col ''status'') (Lit (VText ''sent'')))
    (IsNotNull (Col ''sent_at'')),
    InE (Col ''status'')
    [VText ''pending'', VText ''queued'', VText ''sending'',
    VText ''sent'', VText ''failed'', VText ''cancelled'',
    VText ''dead_letter'', VText ''scheduled''],
    EqE (IsNull (Col ''template_id'')) (IsNull (Col ''template_version'')),
    OrE (IsNull (Col ''template_version''))
    (ge_const ''template_version'' 1)],
    [[''id'']],
    [(''batch_id'', ''batches'', ''id''),
    (''template_id'', ''templates'', ''id''),
    (''created_by'', ''api_keys'', ''id'')])"

definition delivery_attempts_shape :: shape where
  "delivery_attempts_shape =
   ([(''id'', TyBigint, True), (''notification_id'', TyUuid, True),
    (''attempt_number'', TyInt, True),
    (''started_at'', TyTimestamptz, True),
    (''completed_at'', TyTimestamptz, False), (''success'', TyBool, True),
    (''provider_message_id'', TyText, False),
    (''http_status'', TyInt, False), (''error'', TyText, False),
    (''response_body'', TyText, False)],
    [ge_const ''attempt_number'' 1,
    EqE (IsNull (Col ''completed_at''))
    (AndE
    (AndE (EqE (Col ''success'') (Lit (VBool False)))
    (IsNull (Col ''error'')))
    (IsNull (Col ''http_status''))),
    OrE (IsNull (Col ''http_status''))
    (AndE (ge_const ''http_status'' 100)
    (LeE (Col ''http_status'') (Lit (VInt 599))))],
    [[''id''], [''notification_id'', ''attempt_number'']],
    [(''notification_id'', ''notifications'', ''id'')])"

definition dead_letters_shape :: shape where
  "dead_letters_shape =
   ([(''id'', TyBigint, True), (''notification_id'', TyUuid, True),
    (''reason'', TyText, True), (''payload'', TyJsonb, True),
    (''dlq_at'', TyTimestamptz, True)],
    [AndE (LeE (Lit (VInt 1)) (LengthOf (Col ''reason'')))
    (LeE (LengthOf (Col ''reason'')) (Lit (VInt 500)))],
    [[''id''], [''notification_id'']],
    [(''notification_id'', ''notifications'', ''id'')])"

definition api_keys_shape :: shape where
  "api_keys_shape =
   ([(''id'', TyUuid, True), (''name'', TyText, True),
    (''hashed_key'', TyText, True), (''scopes'', TyTexts, True),
    (''created_at'', TyTimestamptz, True),
    (''revoked_at'', TyTimestamptz, False), (''key_prefix'', TyText, True)],
    [AndE (LeE (Lit (VInt 0)) (LengthOf (Col ''key_prefix'')))
    (LeE (LengthOf (Col ''key_prefix'')) (Lit (VInt 16))),
    AndE (LeE (Lit (VInt 1)) (LengthOf (Col ''name'')))
    (LeE (LengthOf (Col ''name'')) (Lit (VInt 100))),
    OrE (IsNull (Col ''revoked_at''))
    (LeE (Col ''created_at'') (Col ''revoked_at''))],
    [[''id''], [''hashed_key'']], [])"

definition scheduled_notifications_shape :: shape where
  "scheduled_notifications_shape =
   ([(''id'', TyUuid, True), (''due_at'', TyTimestamptz, True),
    (''claimed_at'', TyTimestamptz, False),
    (''claimed_by'', TyText, False)],
    [EqE (IsNull (Col ''claimed_at'')) (IsNull (Col ''claimed_by''))],
    [[''id'']], [(''id'', ''notifications'', ''id'')])"

definition outbox_shape :: shape where
  "outbox_shape =
   ([(''id'', TyUuid, True), (''notification_id'', TyUuid, True),
    (''routing_key'', TyText, True), (''payload'', TyJsonb, True),
    (''headers'', TyJsonb, True), (''priority'', TySmallint, True),
    (''created_at'', TyTimestamptz, True),
    (''claimed_at'', TyTimestamptz, False), (''claimed_by'', TyText, False),
    (''published_at'', TyTimestamptz, False),
    (''attempt_count'', TyInt, True), (''last_error'', TyText, False)],
    [ge_const ''attempt_count'' 0,
    EqE (IsNull (Col ''claimed_at'')) (IsNull (Col ''claimed_by'')),
    InE (Col ''priority'') [VInt 1, VInt 5, VInt 9]],
    [[''id'']], [(''notification_id'', ''notifications'', ''id'')])"

definition templates_shape :: shape where
  "templates_shape =
   ([(''id'', TyUuid, True), (''name'', TyText, True),
    (''channel'', TyText, True), (''version'', TyInt, True),
    (''body'', TyText, True), (''required_vars'', TyTexts, True),
    (''created_at'', TyTimestamptz, True),
    (''updated_at'', TyTimestamptz, True),
    (''deprecated_at'', TyTimestamptz, False),
    (''created_by'', TyUuid, False)],
    [AndE (LeE (Lit (VInt 1)) (LengthOf (Col ''body'')))
    (LeE (LengthOf (Col ''body'')) (Lit (VInt 32768))),
    InE (Col ''channel'')
    [VText ''sms'', VText ''email'', VText ''push''],
    AndE (LeE (Lit (VInt 1)) (LengthOf (Col ''name'')))
    (LeE (LengthOf (Col ''name'')) (Lit (VInt 100))),
    ge_const ''version'' 1],
    [[''id''], [''name'', ''channel'', ''version'']],
    [(''created_by'', ''api_keys'', ''id'')])"

definition admin_audit_shape :: shape where
  "admin_audit_shape =
   ([(''id'', TyBigint, True), (''actor'', TyText, True),
    (''action'', TyText, True), (''target_id'', TyText, False),
    (''details'', TyJsonb, True), (''at'', TyTimestamptz, True),
    (''actor_id'', TyUuid, False), (''prev_hash'', TyBytea, False),
    (''row_hash'', TyBytea, False)],
    [InE (Col ''action'')
    [VText ''dlq_replay'', VText ''dlq_replay_bulk'',
    VText ''dlq_replay_dryrun'', VText ''dlq_purge'',
    VText ''key_revoke''],
    AndE (LeE (Lit (VInt 1)) (LengthOf (Col ''actor'')))
    (LeE (LengthOf (Col ''actor'')) (Lit (VInt 100)))],
    [[''id'']], [(''actor_id'', ''api_keys'', ''id'')])"

definition current_tables :: "(string \<times> shape) list" where
  "current_tables =
     [(''batches'', batches_shape),
      (''notifications'', notifications_shape),
      (''delivery_attempts'', delivery_attempts_shape),
      (''dead_letters'', dead_letters_shape),
      (''api_keys'', api_keys_shape),
      (''scheduled_notifications'', scheduled_notifications_shape),
      (''outbox'', outbox_shape),
      (''templates'', templates_shape),
      (''admin_audit'', admin_audit_shape)]"

text \<open>What a schema enforces: its tables and its unique indexes.\<close>

definition enforced :: "schema \<Rightarrow> (string \<times> shape) list \<times> index list" where
  "enforced s = (map (\<lambda>(n, t). (n, shape t)) (sc_tables s), filter ix_unique (sc_indexes s))"

definition idempotency_index :: index where
  "idempotency_index = \<lparr>ix_name = ''notifications_idempotency_key_uniq'', ix_table = ''notifications'', ix_unique = True,
     ix_cols = [(''idempotency_key'', False)], ix_where = Some (IsNotNull (Col ''idempotency_key''))\<rparr>"

lemma current_schema: "enforced (schema_at 14) = (current_tables, [idempotency_index])"
  by code_simp

subsection \<open>Records as rows\<close>

definition sql_opt :: "('a \<Rightarrow> sqlv) \<Rightarrow> 'a option \<Rightarrow> sqlv" where
  "sql_opt f x = (case x of None \<Rightarrow> VNull | Some v \<Rightarrow> f v)"

definition fields :: "(string \<times> sqlv) list \<Rightarrow> srow" where
  "fields xs c = (case map_of xs c of None \<Rightarrow> VNull | Some v \<Rightarrow> v)"

definition sql_notification :: "notification \<Rightarrow> srow" where
  "sql_notification r = fields
     [(''id'', VUuid (n_id r)), (''batch_id'', sql_opt VUuid (n_batch_id r)), (''channel'', VText (n_channel r)),
      (''recipient'', VText (n_recipient r)), (''content'', VText (n_content r)), (''priority'', VInt (n_priority r)),
      (''status'', VText (status_string (n_status r))), (''idempotency_key'', sql_opt VText (n_idempotency_key r)),
      (''attempt_count'', VInt (n_attempt_count r)), (''last_error'', sql_opt VText (n_last_error r)),
      (''scheduled_at'', sql_opt VTime (n_scheduled_at r)), (''created_at'', VTime (n_created_at r)),
      (''updated_at'', VTime (n_updated_at r)), (''sent_at'', sql_opt VTime (n_sent_at r)),
      (''correlation_id'', VText (n_correlation_id r)), (''template_id'', sql_opt VUuid (n_template_id r)),
      (''template_version'', sql_opt VInt (n_template_version r)), (''created_by'', sql_opt VUuid (n_created_by r))]"

definition sql_outbox :: "outbox_row \<Rightarrow> srow" where
  "sql_outbox r = fields
     [(''id'', VUuid (o_id r)), (''notification_id'', VUuid (o_notification_id r)), (''routing_key'', VText (o_routing_key r)),
      (''payload'', VJson (o_payload r)), (''headers'', VJson (o_headers r)), (''priority'', VInt (o_priority r)),
      (''created_at'', VTime (o_created_at r)), (''claimed_at'', sql_opt VTime (o_claimed_at r)),
      (''claimed_by'', sql_opt VText (o_claimed_by r)), (''published_at'', sql_opt VTime (o_published_at r)),
      (''attempt_count'', VInt (o_attempt_count r)), (''last_error'', sql_opt VText (o_last_error r))]"

definition sql_scheduled :: "scheduled_row \<Rightarrow> srow" where
  "sql_scheduled r = fields
     [(''id'', VUuid (s_id r)), (''due_at'', VTime (s_due_at r)), (''claimed_at'', sql_opt VTime (s_claimed_at r)),
      (''claimed_by'', sql_opt VText (s_claimed_by r))]"

definition sql_dead_letter :: "dead_letter \<Rightarrow> srow" where
  "sql_dead_letter r = fields
     [(''id'', VInt (dl_id r)), (''notification_id'', VUuid (dl_notification_id r)), (''reason'', VText (dl_reason r)),
      (''payload'', VJson (dl_payload r)), (''dlq_at'', VTime (dl_dlq_at r))]"

definition sql_attempt :: "delivery_attempt \<Rightarrow> srow" where
  "sql_attempt r = fields
     [(''id'', VInt (da_id r)), (''notification_id'', VUuid (da_notification_id r)), (''attempt_number'', VInt (da_attempt_number r)),
      (''started_at'', VTime (da_started_at r)), (''completed_at'', sql_opt VTime (da_completed_at r)), (''success'', VBool (da_success r)),
      (''provider_message_id'', sql_opt VText (da_provider_message_id r)), (''http_status'', sql_opt VInt (da_http_status r)),
      (''error'', sql_opt VText (da_error r)), (''response_body'', sql_opt VText (da_response_body r))]"

definition sql_batch :: "batch \<Rightarrow> srow" where
  "sql_batch r = fields
     [(''id'', VUuid (b_id r)), (''total_count'', VInt (b_total_count r)), (''accepted_count'', VInt (b_accepted_count r)),
      (''rejected_count'', VInt (b_rejected_count r)), (''idempotency_key'', sql_opt VText (b_idempotency_key r)),
      (''status'', VText (b_status r)), (''created_at'', VTime (b_created_at r)), (''created_by'', sql_opt VUuid (b_created_by r))]"

definition sql_template :: "template \<Rightarrow> srow" where
  "sql_template r = fields
     [(''id'', VUuid (t_id r)), (''name'', VText (t_name r)), (''channel'', VText (t_channel r)), (''version'', VInt (t_version r)),
      (''body'', VText (t_body r)), (''required_vars'', VTexts (t_required_vars r)), (''created_at'', VTime (t_created_at r)),
      (''updated_at'', VTime (t_updated_at r)), (''deprecated_at'', sql_opt VTime (t_deprecated_at r)),
      (''created_by'', sql_opt VUuid (t_created_by r))]"

definition sql_api_key :: "api_key \<Rightarrow> srow" where
  "sql_api_key r = fields
     [(''id'', VUuid (k_id r)), (''name'', VText (k_name r)), (''hashed_key'', VText (k_hashed_key r)), (''scopes'', VTexts (k_scopes r)),
      (''created_at'', VTime (k_created_at r)), (''revoked_at'', sql_opt VTime (k_revoked_at r)), (''key_prefix'', VText (k_key_prefix r))]"

definition sql_audit :: "audit_row \<Rightarrow> srow" where
  "sql_audit r = fields
     [(''id'', VInt (au_id r)), (''actor'', VText (au_actor r)), (''action'', VText (au_action r)),
      (''target_id'', sql_opt VText (au_target_id r)), (''details'', VJson (au_details r)), (''at'', VTime (au_at r)),
      (''actor_id'', sql_opt VUuid (au_actor_id r)), (''prev_hash'', sql_opt VBytes (au_prev_hash r)),
      (''row_hash'', sql_opt VBytes (au_row_hash r))]"

definition sql_data :: "db \<Rightarrow> data" where
  "sql_data d n =
     (if n = ''notifications'' then map sql_notification (notifications d)
      else if n = ''outbox'' then map sql_outbox (outbox d)
      else if n = ''scheduled_notifications'' then map sql_scheduled (scheduled_notifications d)
      else if n = ''dead_letters'' then map sql_dead_letter (dead_letters d)
      else if n = ''delivery_attempts'' then map sql_attempt (delivery_attempts d)
      else if n = ''batches'' then map sql_batch (batches d)
      else if n = ''templates'' then map sql_template (templates d)
      else if n = ''api_keys'' then map sql_api_key (api_keys d)
      else if n = ''admin_audit'' then map sql_audit (admin_audit d)
      else [])"

subsection \<open>The checks of the schema on records\<close>

definition shape_row :: "shape \<Rightarrow> srow \<Rightarrow> bool" where
  "shape_row sh r = (case sh of (cols, checks, _) \<Rightarrow>
     list_all (\<lambda>(c, ty, nn). fits ty (r c) \<and> (nn \<longrightarrow> r c \<noteq> VNull)) cols \<and> list_all (passes r) checks)"

lemma row_ok_shape: "row_ok t r = shape_row (shape t) r"
  by (auto simp: row_ok_def shape_row_def shape_def column_ok_def list_all_iff)

lemma sql_opt_simps [simp]:
  "sql_opt f None = VNull" "sql_opt f (Some x) = f x" "sql_opt VUuid u = VNull \<longleftrightarrow> u = None" "sql_opt VText t = VNull \<longleftrightarrow> t = None"
  "sql_opt VTime i = VNull \<longleftrightarrow> i = None" "sql_opt VInt j = VNull \<longleftrightarrow> j = None" "sql_opt VBytes b = VNull \<longleftrightarrow> b = None"
  "fits TyUuid (sql_opt VUuid u)" "fits TyText (sql_opt VText t)" "fits TyTimestamptz (sql_opt VTime i)" "fits TyBytea (sql_opt VBytes b)"
  by (simp_all add: sql_opt_def split: option.splits)

text \<open>What each form of CHECK says of the value it reads.\<close>

lemma value_in: "r c \<noteq> VNull \<Longrightarrow> VNull \<notin> set vs \<Longrightarrow> value_of r (InE (Col c) vs) = VBool (r c \<in> set vs)"
  by (induction vs) (auto simp: sql_eq_def sql_or_def)

lemma passes_in: "r c \<noteq> VNull \<Longrightarrow> VNull \<notin> set vs \<Longrightarrow> passes r (InE (Col c) vs) \<longleftrightarrow> r c \<in> set vs"
  using value_in[of r c vs] by (simp add: passes_def)

lemma passes_length: "r c = VText s \<Longrightarrow>
    passes r (AndE (LeE (Lit (VInt lo)) (LengthOf (Col c))) (LeE (LengthOf (Col c)) (Lit (VInt hi)))) \<longleftrightarrow>
    lo \<le> int (pg_length s) \<and> int (pg_length s) \<le> hi"
  by (simp add: passes_def sql_defs)

lemma passes_ge: "r c = VInt j \<Longrightarrow> passes r (ge_const c i) \<longleftrightarrow> i \<le> j"
  by (simp add: passes_def sql_defs)

lemma passes_null_or: "passes r (OrE (IsNull (Col c)) e) \<longleftrightarrow> r c = VNull \<or> passes r e"
  by (auto simp: passes_def sql_defs split: if_splits)

lemma passes_same_null: "passes r (EqE (IsNull (Col a)) (IsNull (Col b))) \<longleftrightarrow> (r a = VNull) = (r b = VNull)"
  by (auto simp: passes_def sql_defs)

lemma passes_iff_set: "r a \<noteq> VNull \<Longrightarrow> v \<noteq> VNull \<Longrightarrow> passes r (EqE (EqE (Col a) (Lit v)) (IsNotNull (Col b))) \<longleftrightarrow> (r a = v) = (r b \<noteq> VNull)"
  by (auto simp: passes_def sql_defs)

lemmas checks = passes_in passes_length passes_ge passes_null_or passes_same_null passes_iff_set

lemma status_listed: "VText (status_string s) \<in> set (map VText [''pending'', ''queued'', ''sending'', ''sent'', ''failed'', ''cancelled'', ''dead_letter'', ''scheduled''])"
  by (cases s) simp_all

lemma status_sent: "VText (status_string s) = VText ''sent'' \<longleftrightarrow> s = StatusSent"
  by (cases s) simp_all

definition int8 :: "int \<Rightarrow> bool" where
  "int8 i \<longleftrightarrow> - (2 ^ 63) \<le> i \<and> i < 2 ^ 63"

lemma sql_notification_simps:
  "sql_notification r ''id'' = VUuid (n_id r)" "sql_notification r ''batch_id'' = sql_opt VUuid (n_batch_id r)"
  "sql_notification r ''channel'' = VText (n_channel r)" "sql_notification r ''recipient'' = VText (n_recipient r)"
  "sql_notification r ''content'' = VText (n_content r)" "sql_notification r ''priority'' = VInt (n_priority r)"
  "sql_notification r ''status'' = VText (status_string (n_status r))"
  "sql_notification r ''idempotency_key'' = sql_opt VText (n_idempotency_key r)"
  "sql_notification r ''attempt_count'' = VInt (n_attempt_count r)" "sql_notification r ''last_error'' = sql_opt VText (n_last_error r)"
  "sql_notification r ''scheduled_at'' = sql_opt VTime (n_scheduled_at r)" "sql_notification r ''created_at'' = VTime (n_created_at r)"
  "sql_notification r ''updated_at'' = VTime (n_updated_at r)" "sql_notification r ''sent_at'' = sql_opt VTime (n_sent_at r)"
  "sql_notification r ''correlation_id'' = VText (n_correlation_id r)" "sql_notification r ''template_id'' = sql_opt VUuid (n_template_id r)"
  "sql_notification r ''template_version'' = sql_opt VInt (n_template_version r)"
  "sql_notification r ''created_by'' = sql_opt VUuid (n_created_by r)"
  by (simp_all add: sql_notification_def fields_def)

lemma notification_row:
  "shape_row notifications_shape (sql_notification r) \<longleftrightarrow>
   notif_check r \<and> (case n_template_version r of None \<Rightarrow> True | Some v \<Rightarrow> int4 v)"
proof -
  have st: "passes (sql_notification r) (one_of ''status'' [''pending'', ''queued'', ''sending'', ''sent'', ''failed'', ''cancelled'', ''dead_letter'', ''scheduled''])"
    using status_listed[of "n_status r"] by (subst passes_in) (simp_all add: sql_notification_simps)
  have ch: "passes (sql_notification r) (one_of ''channel'' [''sms'', ''email'', ''push'']) \<longleftrightarrow> Channel_Valid (n_channel r)"
    by (subst passes_in) (simp_all add: sql_notification_simps Channel_Valid_def)
  have pr: "passes (sql_notification r) (InE (Col ''priority'') [VInt 1, VInt 5, VInt 9]) \<longleftrightarrow> priority_check (n_priority r)"
    by (subst passes_in) (simp_all add: sql_notification_simps priority_check_def)
  have se: "passes (sql_notification r) (EqE (EqE (Col ''status'') (Lit (VText ''sent''))) (IsNotNull (Col ''sent_at''))) \<longleftrightarrow>
      (n_status r = StatusSent) = (n_sent_at r \<noteq> None)"
    by (subst passes_iff_set) (simp_all add: sql_notification_simps status_sent del: sqlv.inject)
  have small: "priority_check i \<Longrightarrow> - 32768 \<le> i \<and> i < 32768" for i by (auto simp: priority_check_def)
  show ?thesis
    using st small[of "n_priority r"]
    by (cases "n_template_version r")
       (auto simp: notifications_shape_def shape_row_def ch[simplified] pr se passes_length passes_ge passes_null_or passes_same_null
        sql_notification_simps notif_check_def int4_def i32_range_def)
qed

lemma sql_outbox_simps:
  "sql_outbox r ''id'' = VUuid (o_id r)" "sql_outbox r ''notification_id'' = VUuid (o_notification_id r)"
  "sql_outbox r ''routing_key'' = VText (o_routing_key r)" "sql_outbox r ''payload'' = VJson (o_payload r)"
  "sql_outbox r ''headers'' = VJson (o_headers r)" "sql_outbox r ''priority'' = VInt (o_priority r)"
  "sql_outbox r ''created_at'' = VTime (o_created_at r)" "sql_outbox r ''claimed_at'' = sql_opt VTime (o_claimed_at r)"
  "sql_outbox r ''claimed_by'' = sql_opt VText (o_claimed_by r)" "sql_outbox r ''published_at'' = sql_opt VTime (o_published_at r)"
  "sql_outbox r ''attempt_count'' = VInt (o_attempt_count r)" "sql_outbox r ''last_error'' = sql_opt VText (o_last_error r)"
  by (simp_all add: sql_outbox_def fields_def)

lemma sql_scheduled_simps:
  "sql_scheduled r ''id'' = VUuid (s_id r)" "sql_scheduled r ''due_at'' = VTime (s_due_at r)"
  "sql_scheduled r ''claimed_at'' = sql_opt VTime (s_claimed_at r)" "sql_scheduled r ''claimed_by'' = sql_opt VText (s_claimed_by r)"
  by (simp_all add: sql_scheduled_def fields_def)

lemma sql_dead_letter_simps:
  "sql_dead_letter r ''id'' = VInt (dl_id r)" "sql_dead_letter r ''notification_id'' = VUuid (dl_notification_id r)"
  "sql_dead_letter r ''reason'' = VText (dl_reason r)" "sql_dead_letter r ''payload'' = VJson (dl_payload r)"
  "sql_dead_letter r ''dlq_at'' = VTime (dl_dlq_at r)"
  by (simp_all add: sql_dead_letter_def fields_def)

lemma sql_attempt_simps:
  "sql_attempt r ''id'' = VInt (da_id r)" "sql_attempt r ''notification_id'' = VUuid (da_notification_id r)"
  "sql_attempt r ''attempt_number'' = VInt (da_attempt_number r)" "sql_attempt r ''started_at'' = VTime (da_started_at r)"
  "sql_attempt r ''completed_at'' = sql_opt VTime (da_completed_at r)" "sql_attempt r ''success'' = VBool (da_success r)"
  "sql_attempt r ''provider_message_id'' = sql_opt VText (da_provider_message_id r)"
  "sql_attempt r ''http_status'' = sql_opt VInt (da_http_status r)" "sql_attempt r ''error'' = sql_opt VText (da_error r)"
  "sql_attempt r ''response_body'' = sql_opt VText (da_response_body r)"
  by (simp_all add: sql_attempt_def fields_def)

lemma sql_batch_simps:
  "sql_batch r ''id'' = VUuid (b_id r)" "sql_batch r ''total_count'' = VInt (b_total_count r)"
  "sql_batch r ''accepted_count'' = VInt (b_accepted_count r)" "sql_batch r ''rejected_count'' = VInt (b_rejected_count r)"
  "sql_batch r ''idempotency_key'' = sql_opt VText (b_idempotency_key r)" "sql_batch r ''status'' = VText (b_status r)"
  "sql_batch r ''created_at'' = VTime (b_created_at r)" "sql_batch r ''created_by'' = sql_opt VUuid (b_created_by r)"
  by (simp_all add: sql_batch_def fields_def)

lemma sql_template_simps:
  "sql_template r ''id'' = VUuid (t_id r)" "sql_template r ''name'' = VText (t_name r)"
  "sql_template r ''channel'' = VText (t_channel r)" "sql_template r ''version'' = VInt (t_version r)"
  "sql_template r ''body'' = VText (t_body r)" "sql_template r ''required_vars'' = VTexts (t_required_vars r)"
  "sql_template r ''created_at'' = VTime (t_created_at r)" "sql_template r ''updated_at'' = VTime (t_updated_at r)"
  "sql_template r ''deprecated_at'' = sql_opt VTime (t_deprecated_at r)"
  "sql_template r ''created_by'' = sql_opt VUuid (t_created_by r)"
  by (simp_all add: sql_template_def fields_def)

lemma sql_api_key_simps:
  "sql_api_key r ''id'' = VUuid (k_id r)" "sql_api_key r ''name'' = VText (k_name r)"
  "sql_api_key r ''hashed_key'' = VText (k_hashed_key r)" "sql_api_key r ''scopes'' = VTexts (k_scopes r)"
  "sql_api_key r ''created_at'' = VTime (k_created_at r)" "sql_api_key r ''revoked_at'' = sql_opt VTime (k_revoked_at r)"
  "sql_api_key r ''key_prefix'' = VText (k_key_prefix r)"
  by (simp_all add: sql_api_key_def fields_def)

lemma sql_audit_simps:
  "sql_audit r ''id'' = VInt (au_id r)" "sql_audit r ''actor'' = VText (au_actor r)" "sql_audit r ''action'' = VText (au_action r)"
  "sql_audit r ''target_id'' = sql_opt VText (au_target_id r)" "sql_audit r ''details'' = VJson (au_details r)"
  "sql_audit r ''at'' = VTime (au_at r)" "sql_audit r ''actor_id'' = sql_opt VUuid (au_actor_id r)"
  "sql_audit r ''prev_hash'' = sql_opt VBytes (au_prev_hash r)" "sql_audit r ''row_hash'' = sql_opt VBytes (au_row_hash r)"
  by (simp_all add: sql_audit_def fields_def)

lemmas check_forms = passes_length passes_ge passes_null_or passes_same_null shape_row_def int4_def i32_range_def int8_def

lemma outbox_row_shape: "shape_row outbox_shape (sql_outbox r) \<longleftrightarrow> outbox_check r"
proof -
  have pr: "passes (sql_outbox r) (InE (Col ''priority'') [VInt 1, VInt 5, VInt 9]) \<longleftrightarrow> priority_check (o_priority r)"
    by (subst passes_in) (simp_all add: sql_outbox_simps priority_check_def)
  have "priority_check (o_priority r) \<Longrightarrow> - 32768 \<le> o_priority r \<and> o_priority r < 32768" by (auto simp: priority_check_def)
  then show ?thesis by (auto simp: outbox_shape_def check_forms pr sql_outbox_simps outbox_check_def)
qed

lemma scheduled_row_shape:
  "shape_row scheduled_notifications_shape (sql_scheduled r) \<longleftrightarrow> (s_claimed_at r = None) = (s_claimed_by r = None)"
  by (auto simp: scheduled_notifications_shape_def check_forms sql_scheduled_simps)

lemma dead_letter_row_shape: "shape_row dead_letters_shape (sql_dead_letter r) \<longleftrightarrow> dead_letter_check r \<and> int8 (dl_id r)"
  by (auto simp: dead_letters_shape_def check_forms sql_dead_letter_simps dead_letter_check_def)

lemma attempt_row_shape: "shape_row delivery_attempts_shape (sql_attempt r) \<longleftrightarrow> attempt_check r \<and> int8 (da_id r)"
proof -
  have compl: "passes (sql_attempt r) (EqE (IsNull (Col ''completed_at''))
       (AndE (AndE (EqE (Col ''success'') (Lit (VBool False))) (IsNull (Col ''error''))) (IsNull (Col ''http_status'')))) \<longleftrightarrow>
      (da_completed_at r = None) = (\<not> da_success r \<and> da_error r = None \<and> da_http_status r = None)"
    by (auto simp: passes_def sql_defs sql_attempt_simps)
  have between: "passes (sql_attempt r) (AndE (ge_const ''http_status'' 100) (LeE (Col ''http_status'') (Lit (VInt 599)))) \<longleftrightarrow>
      (case da_http_status r of None \<Rightarrow> True | Some s \<Rightarrow> 100 \<le> s \<and> s \<le> 599)"
    by (cases "da_http_status r") (auto simp: passes_def sql_defs sql_attempt_simps)
  show ?thesis
    by (cases "da_http_status r") (auto simp: delivery_attempts_shape_def check_forms compl between sql_attempt_simps attempt_check_def)
qed

lemma batch_row_shape:
  "shape_row batches_shape (sql_batch r) \<longleftrightarrow>
   batch_check r \<and> int4 (b_total_count r) \<and> int4 (b_accepted_count r) \<and> int4 (b_rejected_count r)"
proof -
  have st: "passes (sql_batch r) (InE (Col ''status'') [VText ''accepted'', VText ''partial'', VText ''rejected'', VText ''completed'']) \<longleftrightarrow>
      b_status r \<in> {''accepted'', ''partial'', ''rejected'', ''completed''}"
    by (subst passes_in) (simp_all add: sql_batch_simps)
  have sum: "passes (sql_batch r) (LeE (PlusE (Col ''accepted_count'') (Col ''rejected_count'')) (Col ''total_count'')) \<longleftrightarrow>
      b_accepted_count r + b_rejected_count r \<le> b_total_count r"
    by (simp add: passes_def sql_defs sql_batch_simps)
  show ?thesis by (simp add: batches_shape_def check_forms st sum sql_batch_simps batch_check_def) blast
qed

lemma template_row_shape: "shape_row templates_shape (sql_template r) \<longleftrightarrow> template_check r"
proof -
  have ch: "passes (sql_template r) (InE (Col ''channel'') [VText ''sms'', VText ''email'', VText ''push'']) \<longleftrightarrow> Channel_Valid (t_channel r)"
    by (subst passes_in) (simp_all add: sql_template_simps Channel_Valid_def)
  show ?thesis by (auto simp: templates_shape_def check_forms ch sql_template_simps template_check_def)
qed

lemma api_key_row_shape: "shape_row api_keys_shape (sql_api_key r) \<longleftrightarrow> api_key_check r"
proof -
  have "passes (sql_api_key r) (LeE (Col ''created_at'') (Col ''revoked_at'')) \<longleftrightarrow>
      (case k_revoked_at r of None \<Rightarrow> True | Some t \<Rightarrow> k_created_at r \<le> t)"
    by (cases "k_revoked_at r") (simp_all add: passes_def sql_defs sql_api_key_simps)
  then show ?thesis
    by (cases "k_revoked_at r") (auto simp: api_keys_shape_def check_forms sql_api_key_simps api_key_check_def)
qed

lemma audit_row_shape: "shape_row admin_audit_shape (sql_audit r) \<longleftrightarrow> audit_check r \<and> int8 (au_id r)"
proof -
  have ac: "passes (sql_audit r) (InE (Col ''action'') [VText ''dlq_replay'', VText ''dlq_replay_bulk'', VText ''dlq_replay_dryrun'',
        VText ''dlq_purge'', VText ''key_revoke'']) \<longleftrightarrow>
      au_action r \<in> {''dlq_replay'', ''dlq_replay_bulk'', ''dlq_replay_dryrun'', ''dlq_purge'', ''key_revoke''}"
    by (subst passes_in) (simp_all add: sql_audit_simps)
  show ?thesis by (simp add: admin_audit_shape_def check_forms ac sql_audit_simps audit_check_def) blast
qed

subsection \<open>The whole database\<close>

definition shape_table :: "data \<Rightarrow> string \<Rightarrow> shape \<Rightarrow> bool" where
  "shape_table dt n sh = (case sh of (_, _, us, fs) \<Rightarrow>
     list_all (shape_row sh) (dt n) \<and> list_all (\<lambda>cs. unique_ok cs None (dt n)) us \<and>
     list_all (\<lambda>(c, t, k). list_all (\<lambda>r. r c = VNull \<or> list_ex (\<lambda>q. q k = r c) (dt t)) (dt n)) fs)"

lemma list_all_swap: "list_all (\<lambda>r. list_all (P r) fs) rs \<longleftrightarrow> list_all (\<lambda>f. list_all (\<lambda>r. P r f) rs) fs"
  by (auto simp: list_all_iff)

lemma table_ok_shape: "table_ok dt n t = shape_table dt n (shape t)"
proof -
  have "list_all (\<lambda>r. list_all (\<lambda>(_, f). fk_ok dt r f) (tb_fks t)) (dt n) \<longleftrightarrow>
      list_all (\<lambda>(c, u, k). list_all (\<lambda>r. r c = VNull \<or> list_ex (\<lambda>q. q k = r c) (dt u)) (dt n))
        (map (\<lambda>(_, f). (fk_col f, fk_table f, fk_ref f)) (tb_fks t))"
    by (subst list_all_swap) (simp add: list.pred_map comp_def case_prod_unfold fk_ok_def)
  moreover have "list_all (\<lambda>(_, cs). unique_ok cs None (dt n)) (tb_uniques t) \<longleftrightarrow> list_all (\<lambda>cs. unique_ok cs None (dt n)) (map snd (tb_uniques t))"
    by (simp add: list.pred_map comp_def case_prod_unfold)
  ultimately show ?thesis unfolding table_ok_def shape_table_def row_ok_shape by (simp add: shape_def)
qed

lemma legal_enforced:
  "legal s dt \<longleftrightarrow> list_all (\<lambda>(n, sh). shape_table dt n sh) (fst (enforced s)) \<and> list_all (index_ok dt) (snd (enforced s))"
proof -
  have "list_all (index_ok dt) (sc_indexes s) \<longleftrightarrow> list_all (index_ok dt) (filter ix_unique (sc_indexes s))"
    by (induction "sc_indexes s" arbitrary: s rule: list.induct) (auto simp: list_all_iff index_ok_def)
  moreover have "list_all (\<lambda>(n, t). table_ok dt n t) (sc_tables s) \<longleftrightarrow>
      list_all (\<lambda>(n, sh). shape_table dt n sh) (map (\<lambda>(n, t). (n, shape t)) (sc_tables s))"
    by (auto simp: list_all_iff table_ok_shape)
  ultimately show ?thesis by (simp add: legal_def enforced_def)
qed

lemma unique_key:
  assumes "\<And>r. list_all (\<lambda>c. enc r c \<noteq> VNull) cs" "\<And>r r'. map (enc r) cs = map (enc r') cs \<longleftrightarrow> key r = key r'"
  shows "unique_ok cs None (map enc rs) \<longleftrightarrow> distinct (map key rs)"
proof -
  have "filter (\<lambda>r. list_all (\<lambda>c. r c \<noteq> VNull) cs \<and> (case None of None \<Rightarrow> True | Some e \<Rightarrow> holds r e)) (map enc rs) = map enc rs"
    using assms(1) by (auto simp: filter_id_conv)
  then have "unique_ok cs None (map enc rs) \<longleftrightarrow> distinct (map (\<lambda>r. map (enc r) cs) rs)"
    unfolding unique_ok_def by (simp only: map_map comp_def)
  also have "\<dots> \<longleftrightarrow> distinct (map key rs)" by (simp only: distinct_map inj_on_def assms(2))
  finally show ?thesis .
qed

lemma unique_idempotency:
  "index_ok dt idempotency_index \<longleftrightarrow> distinct (List.map_filter n_idempotency_key rs)" if "dt ''notifications'' = map sql_notification rs"
proof -
  have "index_ok dt idempotency_index \<longleftrightarrow>
      distinct (map (\<lambda>r. [sql_opt VText (n_idempotency_key r)]) (filter (\<lambda>r. n_idempotency_key r \<noteq> None) rs))"
    using that
    by (simp add: index_ok_def idempotency_index_def unique_ok_def holds_def filter_map comp_def sql_notification_simps)
  also have "map (\<lambda>r. [sql_opt VText (n_idempotency_key r)]) (filter (\<lambda>r. n_idempotency_key r \<noteq> None) rs) =
      map (\<lambda>k. [VText k]) (List.map_filter n_idempotency_key rs)"
    by (induction rs) (auto simp: map_filter_simps)
  also have "distinct (map (\<lambda>k. [VText k]) xs) \<longleftrightarrow> distinct xs" for xs by (simp add: distinct_map inj_on_def)
  finally show ?thesis .
qed

lemma refers: "list_ex (\<lambda>q. q c = VUuid u) (map enc rs) \<longleftrightarrow> u \<in> key ` set rs" if "\<And>r. enc r c = VUuid (key r)"
  using that by (auto simp: list_ex_iff)

lemma refers_opt: "v = None \<or> list_ex (\<lambda>q. q c = sql_opt VUuid v) (map enc rs) \<longleftrightarrow> fk key rs v"
  if "\<And>r. enc r c = VUuid (key r)"
  using that by (cases v) (auto simp: fk_def list_ex_iff sel_None_iff)

text \<open>What the schema enforces beyond the invariants of the other theories.\<close>

definition further_constraints :: "db \<Rightarrow> bool" where
  "further_constraints d \<longleftrightarrow>
     list_all (\<lambda>r. (case n_template_version r of None \<Rightarrow> True | Some v \<Rightarrow> int4 v) \<and> fk b_id (batches d) (n_batch_id r) \<and>
       fk t_id (templates d) (n_template_id r) \<and> fk k_id (api_keys d) (n_created_by r)) (notifications d) \<and>
     list_all (\<lambda>r. (s_claimed_at r = None) = (s_claimed_by r = None)) (scheduled_notifications d) \<and>
     distinct (map dl_id (dead_letters d)) \<and> list_all (\<lambda>r. int8 (dl_id r)) (dead_letters d) \<and>
     distinct (map da_id (delivery_attempts d)) \<and> list_all (\<lambda>r. int8 (da_id r)) (delivery_attempts d) \<and>
     list_all (\<lambda>r. int4 (b_total_count r) \<and> int4 (b_accepted_count r) \<and> int4 (b_rejected_count r) \<and>
       fk k_id (api_keys d) (b_created_by r)) (batches d) \<and>
     list_all (\<lambda>r. fk k_id (api_keys d) (t_created_by r)) (templates d) \<and>
     distinct (map k_id (api_keys d)) \<and> distinct (map k_hashed_key (api_keys d)) \<and> list_all api_key_check (api_keys d) \<and>
     distinct (map au_id (admin_audit d)) \<and>
     list_all (\<lambda>r. audit_check r \<and> int8 (au_id r) \<and> fk k_id (api_keys d) (au_actor_id r)) (admin_audit d)"

lemma sql_data_simps:
  "sql_data d ''notifications'' = map sql_notification (notifications d)" "sql_data d ''outbox'' = map sql_outbox (outbox d)"
  "sql_data d ''scheduled_notifications'' = map sql_scheduled (scheduled_notifications d)"
  "sql_data d ''dead_letters'' = map sql_dead_letter (dead_letters d)" "sql_data d ''delivery_attempts'' = map sql_attempt (delivery_attempts d)"
  "sql_data d ''batches'' = map sql_batch (batches d)" "sql_data d ''templates'' = map sql_template (templates d)"
  "sql_data d ''api_keys'' = map sql_api_key (api_keys d)" "sql_data d ''admin_audit'' = map sql_audit (admin_audit d)"
  by (simp_all add: sql_data_def)

lemma id_refers:
  "list_ex (\<lambda>q. q ''id'' = VUuid u) (map sql_notification ns) \<longleftrightarrow> u \<in> n_id ` set ns"
  "v = None \<or> list_ex (\<lambda>q. q ''id'' = sql_opt VUuid v) (map sql_batch bs) \<longleftrightarrow> fk b_id bs v"
  "v = None \<or> list_ex (\<lambda>q. q ''id'' = sql_opt VUuid v) (map sql_template ts) \<longleftrightarrow> fk t_id ts v"
  "v = None \<or> list_ex (\<lambda>q. q ''id'' = sql_opt VUuid v) (map sql_api_key ks) \<longleftrightarrow> fk k_id ks v"
  by (rule refers refers_opt, simp add: sql_notification_simps sql_batch_simps sql_template_simps sql_api_key_simps)+

lemma unique_ids:
  "unique_ok [''id''] None (map sql_notification ns) \<longleftrightarrow> distinct (map n_id ns)" "unique_ok [''id''] None (map sql_outbox os) \<longleftrightarrow> distinct (map o_id os)"
  "unique_ok [''id''] None (map sql_scheduled ss) \<longleftrightarrow> distinct (map s_id ss)" "unique_ok [''id''] None (map sql_dead_letter ls) \<longleftrightarrow> distinct (map dl_id ls)"
  "unique_ok [''notification_id''] None (map sql_dead_letter ls) \<longleftrightarrow> distinct (map dl_notification_id ls)"
  "unique_ok [''id''] None (map sql_attempt as) \<longleftrightarrow> distinct (map da_id as)"
  "unique_ok [''notification_id'', ''attempt_number''] None (map sql_attempt as) \<longleftrightarrow> distinct (map (\<lambda>a. (da_notification_id a, da_attempt_number a)) as)"
  "unique_ok [''id''] None (map sql_batch bs) \<longleftrightarrow> distinct (map b_id bs)" "unique_ok [''id''] None (map sql_template ts) \<longleftrightarrow> distinct (map t_id ts)"
  "unique_ok [''name'', ''channel'', ''version''] None (map sql_template ts) \<longleftrightarrow> distinct (map template_key ts)"
  "unique_ok [''id''] None (map sql_api_key ks) \<longleftrightarrow> distinct (map k_id ks)"
  "unique_ok [''hashed_key''] None (map sql_api_key ks) \<longleftrightarrow> distinct (map k_hashed_key ks)"
  "unique_ok [''id''] None (map sql_audit xs) \<longleftrightarrow> distinct (map au_id xs)"
  by (rule unique_key; simp add: sql_notification_simps sql_outbox_simps sql_scheduled_simps sql_dead_letter_simps sql_attempt_simps
      sql_batch_simps sql_template_simps sql_api_key_simps sql_audit_simps template_key_def)+

lemma shape_table_split:
  "snd (snd sh) = (us, fs) \<Longrightarrow> shape_table dt n sh \<longleftrightarrow>
   list_all (shape_row sh) (dt n) \<and> list_all (\<lambda>cs. unique_ok cs None (dt n)) us \<and>
   list_all (\<lambda>(c, t, k). list_all (\<lambda>r. r c = VNull \<or> list_ex (\<lambda>q. q k = r c) (dt t)) (dt n)) fs"
  by (auto simp: shape_table_def split: prod.splits)

lemmas table_eval = shape_table_split sql_data_simps list.pred_map comp_def unique_ids id_refers

lemma notifications_table:
  "shape_table (sql_data d) ''notifications'' notifications_shape \<longleftrightarrow>
     list_all (\<lambda>r. notif_check r \<and> (case n_template_version r of None \<Rightarrow> True | Some v \<Rightarrow> int4 v)) (notifications d) \<and>
     distinct (map n_id (notifications d)) \<and>
     list_all (\<lambda>r. fk b_id (batches d) (n_batch_id r)) (notifications d) \<and>
     list_all (\<lambda>r. fk t_id (templates d) (n_template_id r)) (notifications d) \<and>
     list_all (\<lambda>r. fk k_id (api_keys d) (n_created_by r)) (notifications d)"
proof -
  have "snd (snd notifications_shape) = ([[''id'']],
      [(''batch_id'', ''batches'', ''id''), (''template_id'', ''templates'', ''id''), (''created_by'', ''api_keys'', ''id'')])"
    by (simp add: notifications_shape_def)
  then show ?thesis by (simp add: table_eval notification_row sql_notification_simps)
qed

lemma outbox_table:
  "shape_table (sql_data d) ''outbox'' outbox_shape \<longleftrightarrow>
     list_all outbox_check (outbox d) \<and>
     distinct (map o_id (outbox d)) \<and>
     list_all (\<lambda>r. o_notification_id r \<in> n_id ` set (notifications d)) (outbox d)"
proof -
  have "snd (snd outbox_shape) = ([[''id'']],
      [(''notification_id'', ''notifications'', ''id'')])"
    by (simp add: outbox_shape_def)
  then show ?thesis by (simp add: table_eval outbox_row_shape sql_outbox_simps)
qed

lemma scheduled_notifications_table:
  "shape_table (sql_data d) ''scheduled_notifications'' scheduled_notifications_shape \<longleftrightarrow>
     list_all (\<lambda>r. (s_claimed_at r = None) = (s_claimed_by r = None)) (scheduled_notifications d) \<and>
     distinct (map s_id (scheduled_notifications d)) \<and>
     list_all (\<lambda>r. s_id r \<in> n_id ` set (notifications d)) (scheduled_notifications d)"
proof -
  have "snd (snd scheduled_notifications_shape) = ([[''id'']],
      [(''id'', ''notifications'', ''id'')])"
    by (simp add: scheduled_notifications_shape_def)
  then show ?thesis by (simp add: table_eval scheduled_row_shape sql_scheduled_simps)
qed

lemma dead_letters_table:
  "shape_table (sql_data d) ''dead_letters'' dead_letters_shape \<longleftrightarrow>
     list_all (\<lambda>r. dead_letter_check r \<and> int8 (dl_id r)) (dead_letters d) \<and>
     distinct (map dl_id (dead_letters d)) \<and>
     distinct (map dl_notification_id (dead_letters d)) \<and>
     list_all (\<lambda>r. dl_notification_id r \<in> n_id ` set (notifications d)) (dead_letters d)"
proof -
  have "snd (snd dead_letters_shape) = ([[''id''], [''notification_id'']],
      [(''notification_id'', ''notifications'', ''id'')])"
    by (simp add: dead_letters_shape_def)
  then show ?thesis by (simp add: table_eval dead_letter_row_shape sql_dead_letter_simps)
qed

lemma delivery_attempts_table:
  "shape_table (sql_data d) ''delivery_attempts'' delivery_attempts_shape \<longleftrightarrow>
     list_all (\<lambda>r. attempt_check r \<and> int8 (da_id r)) (delivery_attempts d) \<and>
     distinct (map da_id (delivery_attempts d)) \<and>
     distinct (map (\<lambda>a. (da_notification_id a, da_attempt_number a)) (delivery_attempts d)) \<and>
     list_all (\<lambda>r. da_notification_id r \<in> n_id ` set (notifications d)) (delivery_attempts d)"
proof -
  have "snd (snd delivery_attempts_shape) = ([[''id''], [''notification_id'', ''attempt_number'']],
      [(''notification_id'', ''notifications'', ''id'')])"
    by (simp add: delivery_attempts_shape_def)
  then show ?thesis by (simp add: table_eval attempt_row_shape sql_attempt_simps)
qed

lemma batches_table:
  "shape_table (sql_data d) ''batches'' batches_shape \<longleftrightarrow>
     list_all (\<lambda>r. batch_check r \<and> int4 (b_total_count r) \<and> int4 (b_accepted_count r) \<and> int4 (b_rejected_count r)) (batches d) \<and>
     distinct (map b_id (batches d)) \<and>
     list_all (\<lambda>r. fk k_id (api_keys d) (b_created_by r)) (batches d)"
proof -
  have "snd (snd batches_shape) = ([[''id'']],
      [(''created_by'', ''api_keys'', ''id'')])"
    by (simp add: batches_shape_def)
  then show ?thesis by (simp add: table_eval batch_row_shape sql_batch_simps)
qed

lemma templates_table:
  "shape_table (sql_data d) ''templates'' templates_shape \<longleftrightarrow>
     list_all template_check (templates d) \<and>
     distinct (map t_id (templates d)) \<and>
     distinct (map template_key (templates d)) \<and>
     list_all (\<lambda>r. fk k_id (api_keys d) (t_created_by r)) (templates d)"
proof -
  have "snd (snd templates_shape) = ([[''id''], [''name'', ''channel'', ''version'']],
      [(''created_by'', ''api_keys'', ''id'')])"
    by (simp add: templates_shape_def)
  then show ?thesis by (simp add: table_eval template_row_shape sql_template_simps)
qed

lemma api_keys_table:
  "shape_table (sql_data d) ''api_keys'' api_keys_shape \<longleftrightarrow>
     list_all api_key_check (api_keys d) \<and>
     distinct (map k_id (api_keys d)) \<and>
     distinct (map k_hashed_key (api_keys d))"
proof -
  have "snd (snd api_keys_shape) = ([[''id''], [''hashed_key'']],
      [])"
    by (simp add: api_keys_shape_def)
  then show ?thesis by (simp add: table_eval api_key_row_shape sql_api_key_simps)
qed

lemma admin_audit_table:
  "shape_table (sql_data d) ''admin_audit'' admin_audit_shape \<longleftrightarrow>
     list_all (\<lambda>r. audit_check r \<and> int8 (au_id r)) (admin_audit d) \<and>
     distinct (map au_id (admin_audit d)) \<and>
     list_all (\<lambda>r. fk k_id (api_keys d) (au_actor_id r)) (admin_audit d)"
proof -
  have "snd (snd admin_audit_shape) = ([[''id'']],
      [(''actor_id'', ''api_keys'', ''id'')])"
    by (simp add: admin_audit_shape_def)
  then show ?thesis by (simp add: table_eval audit_row_shape sql_audit_simps)
qed

text \<open>
  C13: The model's constraints are those that the migrations leave in force. The rows of a database satisfy
  the schema after the last migration exactly when the invariants on notifications, outbox,
  schedule, dead letters, attempts and batches hold, those on templates, the idempotency keys are unique, and
  the remaining foreign keys, unique columns and integer ranges are respected.
\<close>

theorem schema_conformance:
  "legal (schema_at 14) (sql_data d) \<longleftrightarrow> db_wf d \<and> templates_wf d \<and> distinct (idem_keys d) \<and> further_constraints d"
proof -
  have "legal (schema_at 14) (sql_data d) \<longleftrightarrow>
      list_all (\<lambda>(n, sh). shape_table (sql_data d) n sh) current_tables \<and> distinct (idem_keys d)"
    using unique_idempotency[of "sql_data d", OF sql_data_simps(1)] by (simp add: legal_enforced current_schema idem_keys_def)
  also have "list_all (\<lambda>(n, sh). shape_table (sql_data d) n sh) current_tables \<longleftrightarrow> db_wf d \<and> templates_wf d \<and> further_constraints d"
    unfolding current_tables_def list.pred_inject prod.case notifications_table outbox_table scheduled_notifications_table dead_letters_table
      delivery_attempts_table batches_table templates_table api_keys_table admin_audit_table
    by (auto simp: db_wf_def templates_wf_def further_constraints_def list_all_iff)
  finally show ?thesis by blast
qed

end
