(* ===== verification/Spec2Isabelle.thy ===== *)
theory Spec2Isabelle
  imports Delivery Claim Outbox Scheduler Sweeper Idempotency Auth Listing Admin Ws Logging System Process Conformance
begin

text \<open>
  A verification library of the event-driven notification service: an HTTP API that accepts
  notifications, a transactional outbox that hands them to RabbitMQ, per-channel workers that deliver
  them to a provider, and the components around these. Every definition translates code under \<open>src/\<close>;
  the theories follow the packages.

  \<^bold>\<open>Parts and how they interact.\<close> A request passes the middleware chain of the router
  (authentication, scope, body limit) and reaches a handler. \<open>create\<close>, \<open>createBatch\<close>, the scheduler, the
  sweeper and \<open>replay\<close> write a notification together with an outbox row in one transaction. The
  outbox dispatcher claims such rows, publishes their payload with confirmation and marks the
  notification queued. A consumer hands each message to the worker pipeline, which takes the
  notification by compare-and-set, takes a Redis lock and a token of the rate limit, calls the
  provider through a circuit breaker and settles the row: sent, queued again through a wait tier, or
  dead-lettered. Status events go through Redis to the WebSocket hub. Admin calls replay or purge
  dead letters and revoke keys, each with a row of a hash-chained audit log.

  \<^bold>\<open>Theories and code.\<close>
  \<^item> \<open>Prelude\<close>, \<open>Domain\<close>, \<open>Envelope\<close>: integers at their width, byte strings, keyed lists; channels, priorities,
    statuses (\<open>internal/notification\<close>); JSON values and the message envelope.
  \<^item> \<open>Store\<close>, \<open>Schema\<close>, \<open>Claim\<close>: the tables as lists of rows with the checks and keys of the migrations, and each
    statement of \<open>internal/store/gen\<close> as a function on the database that may fail; the invariant \<open>db_wf\<close>;
    the claim queries (\<open>FOR UPDATE SKIP LOCKED\<close>). Locales: \<open>guarded_update\<close> for status updates, \<open>claim_query\<close>
    for claims.
  \<^item> \<open>Queue\<close>, \<open>Ratelimit\<close>, \<open>Provider\<close>, \<open>Events\<close>: \<open>internal/queue\<close> (topology, publisher, consumer), \<open>internal/ratelimit\<close>
    (Lua bucket, reservoir; locale \<open>token_source\<close>), \<open>internal/provider\<close> (client, redirects, address filter),
    \<open>internal/events\<close> (the status event and its publication).
  \<^item> \<open>Worker\<close>, \<open>Delivery\<close>: \<open>internal/worker/pipeline.go\<close>; \<open>handle\<close> step by step over a state of database, limiter,
    publisher and a trace of effects (lock, call, publish, event), and its properties. Locale
    \<open>delivery_invariant\<close>: whatever its statements keep, a delivery keeps.
  \<^item> \<open>Outbox\<close>, \<open>Scheduler\<close>, \<open>Sweeper\<close>: the background loops, one tick each. Locale \<open>publishing_invariant\<close>.
  \<^item> \<open>Redis\<close>, \<open>Idempotency\<close>, \<open>Problem\<close>, \<open>Base64\<close>, \<open>Auth\<close>, \<open>Request\<close>: keys with expiry (locale \<open>ttl_store\<close>), the idempotency
    store, problem responses, key hashing, the authentication middleware with its cache, and what the
    handlers share.
  \<^item> \<open>Template\<close>, \<open>Create\<close>, \<open>Batch\<close>, \<open>Listing\<close>, \<open>AuditLog\<close>, \<open>Admin\<close>: the resource handlers of \<open>internal/api\<close>,
    \<open>internal/template\<close> and \<open>internal/audit\<close>.
  \<^item> \<open>Ws\<close>, \<open>Logging\<close>: \<open>internal/ws\<close> as a transition system, and the log redaction of \<open>internal/observability\<close>.
  \<^item> \<open>Router\<close>: \<open>NewRouter\<close>, the middleware and the way of a request to its handler.
  \<^item> \<open>Process\<close>: AMQP connections, worker pools, migrations, and \<open>cmd/notifyd/main.go\<close>.
  \<^item> \<open>Ddl\<close>, \<open>Migrations\<close>, \<open>Conformance\<close>: the SQL of \<open>internal/store/migrations\<close>. \<open>Ddl\<close> gives the statements of these
    files their meaning on a schema and its rows, with three-valued checks, keys, references, partial unique indexes,
    functions and triggers; \<open>Migrations\<close> has each up and down file as a list of statements; \<open>Conformance\<close> writes the rows
    of \<open>Store\<close> as SQL rows and compares their invariant with the schema after the last file.
  \<^item> \<open>System\<close>: every statement or transaction that the service commits, and the runs made of such
    commits in any order. It holds the abstract specification that the components refine.

  \<^bold>\<open>How effects are modelled.\<close> A call to Postgres, Redis, the broker or the provider can be lost before or after
  it took effect (\<open>fault\<close>) or return an error; the environment arguments of each operation say
  what its calls meet, together with clocks and fresh ids, and the theorems hold for all of them. A
  transaction is a composition of statements that takes effect as a whole at its commit. Libraries
  are parameters: UUID syntax, JSON printing and decoding, SHA-256, Argon2, \<open>text/template\<close>, \<open>net/http\<close>, the
  breaker's verdict, and the route that chi picks.

  \<^bold>\<open>What the lemmas show.\<close> This theory: the components refine the runs of \<open>System\<close>; along runs the schema's
  constraints hold, rows keep their content and follow the status graph, a cancelled notification
  is not delivered, the provider gets what was accepted, an accepted notification whose calls
  succeed is delivered, and a status event of a delivery reaches only connections that may read the
  notification. The migrations: the constraints assumed of the tables are exactly those that the files leave in force; an
  upgrade never fails on the rows it finds and keeps their columns; each file can be taken back, and a later downgrade
  fails exactly on rows that the older checks forbid; which versions of the audit trigger work. The component theories: a provider call only after the compare-and-set and
  under the lock; no acknowledgement and no published outbox row without a reason; creation, batch,
  dispatch, sweep, replay and dial are all or nothing under every fault; deliveries are bounded by
  the refill rate; idempotent retries replay; revoked keys are denied at once; foreign rows are
  hidden; pages list each row once; the audit chain detects edits; a connection gets only its
  owner's events; the process releases what it opened.

  \<^bold>\<open>Bounds and termination.\<close> The inline wait of the rate limit recurses until its budget is spent, shown by a
  measure; page following and the reconnect loop recurse over their explicit number of pages and
  list of events; everything else is structural. The schemas of the fourteen versions are computed by
  evaluation from the files, and the statements about rows hold for all rows. Machine integers are \<open>word\<close>s or wrapped by \<open>i32\<close> where they
  can overflow; the rate limiter's doubles are rationals.

  \<^bold>\<open>Not modelled.\<close> Prometheus collectors and OpenTelemetry set-up (\<open>metrics.go\<close>, \<open>otel.go\<close>): registration with
  libraries, without effect on the service. The embedded OpenAPI page. Generated interface
  declarations (\<open>querier.go\<close>). The WebSocket library's heartbeats and read pump. Query plans and the
  version table of the migration library. Polling loops are sequences of their ticks; goroutines are the
  interleavings of \<open>System\<close>. Panics are modelled only while a reply is written.
\<close>

subsection \<open>Helper lemmas\<close>

lemma reachable:
  assumes "run dp xd b empty_db d"
  shows "db_wf d" "outbox_ok dp d" "distinct (idem_keys d)"
proof -
  have "outbox_ok dp empty_db" "distinct (idem_keys empty_db)"
    by (simp_all add: outbox_ok_def idem_keys_def empty_db_def map_filter_def)
  then show "db_wf d" "outbox_ok dp d" "distinct (idem_keys d)"
    using run_wf[OF assms] run_outbox[OF assms] run_idem[OF assms] empty_db_wf by simp_all
qed

text \<open>A call of the provider means that the envelope's row was pending or queued.\<close>

lemma call_picks:
  assumes "Handle dp p he m w = (res, w')" "ECall req corr \<in> set (drop (length (w_trace w)) (w_trace w'))" "db_wf (w_db w)"
  shows "\<exists>env nid r. unmarshal_envelope (m_body m) = (env, True) \<and> uuid_parse dp (env_NotificationID env) = Some nid \<and>
    corr = env_CorrelationID env \<and> req = \<lparr>sq_to = env_Recipient env, sq_channel = env_Channel env, sq_content = env_Content env\<rparr> \<and>
    row_of nid (w_db w) = Some r \<and> n_status r \<in> {StatusPending, StatusQueued}"
proof -
  obtain es where es: "w_trace w' = w_trace w @ es"
    and calls: "\<forall>req corr. ECall req corr \<in> set es \<longrightarrow>
       (\<exists>env nid row d' qs rs.
          unmarshal_envelope (m_body m) = (env, True) \<and> uuid_parse dp (env_NotificationID env) = Some nid \<and>
          corr = env_CorrelationID env \<and>
          req = \<lparr>sq_to = env_Recipient env, sq_channel = env_Channel env, sq_content = env_Content env\<rparr> \<and>
          MarkSendingCAS (he_cas_now he) nid (w_db w) = Inr (row, d') \<and> call_made he w \<and>
          es = ESetNX (inflightKey dp nid) True # ECall req corr # qs @ EDel (inflightKey dp nid) # rs \<and>
          list_all quiet (qs @ rs))"
    using Handle_calls[OF assms(1)] by blast
  have "ECall req corr \<in> set es" using assms(2) es by simp
  then obtain env nid row d' where c: "unmarshal_envelope (m_body m) = (env, True)" "uuid_parse dp (env_NotificationID env) = Some nid"
    "corr = env_CorrelationID env" "req = \<lparr>sq_to = env_Recipient env, sq_channel = env_Channel env, sq_content = env_Content env\<rparr>"
    and cas: "MarkSendingCAS (he_cas_now he) nid (w_db w) = Inr (row, d')"
    using calls by blast
  obtain r where "row_of nid (w_db w) = Some r" "n_status r = StatusPending \<or> n_status r = StatusQueued"
    using update_row_after[OF assms(3) cas[unfolded MarkSendingCAS_def]] by auto
  then show ?thesis using c by blast
qed

lemma carriedD:
  assumes "carried dp r o1" "uuid_parse dp (uuid_str dp (n_id r)) = Some (n_id r)"
  shows "uuid_parse dp (extractNotificationID (o_payload o1)) = Some (n_id r) \<or> o_payload o1 = JNull"
  using assms extractNotificationID_unmarshal by (cases "o_payload o1") (auto simp: carried_def)

lemma outbox_not_capped: "m_headers m = headers_of_json j \<Longrightarrow> \<not> over_cap m"
  by (auto simp: over_cap_def header_def headers_of_json_def split: option.splits json.splits hval.splits dest!: map_of_SomeD)

text \<open>The HTTP server, the consumers and the start of the process as runs.\<close>

lemma ServeHTTP_run:
  assumes between: "run (rd_deps rd) (rd_audit rd) True d (re_between (rv_replay e) d)" and wf: "db_wf d"
  shows "run (rd_deps rd) (rd_audit rd) True d (hw_db (snd (ServeHTTP rd e rq (w\<lparr>hw_db := d\<rparr>))))"
proof -
  obtain reply w' where s: "ServeHTTP rd e rq (w\<lparr>hw_db := d\<rparr>) = (reply, w')" by fastforce
  obtain w0 ro w1 where r: "route_request rd e (CorrelationID e rq) rq w0 = (ro, w1)"
    and sh: "shared w0 = shared (w\<lparr>hw_db := d\<rparr>)" "shared w' = shared w1" using ServeHTTP_routed[OF s] by metis
  have d0: "hw_db w0 = d" using shared_data[OF sh(1)] by simp
  have ep: "run (rd_deps rd) (rd_audit rd) True d (hw_db v')"
    if "endpoint_handler rd e cid rq ps key b ep v = (x, v')" "hw_db v = d" for cid ps key b ep v x v'
    using that between wf
    by (cases ep) (auto simp: run.start split: prod.splits intro: notifications_create_run createBatch_run cancel_run templates_run
        admin_run replay_run)
  have "run (rd_deps rd) (rd_audit rd) True d (hw_db w1)"
    using r d0 by (auto simp: route_request_def run.start split: prod.splits sum.splits routing.splits dest!: ep)
  then show ?thesis using s shared_data[OF sh(2)] by simp
qed

lemma Consumer_run:
  "run dp xd True (w_db v) (w_db (snd (snd (Consumer_Run (\<lambda>(he, m) v. Handle dp p he m v) evs v))))"
proof (induction evs arbitrary: v)
  case (Cons ev evs)
  show ?case
  proof (cases ev)
    case (CDelivery hm)
    obtain he m where hm: "hm = (he, m)" by fastforce
    obtain r v' where h: "Handle dp p he m v = (r, v')" by fastforce
    have "run dp xd True (w_db v) (w_db v')" by (rule delivery_run.Handle_keeps[OF run.start h])
    then have "run dp xd True (w_db v) (w_db (snd (snd (Consumer_Run (\<lambda>(he, m) v. Handle dp p he m v) evs v'))))"
      by (rule run_trans[OF Cons.IH])
    then show ?thesis using CDelivery hm h by (cases "Consumer_Run (\<lambda>(he, m) v. Handle dp p he m v) evs v'") simp
  qed (simp_all add: run.start)
qed (simp add: run.start)

lemma run_process_run: "run dp xd True d (snd (snd (run_process dp' cfg skip be d)))"
proof -
  have seed: "run dp xd True d (snd (dev_key_guard dp' cfg be d))"
    by (auto simp: dev_key_guard_def run.start split: prod.splits sum.splits
        elim!: run_stmt_run[rotated] intro: committed.key_seeded)
  have "d' = d \<or> d' = snd (dev_key_guard dp' cfg be d)" if "run_redis dp' cfg be d = (res, evs, d')" for res evs d'
    using that orderly_services by (fastforce simp: run_redis_def deferring_def split: prod.splits option.splits)
  then show ?thesis
    using seed by (auto simp: run_process_def deferring_def run.start split: prod.splits option.splits)
qed

subsection \<open>A concrete delivery\<close>

definition ex_dispatcher :: ostate where
  "ex_dispatcher = \<lparr>os_db = ex_stored, os_pub = \<lparr>pub_chans = [0], pub_round_robin = 0, pub_conn_open = True, pub_stopped = False\<rparr>,
                    os_accepted = []\<rparr>"

definition ex_worker :: "db \<Rightarrow> wstate" where
  "ex_worker d = (ex_world (ex_row StatusPending 0))\<lparr>w_db := d\<rparr>"

definition ex_cancelled :: db where
  "ex_cancelled = snd (cancel ex_deps ''c'' (ex_call NoFault) NoFault (Some ex_admin) ''a'' ex_stored)"

lemma ex_stored_wf: "db_wf ex_stored"
  by (rule run_wf[OF ex_stored_run empty_db_wf])

lemma ex_stored_row: "row_of 1 ex_stored = Some (ex_row StatusPending 0)" "ex_outbox_row \<in> set (outbox ex_stored)"
  "o_notification_id ex_outbox_row = 1"
  by (simp_all add: row_of_def ex_stored_def ex_row_def ex_outbox_row_def)

lemma ex_cancel: "\<exists>resp. cancel ex_deps ''c'' (ex_call NoFault) NoFault (Some ex_admin) ''a'' ex_stored = (Done 200 resp, ex_cancelled)"
proof -
  have "is_admin (Some ex_admin)" "uuid_parse ex_deps ''a'' = Some 1" "cancellable (ex_row StatusPending 0)"
    by (simp_all add: is_admin_def ex_admin_def HasScope_def ex_deps_def cancellable_def ex_row_def)
  then show ?thesis
    using cancel_statement[OF ex_stored_wf, of cancellable 1 5] ex_stored_row(1)
    by (auto simp: ex_cancelled_def cancel_def ex_call_def run_stmt_def Cancel_cancelled)
qed

lemma ex_worker_gate: "fst (gate (ex_henv out) (ex_worker d)) = GatePass" "w_db (ex_worker d) = d"
  using gate_cong[of "ex_worker d" "ex_world (ex_row StatusPending 0)"] ex_gate
  by (simp_all add: ex_worker_def same_tokens_def)

lemma ex_uuid: "uuid_parse ex_deps (uuid_str ex_deps 1) = Some 1" "uuid_str ex_deps 1 \<noteq> []"
  by (simp_all add: ex_deps_def)

subsection \<open>The components together\<close>

text \<open>
  C5: The components refine the system of commits. Whatever an HTTP request, a dispatcher tick, a
  scheduler tick, a sweep, a consumer with any sequence of deliveries or the start of the process
  meets, its effect on the database is a run of the system, so that what holds along runs holds for
  the components in any interleaving.
\<close>

theorem components_produce_runs:
  assumes "db_wf d" "run (rd_deps rd) (rd_audit rd) True d (re_between (rv_replay e) d)"
  shows "run (rd_deps rd) (rd_audit rd) True d (hw_db (snd (ServeHTTP rd e rq (w\<lparr>hw_db := d\<rparr>)))) \<and>
    run dp xd True d (scheduler_tick dp sc f now locked ses d) \<and>
    run dp xd True d (sweeper_tick dp sw we d) \<and>
    run dp xd True (os_db os) (os_db (outbox_tick dp oc f now locked des os)) \<and>
    run dp xd True (w_db v) (w_db (snd (snd (Consumer_Run (\<lambda>(he, m) v. Handle dp p he m v) evs v)))) \<and>
    run dp xd True d (snd (snd (run_process dp cfg skip be d)))"
  by (intro conjI ServeHTTP_run[OF assms(2,1)] scheduler_tick_run sweeper_tick_run publishing_run.tick_keeps[OF run.start]
      Consumer_run run_process_run)

theorem components_produce_runs_witness:
  "run ex_deps ex_xd True ex_stored
     (hw_db (snd (ServeHTTP ex_rd ex_renv (ex_rq ''DELETE'' ''/v1/notifications/{id}'') (ex_hw ex_stored))))"
proof -
  have "run (rd_deps ex_rd) (rd_audit ex_rd) True ex_stored (re_between (rv_replay ex_renv) ex_stored)"
    by (simp add: ex_renv_def run.start)
  from components_produce_runs[OF ex_stored_wf this, of "ex_rq ''DELETE'' ''/v1/notifications/{id}''" "ex_hw ex_stored"]
  show ?thesis by (simp add: ex_rd_def ex_hw_def)
qed

text \<open>
  C4: The life of a notification. Along a run without replays, whatever the components do and in
  whatever order, a notification stays in the table with its recipient, channel, content, priority,
  owner and every other column that describes it, its status only moves along the edges of the status
  graph, and once it is sent no column changes any more.
\<close>

theorem status_lifecycle:
  assumes "run dp xd False d d'" "db_wf d" "row_of nid d = Some r"
  shows "\<exists>r'. row_of nid d' = Some r' \<and> frozen r' = frozen r \<and> status_edge\<^sup>*\<^sup>* (n_status r) (n_status r') \<and>
    (n_status r = StatusSent \<longrightarrow> r' = r)"
proof -
  obtain r' where "row_of nid d' = Some r'" "advance\<^sup>*\<^sup>* r r'"
    using run_advance[OF assms(1,2)] assms(3) by (auto simp: rows_kept_def)
  then show ?thesis using advance_path settled(1) by blast
qed

theorem status_lifecycle_witness:
  "\<exists>r'. row_of 1 ex_cancelled = Some r' \<and> frozen r' = frozen (ex_row StatusPending 0) \<and>
     status_edge\<^sup>*\<^sup>* StatusPending (n_status r')"
proof -
  have "run ex_deps ex_xd False ex_stored ex_cancelled" using ex_cancel cancel_run by blast
  moreover have "n_status (ex_row StatusPending 0) = StatusPending" by (simp add: ex_row_def)
  ultimately show ?thesis using status_lifecycle[OF _ ex_stored_wf ex_stored_row(1)] by fastforce
qed

text \<open>
  C3: A cancelled notification is not delivered. Once \<open>cancel\<close> has answered with success, no worker
  calls the provider for that notification, whatever the components do afterwards, unless an operator
  replays it.
\<close>

theorem cancelled_never_delivered:
  assumes "cancel dp cid e recheck key idp d = (Done st resp, d1)" "db_wf d" "uuid_parse dp idp = Some nid"
    and "run dp xd False d1 (w_db w)" "Handle dp p he m w = (res, w')"
    and "unmarshal_envelope (m_body m) = (env, True)" "uuid_parse dp (env_NotificationID env) = Some nid"
  shows "ECall req corr \<notin> set (drop (length (w_trace w)) (w_trace w'))"
proof
  assume call: "ECall req corr \<in> set (drop (length (w_trace w)) (w_trace w'))"
  have wf: "db_wf d1" using run_wf[OF cancel_run[OF assms(1)] assms(2)] .
  obtain r where r: "row_of nid d1 = Some r" "n_status r = StatusCancelled" using cancel_Done[OF assms(1-3)] by blast
  obtain r' where r': "row_of nid (w_db w) = Some r'" "advance\<^sup>*\<^sup>* r r'"
    using run_advance[OF assms(4) wf] r(1) by (auto simp: rows_kept_def)
  then have "n_status r' \<in> {StatusCancelled, StatusDeadLetter}" using settled(2) r(2) by blast
  moreover have "n_status r' \<in> {StatusPending, StatusQueued}"
    using call_picks[OF assms(5) call run_wf[OF assms(4) wf]] assms(6,7) r'(1) by auto
  ultimately show False by auto
qed

theorem cancelled_never_delivered_witness:
  "ECall \<lparr>sq_to = ''+15550100'', sq_channel = ''sms'', sq_content = ''hi''\<rparr> ''c'' \<notin>
     set (w_trace (snd (Handle ex_deps ex_pipe (ex_henv (BreakerCall (Responds 202 [] []))) ex_msg (ex_worker ex_cancelled))))"
proof -
  let ?w = "ex_worker ex_cancelled" and ?he = "ex_henv (BreakerCall (Responds 202 [] []))"
  obtain resp where c: "cancel ex_deps ''c'' (ex_call NoFault) NoFault (Some ex_admin) ''a'' ex_stored = (Done 200 resp, ex_cancelled)"
    using ex_cancel by blast
  have u: "uuid_parse ex_deps ''a'' = Some 1" by (simp add: ex_deps_def)
  have r: "run ex_deps ex_xd False ex_cancelled (w_db ?w)" by (simp add: ex_worker_def run.start)
  have e: "unmarshal_envelope (m_body ex_msg) = (ex_envelope, True)" "uuid_parse ex_deps (env_NotificationID ex_envelope) = Some 1"
    by (simp_all add: ex_msg_def ex_envelope_def unmarshal_envelope_json u)
  have "w_trace ?w = []" by (simp add: ex_worker_def ex_world_def)
  then show ?thesis
    using cancelled_never_delivered[OF c ex_stored_wf u r prod.collapse[symmetric] e, of _ _ ex_pipe ?he] by simp
qed

text \<open>
  C2: The provider receives what was accepted. If the body of a delivery is the payload of an outbox
  row of a reachable database, then a call of the provider carries recipient, channel, content and
  correlation id of that row's notification, as they were stored when the notification was accepted,
  and the notification was pending or queued at that moment.
\<close>

theorem provider_gets_accepted:
  assumes "run dp xd True empty_db d" "o1 \<in> set (outbox d)" "m_body m = Json (o_payload o1)"
    and "row_of (o_notification_id o1) d = Some r" "uuid_parse dp (uuid_str dp (n_id r)) = Some (n_id r)"
    and "run dp xd True d (w_db w)" "Handle dp p he m w = (res, w')"
    and "ECall req corr \<in> set (drop (length (w_trace w)) (w_trace w'))"
  shows "req = \<lparr>sq_to = n_recipient r, sq_channel = n_channel r, sq_content = n_content r\<rparr> \<and> corr = n_correlation_id r \<and>
    (\<exists>r'. row_of (n_id r) (w_db w) = Some r' \<and> frozen r' = frozen r \<and> n_status r' \<in> {StatusPending, StatusQueued})"
proof -
  have c: "carried dp r o1" using reachable(2)[OF assms(1)] assms(2,4) by (auto simp: outbox_ok_def)
  obtain env nid r' where call: "unmarshal_envelope (m_body m) = (env, True)" "uuid_parse dp (env_NotificationID env) = Some nid"
    "corr = env_CorrelationID env" "req = \<lparr>sq_to = env_Recipient env, sq_channel = env_Channel env, sq_content = env_Content env\<rparr>"
    "row_of nid (w_db w) = Some r'" "n_status r' \<in> {StatusPending, StatusQueued}"
    using call_picks[OF assms(7,8) run_wf[OF assms(6) reachable(1)[OF assms(1)]]] by blast
  have env: "env = \<lparr>env_NotificationID = uuid_str dp (n_id r), env_Channel = n_channel r, env_Recipient = n_recipient r,
      env_Content = n_content r, env_Priority = PriorityFromInt (n_priority r), env_CorrelationID = n_correlation_id r\<rparr>"
    using c call(1) assms(3) by (simp add: carried_def)
  have nid: "nid = n_id r" "o_notification_id o1 = n_id r" using call(2) assms(5) env c by (simp_all add: carried_def)
  obtain r2 where "row_of nid (w_db w) = Some r2" "frozen r2 = frozen r"
    using run_kept[OF assms(6) reachable(1)[OF assms(1)]] assms(4) nid by (auto simp: rows_kept_def)
  then show ?thesis using call nid env by auto
qed

theorem provider_gets_accepted_witness:
  "\<exists>req corr. ECall req corr \<in>
      set (w_trace (snd (Handle ex_deps ex_pipe (ex_henv (BreakerCall (Responds 202 [] []))) ex_msg (ex_worker ex_stored)))) \<and>
     req = \<lparr>sq_to = ''+15550100'', sq_channel = ''sms'', sq_content = ''hi''\<rparr> \<and> corr = ''c''"
proof -
  let ?w = "ex_worker ex_stored" and ?he = "ex_henv (BreakerCall (Responds 202 [] []))" and ?r = "ex_row StatusPending 0"
  have b: "m_body ex_msg = Json (o_payload ex_outbox_row)" "w_trace ?w = []"
    by (simp_all add: ex_msg_def ex_outbox_row_def ex_worker_def ex_world_def)
  have r: "n_id ?r = 1" "n_status ?r = StatusPending" "n_recipient ?r = ''+15550100''" "n_channel ?r = ''sms''" "n_content ?r = ''hi''"
    "n_correlation_id ?r = ''c''" by (simp_all add: ex_row_def)
  have run: "run ex_deps ex_xd True ex_stored (w_db ?w)" by (simp add: ex_worker_def run.start)
  have "picked ex_deps ?he ex_msg ?w ex_envelope ?r"
    using ex_picked[of StatusPending 0 "BreakerCall (Responds 202 [] [])"] ex_stored_wf ex_stored_row(1) r
    by (simp add: picked_def ex_worker_gate)
  from picked_called[OF this ex_worker_gate(1), of "Responds 202 [] []" ex_pipe]
  have call: "ECall \<lparr>sq_to = ''+15550100'', sq_channel = ''sms'', sq_content = ''hi''\<rparr> ''c''
      \<in> set (drop (length (w_trace ?w)) (w_trace (snd (Handle ex_deps ex_pipe ?he ex_msg ?w))))"
    by (simp add: ex_henv_def ex_envelope_def)
  have "row_of (o_notification_id ex_outbox_row) ex_stored = Some ?r" "uuid_parse ex_deps (uuid_str ex_deps (n_id ?r)) = Some (n_id ?r)"
    using ex_stored_row(1,3) ex_uuid(1) r(1) by simp_all
  from provider_gets_accepted[OF ex_stored_run ex_stored_row(2) b(1) this run prod.collapse[symmetric] call]
  show ?thesis using call b(2) r by auto
qed

text \<open>
  C1: End to end delivery. In a reachable database, an outbox row of a pending notification that the
  broker confirms puts one message on the queue; when a worker handles that message while the
  notification is still pending or queued, and lock, rate limit, breaker and provider let it pass, then the
  provider is called with recipient, channel, content and correlation id of the notification
  and the notification becomes sent.
\<close>

theorem accepted_is_delivered:
  assumes "run dp xd True empty_db (os_db s)" "o1 \<in> set (outbox (os_db s))" "row_of (o_notification_id o1) (os_db s) = Some r"
    and "n_status r = StatusPending" "uuid_parse dp (uuid_str dp (n_id r)) = Some (n_id r)" "uuid_str dp (n_id r) \<noteq> []"
    and "de_amqp de = Acked" "pub_chans (os_pub s) \<noteq> []" "de_published_fault de = NoFault" "de_queued_fault de = NoFault"
    and "run dp xd True (os_db (publishRow dp cfg de o1 s)) (w_db w)"
    and "row_of (n_id r) (w_db w) = Some r1" "n_status r1 = StatusPending \<or> n_status r1 = StatusQueued"
    and "he_cas_fault he = NoFault" "he_setnx he = Some True" "fst (gate he w) = GatePass" "he_breaker he = BreakerCall out"
    and "Send (json_of dp) (time_ok dp) (http_time dp) (he_clock he) out = Inr resp" "he_sent_fault he = NoFault"
  shows "\<exists>m. os_accepted (publishRow dp cfg de o1 s) = os_accepted s @ [m] \<and> fst (Handle dp p he m w) = HNil \<and>
    row_of (n_id r) (w_db (snd (Handle dp p he m w))) =
      Some (r1\<lparr>n_status := StatusSent, n_sent_at := Some (he_db_now he), n_updated_at := he_db_now he\<rparr>) \<and>
    ECall \<lparr>sq_to = n_recipient r, sq_channel = n_channel r, sq_content = n_content r\<rparr> (n_correlation_id r)
      \<in> set (drop (length (w_trace w)) (w_trace (snd (Handle dp p he m w))))"
proof -
  note wf = reachable(1)[OF assms(1)]
  have c: "carried dp r o1" using reachable(2)[OF assms(1)] assms(2,3) by (auto simp: outbox_ok_def)
  then have id: "o_notification_id o1 = n_id r" by (simp add: carried_def)
  have o: "orow (o_id o1) (os_db s) \<noteq> None"
    using sel_distinct[of o_id "outbox (os_db s)" o1] wf assms(2) by (simp add: db_wf_def orow_def)
  have "o_payload o1 \<noteq> JNull" using c assms(6) by (auto simp: carried_def empty_envelope_def)
  then have x: "uuid_parse dp (extractNotificationID (o_payload o1)) = Some (n_id r)" using carriedD[OF c assms(5)] by blast
  have r: "row_of (n_id r) (os_db s) = Some r" using assms(3) id by simp
  obtain m where m: "os_accepted (publishRow dp cfg de o1 s) = os_accepted s @ [m]" "m_body m = Json (o_payload o1)"
    "m_headers m = headers_of_json (o_headers o1)"
    using publishRow_published[OF wf o assms(7-10) x r assms(4), of cfg] by blast
  have wfw: "db_wf (w_db w)" by (rule run_wf[OF assms(11) publishing_wf.publish_keeps[OF wf]])
  have id1: "n_id r1 = n_id r" using row_of_check[OF wfw assms(12)] by simp
  let ?env = "\<lparr>env_NotificationID = uuid_str dp (n_id r), env_Channel = n_channel r, env_Recipient = n_recipient r,
      env_Content = n_content r, env_Priority = PriorityFromInt (n_priority r), env_CorrelationID = n_correlation_id r\<rparr>"
  have pick: "picked dp he m w ?env r1"
    using c m(2) outbox_not_capped[OF m(3)] assms(5,12-15) wfw id1 by (simp add: picked_def carried_def)
  show ?thesis
    using picked_delivered[OF pick assms(16-19), of p] picked_called[OF pick assms(16,17), of p] m(1) id1 by auto
qed

theorem accepted_is_delivered_witness:
  "\<exists>m r. os_accepted (publishRow ex_deps (Outbox_Default ''d'') (ex_denv Acked) ex_outbox_row ex_dispatcher) = [m] \<and>
     row_of 1 (w_db (snd (Handle ex_deps ex_pipe (ex_henv (BreakerCall (Responds 202 [] []))) m
       (ex_worker (os_db (publishRow ex_deps (Outbox_Default ''d'') (ex_denv Acked) ex_outbox_row ex_dispatcher)))))) = Some r \<and>
     n_status r = StatusSent"
proof -
  let ?d = "os_db (publishRow ex_deps (Outbox_Default ''d'') (ex_denv Acked) ex_outbox_row ex_dispatcher)"
  let ?w = "ex_worker ?d" and ?he = "ex_henv (BreakerCall (Responds 202 [] []))" and ?r = "ex_row StatusPending 0"
  have r: "n_id ?r = 1" "n_status ?r = StatusPending" by (simp_all add: ex_row_def)
  have s: "os_db ex_dispatcher = ex_stored" "os_accepted ex_dispatcher = []" "pub_chans (os_pub ex_dispatcher) \<noteq> []"
    by (simp_all add: ex_dispatcher_def)
  have de: "de_amqp (ex_denv Acked) = Acked" "de_published_fault (ex_denv Acked) = NoFault" "de_queued_fault (ex_denv Acked) = NoFault"
    by (simp_all add: ex_denv_def)
  have x: "uuid_parse ex_deps (extractNotificationID (o_payload ex_outbox_row)) = Some 1"
    by (simp add: ex_deps_def ex_outbox_row_def extractNotificationID_envelope)
  have o: "orow (o_id ex_outbox_row) (os_db ex_dispatcher) \<noteq> None" by (simp add: s orow_def ex_stored_def)
  have q: "row_of 1 ?d = Some (?r\<lparr>n_status := StatusQueued, n_updated_at := de_now (ex_denv Acked)\<rparr>)"
    using publishRow_published[OF _ o de(1) s(3) de(2,3) x _ r(2)] ex_stored_wf ex_stored_row(1) s(1) by simp
  obtain resp where sent: "Send (json_of ex_deps) (time_ok ex_deps) (http_time ex_deps) (he_clock ?he) (Responds 202 [] []) = Inr resp"
    by (simp add: Send_def ex_deps_def decode_response_def)
  show ?thesis
    using accepted_is_delivered[of ex_deps ex_xd ex_dispatcher ex_outbox_row ?r "ex_denv Acked" "Outbox_Default ''d''" ?w _ ?he
        "Responds 202 [] []" _ ex_pipe, OF _ _ _ r(2) _ _ de(1) s(3) de(2,3) _ _ _ _ _ ex_worker_gate(1) _ sent]
      ex_stored_run ex_stored_row ex_uuid r(1) s(1,2) q ex_worker_gate(2) run.start by (auto simp: ex_henv_def)
qed

text \<open>
  C15: Status events stay private from the worker to the browser. When a delivery emits a status
  event and the event's payload is written to a WebSocket connection of any hub, then the key of that
  connection may read the notification that the event is about, by the owner stored in its row.
\<close>

theorem status_event_private:
  assumes "db_wf (w_db w)" "Handle dp p he m w = (res, w')" "EEvent ev \<in> set (drop (length (w_trace w)) (w_trace w'))"
    and "b \<in> set (events_Publish marshal lost ev)"
    and "\<And>ev b. marshal ev = Some b \<Longrightarrow> dec b = Some (ev_batch_id ev, ev_channel ev, ev_created_by ev)"
    and "(hub_step dp dec)\<^sup>*\<^sup>* NewHub h" "s \<in> set (h_subs h)" "b \<in> set (su_got s)"
  shows "\<exists>r. row_of (ev_notification_id ev) (w_db w) = Some r \<and> may_access dp (su_key s) (n_created_by r)"
proof -
  obtain nid row d' where cas: "MarkSendingCAS (he_cas_now he) nid (w_db w) = Inr (row, d')" and ev: "event_of p row ev"
    using Handle_events[OF assms(2,3)] .
  obtain r where r: "row_of nid (w_db w) = Some r" "row = r\<lparr>n_status := StatusSending, n_updated_at := he_cas_now he\<rparr>"
    using update_row_after[OF assms(1) cas[unfolded MarkSendingCAS_def]] by auto
  then have id: "ev_notification_id ev = nid" "ev_created_by ev = n_created_by r"
    using ev row_of_check[OF assms(1) r(1)] by (simp_all add: event_of_def)
  have "dec b = Some (ev_batch_id ev, ev_channel ev, ev_created_by ev)"
    using assms(4,5) by (auto simp: events_Publish_def split: option.splits if_splits)
  moreover have "sub_ok dp dec s" using reachable_ok[OF assms(6)] assms(7) by (simp add: hub_ok_def list_all_iff)
  ultimately have "may_access dp (su_key s) (ev_created_by ev)"
    using assms(8) by (auto simp: sub_ok_def list_all_iff visible_to_def split: option.splits)
  then show ?thesis using r(1) id by simp
qed

definition ex_owned :: notification where
  "ex_owned = (ex_row StatusQueued 0)\<lparr>n_created_by := Some 1\<rparr>"

definition ex_marshal :: "status_event \<Rightarrow> string option" where
  "ex_marshal ev = (if ev_batch_id ev = None \<and> ev_channel ev = ''sms'' \<and> ev_created_by ev = Some 1 then Some ''mine'' else None)"

lemma ex_event:
  "\<exists>ev. EEvent ev \<in> set (w_trace (snd (Handle ex_ws_deps ex_pipe (ex_henv (BreakerCall (Responds 202 [] []))) ex_msg (ex_world ex_owned)))) \<and>
     ev_batch_id ev = None \<and> ev_channel ev = ''sms'' \<and> ev_created_by ev = Some 1 \<and> ev_notification_id ev = 1"
  by (simp add: Handle_def handle_def handle_cas_def handle_locked_def handle_send_def handle_success_def over_cap_def header_def
      ex_msg_def unmarshal_envelope_json ex_ws_deps_def ex_henv_def ex_world_def ex_owned_def ex_row_def ex_pipe_def new_pipeline_def
      run_stmt_def MarkSendingCAS_def MarkSent_def update_notification_def empty_db_def emit_def exec_def emitStatus_def
      gate_def do_take_def Take_def take_local_def AllowN_def luaTokenBucket_def bucket_level_def ex_take_def NewReservoir_def rl_params
      Send_def decode_response_def InsertDeliveryAttempt_def attempt_check_def notif_check_def Channel_Valid_def
      pg_length_def utf8_cont_def priority_check_def int4_def i32_range_def i32_def Let_def)

theorem status_event_private_witness:
  "\<exists>s ev. s \<in> set (h_subs ex_hub3) \<and> su_got s = [''mine''] \<and> may_access ex_ws_deps (su_key s) (n_created_by ex_owned) \<and> ev_notification_id ev = n_id ex_owned \<and>
     ex_marshal ev = Some ''mine''"
proof -
  let ?he = "ex_henv (BreakerCall (Responds 202 [] []))" and ?w = "ex_world ex_owned"
  obtain s where s: "h_subs ex_hub3 = [s]" "su_got s = [''mine'']" using ex_hub_subs(2) by blast
  obtain ev where ev: "EEvent ev \<in> set (w_trace (snd (Handle ex_ws_deps ex_pipe ?he ex_msg ?w)))"
    "ev_batch_id ev = None" "ev_channel ev = ''sms''" "ev_created_by ev = Some 1" "ev_notification_id ev = 1" using ex_event by blast
  have "notif_check ex_owned" using ex_row_check[of StatusQueued 0] by (simp add: ex_owned_def notif_check_def)
  then have wf: "db_wf (w_db ?w)" by (rule ex_world_wf)
  have b: "''mine'' \<in> set (events_Publish ex_marshal False ev)" using ev by (simp add: events_Publish_def ex_marshal_def)
  have dec: "\<And>ev b. ex_marshal ev = Some b \<Longrightarrow> ex_dec b = Some (ev_batch_id ev, ev_channel ev, ev_created_by ev)"
    by (auto simp: ex_marshal_def ex_dec_def split: if_splits)
  have new: "EEvent ev \<in> set (drop (length (w_trace ?w)) (w_trace (snd (Handle ex_ws_deps ex_pipe ?he ex_msg ?w))))"
    using ev(1) by (simp add: ex_world_def)
  have row: "row_of 1 (w_db ?w) = Some ex_owned" "n_id ex_owned = 1" by (simp_all add: row_of_def ex_world_def ex_owned_def ex_row_def)
  have "s \<in> set (h_subs ex_hub3)" "''mine'' \<in> set (su_got s)" using s by simp_all
  from status_event_private[OF wf prod.collapse[symmetric] new b dec ex_hub_reachable(2) this]
  have "may_access ex_ws_deps (su_key s) (n_created_by ex_owned)" using row ev(5) by simp
  then have "s \<in> set (h_subs ex_hub3) \<and> su_got s = [''mine''] \<and> may_access ex_ws_deps (su_key s) (n_created_by ex_owned) \<and>
      ev_notification_id ev = n_id ex_owned \<and> ex_marshal ev = Some ''mine''"
    using s ev row(2) by (simp add: ex_marshal_def)
  then show ?thesis by blast
qed



end
